(* ===== verification/Prelude.thy ===== *)
theory Prelude
  imports Main "HOL-Library.Word" "HOL-Library.Signed_Division"
begin

text \<open>
  Shared vocabulary of the development: the integer types of
  \<open>lib/include/common/type.hpp\<close>, the result type of \<open>std::expected\<close>, the ways a C++
  function can fail to return, the fact collections the component theories feed, and
  generic lemmas on words and bytes.
\<close>

unbundle bit_operations_syntax

section \<open>Integer types\<close>

type_synonym u8 = "8 word"
type_synonym u16 = "16 word"
type_synonym u32 = "32 word"
type_synonym u64 = "64 word"

section \<open>Results\<close>

text \<open>
  How a call can end other than by returning: a C++ exception that propagates, or a step the
  language gives no meaning to (an out-of-bounds access, a shift by too many bits).
\<close>

datatype exn =
    Logic_error string
  | Runtime_error string
  | Out_of_range_exception
  | Undefined_behaviour string

text \<open>
  \<open>std::expected<'a, 'e>\<close>, together with the exceptional exits. A function of the source that
  is \<open>noexcept\<close> and has no undefined step returns \<open>'e + 'a\<close> instead.
\<close>

datatype ('a, 'e) expected = Value 'a | Unexpected 'e | Throw exn

definition throws :: "('a, 'e) expected \<Rightarrow> bool" where
  "throws r \<longleftrightarrow> (\<exists>x. r = Throw x)"

lemma throws_simps [simp]:
  "\<not> throws (Value a)" "\<not> throws (Unexpected e)" "throws (Throw x)"
  by (simp_all add: throws_def)

section \<open>Fact collections\<close>

named_theorems bitset_word \<open>a Bitset operation as the word operation it implements\<close>
named_theorems bitset_wf \<open>a Bitset operation keeps the value within its width\<close>
named_theorems frame \<open>fields an operation leaves alone\<close>

section \<open>Words\<close>

lemma not_push_bit_minus_one: "NOT (push_bit n (-1 :: 'a::len word)) = mask n"
  by (simp add: mask_eq_exp_minus_1 flip: mask_eq_exp_minus_1)

lemma bit_word_leD: "LENGTH('a) \<le> n \<Longrightarrow> \<not> bit (w :: 'a::len word) n"
  by (auto dest: bit_imp_le_length)

lemma bit_u64_less [dest]: "bit (v :: u64) i \<Longrightarrow> i < 64"
  using bit_imp_le_length[of v i] by simp

lemma bit_u32_less [dest]: "bit (v :: u32) i \<Longrightarrow> i < 32"
  using bit_imp_le_length[of v i] by simp

lemma unat_ucast_up [simp]:
  "LENGTH('a) \<le> LENGTH('b) \<Longrightarrow> unat (ucast w :: 'b::len word) = unat w" for w :: "'a::len word"
  by (simp add: unsigned_ucast_eq take_bit_nat_eq_self_iff less_le_trans[OF unsigned_less])

lemma unat_u32_less [simp]: "unat (a :: u32) < 4294967296"
  using unsigned_less[of a] by simp

lemma unat_u8_less: "unat (b :: u8) < 256"
  using unsigned_less[of b, where 'a = nat] by simp

lemma word_nonzero_iff_bit: "w \<noteq> 0 \<longleftrightarrow> (\<exists>i. bit w i)" for w :: "'a::len word"
  by (metis bit_0_eq bit_word_eqI bot_apply bot_bool_def)

lemma unat_drop_bit: "unat (drop_bit n w) = unat w div 2 ^ n" for w :: "'a::len word"
proof -
  have "unat (drop_bit n w) = drop_bit n (take_bit LENGTH('a) (unat w))"
    by (rule unsigned_drop_bit_eq)
  also have "take_bit LENGTH('a) (unat w) = unat w" by (simp add: take_bit_nat_eq_self)
  finally show ?thesis by (simp add: drop_bit_eq_div)
qed

lemma uint_drop_bit: "uint (drop_bit n w) = uint w div 2 ^ n" for w :: "'a::len word"
  by (simp only: uint_nat unat_drop_bit) (simp add: zdiv_int)

lemma unat_push_bit: "unat (push_bit n w) = unat w * 2 ^ n mod 2 ^ LENGTH('a)" for w :: "'a::len word"
proof -
  have "unat (push_bit n w) = take_bit LENGTH('a) (push_bit n (unat w))"
    by (rule unsigned_push_bit_eq)
  then show ?thesis by (simp only: push_bit_eq_mult take_bit_eq_mod)
qed

lemma ucast_eq_iff_bits:
  "(ucast v :: 'a::len word) = ucast w \<longleftrightarrow> (\<forall>n < LENGTH('a). bit v n = bit w n)"
  for v w :: "'b::len word"
  by (auto simp: bit_eq_iff bit_simps)

section \<open>Bytes of a word\<close>

text \<open>\<open>std::bit_cast\<close> between \<open>u32\<close> (or \<open>u16\<close>) and byte arrays on a little-endian host.\<close>

definition bytes_of_u32 :: "u32 \<Rightarrow> u8 list" where
  "bytes_of_u32 w = [ucast w, ucast (drop_bit 8 w), ucast (drop_bit 16 w), ucast (drop_bit 24 w)]"

definition u32_of_bytes :: "u8 \<Rightarrow> u8 \<Rightarrow> u8 \<Rightarrow> u8 \<Rightarrow> u32" where
  "u32_of_bytes b0 b1 b2 b3 =
     ucast b0 OR push_bit 8 (ucast b1) OR push_bit 16 (ucast b2) OR push_bit 24 (ucast b3)"

definition u16_of_bytes :: "u8 \<Rightarrow> u8 \<Rightarrow> u16" where
  "u16_of_bytes b0 b1 = ucast b0 OR push_bit 8 (ucast b1)"

lemma byte_cases:
  fixes n :: nat
  assumes "n < 32"
  obtains k where "k < 8" "n = k" "k div 8 = 0" "k mod 8 = k"
    | k where "k < 8" "n = 8 + k" "(8 + k) div 8 = 1" "(8 + k) mod 8 = k"
    | k where "k < 8" "n = 16 + k" "(16 + k) div 8 = 2" "(16 + k) mod 8 = k"
    | k where "k < 8" "n = 24 + k" "(24 + k) div 8 = 3" "(24 + k) mod 8 = k"
proof -
  have "n < 8 \<or> (\<exists>k < 8. n = 8 + k) \<or> (\<exists>k < 8. n = 16 + k) \<or> (\<exists>k < 8. n = 24 + k)"
    using assms by presburger
  then show ?thesis
  proof (elim disjE exE conjE)
    fix k assume "k < 8" "n = 16 + k"
    moreover from this have "(16 + k) div 8 = 2" "(16 + k) mod 8 = k" by presburger+
    ultimately show thesis by (rule that(3))
  next
    fix k assume "k < 8" "n = 24 + k"
    moreover from this have "(24 + k) div 8 = 3" "(24 + k) mod 8 = k" by presburger+
    ultimately show thesis by (rule that(4))
  qed (auto intro: that)
qed

lemma bit_u32_of_bytes:
  "bit (u32_of_bytes b0 b1 b2 b3) n \<longleftrightarrow> n < 32 \<and> bit ([b0, b1, b2, b3] ! (n div 8)) (n mod 8)"
proof (cases "n < 32")
  case True
  then show ?thesis
    by (cases rule: byte_cases) (simp_all add: u32_of_bytes_def bit_simps bit_word_leD)
qed auto

lemma u32_of_bytes_of_u32 [simp]:
  "u32_of_bytes (ucast w) (ucast (drop_bit 8 w)) (ucast (drop_bit 16 w)) (ucast (drop_bit 24 w)) = w"
proof (rule bit_word_eqI)
  fix n assume "n < LENGTH(32)"
  then have "n < 32" by simp
  then show "bit (u32_of_bytes (ucast w) (ucast (drop_bit 8 w)) (ucast (drop_bit 16 w))
      (ucast (drop_bit 24 w))) n = bit w n"
    by (cases rule: byte_cases) (simp_all add: bit_u32_of_bytes bit_simps)
qed

end
