(* ===== verification/Alu.thy ===== *)
theory Alu
  imports Prelude
begin

text \<open>
  \<open>lib/core/alu.cpp\<close>: the arithmetic helpers of \<open>native_math\<close>, the ALU module and the branch
  module. A \<open>u32\<close> is a \<open>32 word\<close>; \<open>static_cast<i32>\<close> is \<open>sint\<close>; C++ division of signed
  integers truncates, which is \<open>sdiv\<close> and \<open>smod\<close> on \<open>int\<close>. Signed 64-bit multiplication
  wraps, as the compilers of the build make it.
\<close>

unbundle bit_operations_syntax

section \<open>native\_math\<close>

definition compare_eq :: "u32 \<Rightarrow> u32 \<Rightarrow> bool" where
  "compare_eq x y \<longleftrightarrow> x = y"

definition compare_lt :: "u32 \<Rightarrow> u32 \<Rightarrow> bool" where
  "compare_lt x y \<longleftrightarrow> sint x < sint y"

definition compare_ltu :: "u32 \<Rightarrow> u32 \<Rightarrow> bool" where
  "compare_ltu x y \<longleftrightarrow> x < y"

definition sll :: "u32 \<Rightarrow> u32 \<Rightarrow> u32" where
  "sll x shift_amount = push_bit (unat (shift_amount AND 0b11111)) x"

definition srl :: "u32 \<Rightarrow> u32 \<Rightarrow> u32" where
  "srl x shift_amount = drop_bit (unat (shift_amount AND 0b11111)) x"

definition sra :: "u32 \<Rightarrow> u32 \<Rightarrow> u32" where
  "sra x shift_amount = signed_drop_bit (unat (shift_amount AND 0b11111)) x"

definition mul :: "u32 \<Rightarrow> u32 \<Rightarrow> u32" where
  "mul x y = x * y"

text \<open>\<open>static_cast<i64>\<close> of an unsigned 32-bit value is its zero extension.\<close>

definition mulh :: "u32 \<Rightarrow> u32 \<Rightarrow> u32" where
  "mulh x y = ucast (signed_drop_bit 32 ((ucast x :: u64) * (ucast y :: u64)))"

definition mulhu :: "u32 \<Rightarrow> u32 \<Rightarrow> u32" where
  "mulhu x y = ucast (drop_bit 32 ((ucast x :: u64) * (ucast y :: u64)))"

definition mulhsu :: "u32 \<Rightarrow> u32 \<Rightarrow> u32" where
  "mulhsu x y = ucast (drop_bit 32 ((ucast x :: u64) * (ucast y :: u64)))"

definition div32 :: "u32 \<Rightarrow> u32 \<Rightarrow> u32" where
  "div32 x y =
     (if y = 0 then -1
      else if x = 0x80000000 \<and> y = 0xFFFFFFFF then x
      else word_of_int (sint x sdiv sint y))"

definition divu :: "u32 \<Rightarrow> u32 \<Rightarrow> u32" where
  "divu x y = (if y = 0 then -1 else x div y)"

definition rem32 :: "u32 \<Rightarrow> u32 \<Rightarrow> u32" where
  "rem32 x y =
     (if y = 0 then x
      else if x = 0x80000000 \<and> y = 0xFFFFFFFF then 0
      else word_of_int (sint x smod sint y))"

definition remu :: "u32 \<Rightarrow> u32 \<Rightarrow> u32" where
  "remu x y = (if y = 0 then x else x mod y)"

section \<open>The ALU module\<close>

datatype alu_opcode =
    Alu_Add | Alu_Sub
  | Alu_Sll | Alu_Srl | Alu_Sra
  | Alu_Slt | Alu_Sltu
  | Alu_And | Alu_Or | Alu_Xor
  | Alu_Mul | Alu_Mulh | Alu_Mulhsu | Alu_Mulhu
  | Alu_Div | Alu_Divu | Alu_Rem | Alu_Remu
  | Alu_Czero_eqz | Alu_Czero_nez

fun alu_module :: "alu_opcode \<Rightarrow> u32 \<Rightarrow> u32 \<Rightarrow> u32" where
  "alu_module Alu_Add x y = x + y"
| "alu_module Alu_Sub x y = x - y"
| "alu_module Alu_Sll x y = sll x y"
| "alu_module Alu_Srl x y = srl x y"
| "alu_module Alu_Sra x y = sra x y"
| "alu_module Alu_Slt x y = (if compare_lt x y then 1 else 0)"
| "alu_module Alu_Sltu x y = (if compare_ltu x y then 1 else 0)"
| "alu_module Alu_And x y = x AND y"
| "alu_module Alu_Or x y = x OR y"
| "alu_module Alu_Xor x y = x XOR y"
| "alu_module Alu_Mul x y = mul x y"
| "alu_module Alu_Mulh x y = mulh x y"
| "alu_module Alu_Mulhsu x y = mulhsu x y"
| "alu_module Alu_Mulhu x y = mulhu x y"
| "alu_module Alu_Div x y = div32 x y"
| "alu_module Alu_Rem x y = rem32 x y"
| "alu_module Alu_Divu x y = divu x y"
| "alu_module Alu_Remu x y = remu x y"
| "alu_module Alu_Czero_eqz x y = (if y = 0 then 0 else x)"
| "alu_module Alu_Czero_nez x y = (if y \<noteq> 0 then 0 else x)"

section \<open>The branch module\<close>

datatype branch_opcode = Br_None | Br_Eq | Br_Ne | Br_Lt | Br_Ge | Br_Ltu | Br_Geu

fun branch_module :: "branch_opcode \<Rightarrow> u32 \<Rightarrow> u32 \<Rightarrow> bool" where
  "branch_module Br_None x y = False"
| "branch_module Br_Eq x y = compare_eq x y"
| "branch_module Br_Ne x y = (\<not> compare_eq x y)"
| "branch_module Br_Lt x y = compare_lt x y"
| "branch_module Br_Ge x y = (\<not> compare_lt x y)"
| "branch_module Br_Ltu x y = compare_ltu x y"
| "branch_module Br_Geu x y = (\<not> compare_ltu x y)"

section \<open>Division\<close>

lemma sint_u32_bounds: "- (2 ^ 31) \<le> sint x" "sint x < 2 ^ 31" for x :: u32
  using sint_greater_eq[of x] sint_less[of x] by simp_all

lemma sint_min: "sint (x :: u32) = - (2 ^ 31) \<longleftrightarrow> x = 0x80000000"
proof -
  have "sint (0x80000000 :: u32) = - (2 ^ 31)" by simp
  then show ?thesis by (metis signed_word_eqI)
qed

lemma sint_minus_one: "sint (y :: u32) = -1 \<longleftrightarrow> y = 0xFFFFFFFF"
proof -
  have "sint (0xFFFFFFFF :: u32) = -1" by simp
  then show ?thesis by (metis signed_word_eqI)
qed

text \<open>Quotient and remainder recombine to the dividend, in the two special cases as well.\<close>

lemma div32_rem32: "div32 x y * y + rem32 x y = x"
proof -
  consider "y = 0" | "x = 0x80000000" "y = 0xFFFFFFFF"
    | "y \<noteq> 0" "\<not> (x = 0x80000000 \<and> y = 0xFFFFFFFF)" by blast
  then show ?thesis
  proof cases
    case 3
    have "div32 x y * y + rem32 x y =
        word_of_int (sint x sdiv sint y * sint y + sint x smod sint y)"
      using 3 by (auto simp: div32_def rem32_def)
    then show ?thesis by (simp add: sdiv_mult_smod_eq)
  qed (simp_all add: div32_def rem32_def)
qed

lemma divu_remu: "divu x y * y + remu x y = x"
  by (simp add: divu_def remu_def word_mod_div_equality)

lemma sint_of_int_u32:
  "- (2 ^ 31) \<le> k \<Longrightarrow> k < 2 ^ 31 \<Longrightarrow> sint (word_of_int k :: u32) = k"
  by (simp add: sint_sbintrunc' signed_take_bit_int_eq_self)

lemma abs_bound_is_min:
  "2 ^ 31 \<le> k \<Longrightarrow> k \<le> \<bar>a\<bar> \<Longrightarrow> - (2 ^ 31) \<le> a \<Longrightarrow> a < 2 ^ 31 \<Longrightarrow> a = - (2 ^ 31) \<and> k = - a"
  for a k :: int
  by auto

lemma sdiv_u32_less:
  assumes "\<not> (x = 0x80000000 \<and> y = (0xFFFFFFFF :: u32))"
  shows "sint (x :: u32) sdiv sint y < 2 ^ 31"
proof (rule ccontr)
  assume "\<not> sint x sdiv sint y < 2 ^ 31"
  then have ge: "2 ^ 31 \<le> sint x sdiv sint y" by simp
  have le: "sint x sdiv sint y \<le> \<bar>sint x\<bar>" using sdiv_int_range[of "sint x" "sint y"] by simp
  have x: "sint x = - (2 ^ 31)" and q: "sint x sdiv sint y = - sint x"
    using abs_bound_is_min[OF ge le sint_u32_bounds] by blast+
  then have "sint x \<noteq> 0" by simp
  with q have "sint y = -1" using int_sdiv_negated_is_minus1 by blast
  with x have "x = 0x80000000" "y = 0xFFFFFFFF" by (simp_all only: sint_min sint_minus_one)
  with assms show False by blast
qed

lemma sint_div32:
  assumes "y \<noteq> 0" and "\<not> (x = 0x80000000 \<and> y = 0xFFFFFFFF)"
  shows "sint (div32 x y) = sint x sdiv sint y"
proof -
  have "- (2 ^ 31) \<le> sint x sdiv sint y"
    using sdiv_int_range[of "sint x" "sint y"] sint_u32_bounds[of x] by auto
  with sdiv_u32_less[OF assms(2)] show ?thesis
    using assms by (auto simp: div32_def sint_of_int_u32)
qed

lemma sint_rem32:
  assumes "y \<noteq> 0" and "\<not> (x = 0x80000000 \<and> y = 0xFFFFFFFF)"
  shows "sint (rem32 x y) = sint x smod sint y"
proof -
  have "sint y \<noteq> 0" using assms(1) by (metis signed_0 signed_word_eqI)
  from smod_int_range[OF this, of "sint x"] sint_u32_bounds[of y]
  have "- (2 ^ 31) \<le> sint x smod sint y" "sint x smod sint y < 2 ^ 31" by auto
  then show ?thesis using assms by (auto simp: rem32_def sint_of_int_u32)
qed

section \<open>High halves of products\<close>

text \<open>
  What the RISC-V manual calls for: the high word of the exact product of the operands, each
  read as signed or unsigned.
\<close>

definition spec_mulh :: "u32 \<Rightarrow> u32 \<Rightarrow> u32" where
  "spec_mulh x y = word_of_int ((sint x * sint y) div 2 ^ 32)"

definition spec_mulhsu :: "u32 \<Rightarrow> u32 \<Rightarrow> u32" where
  "spec_mulhsu x y = word_of_int ((sint x * uint y) div 2 ^ 32)"

definition spec_mulhu :: "u32 \<Rightarrow> u32 \<Rightarrow> u32" where
  "spec_mulhu x y = word_of_int ((uint x * uint y) div 2 ^ 32)"

lemma mulhu_spec: "mulhu x y = spec_mulhu x y"
proof -
  have bx: "uint x < 2 ^ 32" and by': "uint y < 2 ^ 32"
    using unsigned_less[of x] unsigned_less[of y] by simp_all
  have "uint x * uint y < 2 ^ 32 * 2 ^ 32"
    by (rule mult_strict_mono'[OF bx by']) simp_all
  then have p: "uint ((ucast x :: u64) * ucast y) = uint x * uint y"
    using bx by' by (simp add: uint_word_ariths unsigned_ucast_eq take_bit_int_eq_self)
  have "uint (drop_bit 32 ((ucast x :: u64) * ucast y)) = uint x * uint y div 2 ^ 32"
    by (simp only: uint_drop_bit p)
  then show ?thesis
    unfolding mulhu_def spec_mulhu_def by (metis ucast_eq)
qed

lemma mulh_eq_mulhu: "mulh x y = mulhu x y"
proof (rule bit_word_eqI)
  fix n assume "n < LENGTH(32)"
  then show "bit (mulh x y) n = bit (mulhu x y) n"
    by (simp add: mulh_def mulhu_def bit_simps bit_signed_drop_bit_iff ac_simps)
qed

lemma uint_sint_u32: "uint x = sint x + (if sint x < 0 then 2 ^ 32 else 0)" for x :: u32
proof -
  have "uint x < 2 ^ 32" using unsigned_less[of x] by simp
  then have "take_bit 32 (uint x) = uint x" by (simp add: take_bit_int_eq_self)
  then have "sint x = uint x - 2 ^ 32 * of_bool (bit (uint x) 31)"
    by (simp add: sint_uint signed_take_bit_eq_take_bit_minus)
  moreover have "uint x < 2 ^ 32" "0 \<le> uint x" using unsigned_less[of x] by simp_all
  ultimately show ?thesis by (auto simp: of_bool_def split: if_splits)
qed

text \<open>
  The sources cast their unsigned arguments straight to \<open>i64\<close>, which never sign extends. So
  the high halves come out as those of the unsigned product, off from the specified ones by
  one operand for each negative signed operand.
\<close>

lemma mulh_deviation:
  "mulh x y = spec_mulh x y + (if sint x < 0 then y else 0) + (if sint y < 0 then x else 0)"
proof -
  define a b where "a = (if sint x < 0 then 1 else 0 :: int)" and "b = (if sint y < 0 then 1 else 0 :: int)"
  have u: "uint x = sint x + 2 ^ 32 * a" "uint y = sint y + 2 ^ 32 * b"
    by (simp_all add: uint_sint_u32[of x] uint_sint_u32[of y] a_def b_def)
  have "uint x * uint y = sint x * sint y + 2 ^ 32 * (a * sint y + b * sint x + 2 ^ 32 * (a * b))"
    by (simp add: u algebra_simps)
  then have "uint x * uint y div 2 ^ 32
      = sint x * sint y div 2 ^ 32 + (a * sint y + b * sint x + 2 ^ 32 * (a * b))"
    by simp
  then have "mulh x y = spec_mulh x y + of_int (a * sint y + b * sint x) + of_int (2 ^ 32) * of_int (a * b)"
    by (simp only: mulh_eq_mulhu mulhu_spec spec_mulhu_def spec_mulh_def of_int_add of_int_mult add.assoc)
  moreover have "of_int (2 ^ 32) = (0 :: u32)" by simp
  ultimately show ?thesis by (simp add: a_def b_def)
qed

lemma mulhsu_deviation:
  "mulhsu x y = spec_mulhsu x y + (if sint x < 0 then y else 0)"
proof -
  define a where "a = (if sint x < 0 then 1 else 0 :: int)"
  have "uint x = sint x + 2 ^ 32 * a"
    by (simp add: uint_sint_u32[of x] a_def)
  then have "uint x * uint y = sint x * uint y + 2 ^ 32 * (a * uint y)"
    by (simp add: algebra_simps)
  then have "uint x * uint y div 2 ^ 32 = sint x * uint y div 2 ^ 32 + a * uint y"
    by simp
  then have "mulhu x y = spec_mulhsu x y + of_int (a * uint y)"
    by (simp only: mulhu_spec spec_mulhu_def spec_mulhsu_def of_int_add)
  moreover have "mulhsu x y = mulhu x y" by (simp add: mulhsu_def mulhu_def)
  ultimately show ?thesis by (simp add: a_def)
qed

section \<open>Shifts\<close>

lemma shift_amount_nat: "unat (s AND 0b11111) = unat s mod 32" for s :: u32
proof -
  have "s AND 0b11111 = take_bit 5 s"
    by (simp add: take_bit_eq_mask mask_eq_exp_minus_1)
  then have "unat (s AND 0b11111) = take_bit 5 (unat s)"
    by (simp only: unsigned_take_bit_eq)
  then show ?thesis by (simp only: take_bit_eq_mod) simp
qed

lemma unat_sll: "unat (sll x s) = unat x * 2 ^ (unat s mod 32) mod 2 ^ 32"
  by (simp only: sll_def shift_amount_nat unat_push_bit) simp

lemma unat_srl: "unat (srl x s) = unat x div 2 ^ (unat s mod 32)"
  by (simp only: srl_def shift_amount_nat unat_drop_bit)

lemma sint_sra: "sint (sra x s) = sint x div 2 ^ (unat s mod 32)"
  by (simp add: sra_def shift_amount_nat sint_signed_drop_bit_eq drop_bit_eq_div)

end
