(* ===== verification/Bitset.thy ===== *)
theory Bitset
  imports Prelude
begin

text \<open>
  The fixed-width bit set \<open>core::Bitset<Nb>\<close> of \<open>lib/include/common/bitset.hpp\<close>. The class
  stores its bits in an \<open>unsigned long long\<close> and masks them to \<open>Nb\<close> bits; so does the model,
  whose phantom type parameter carries the template argument \<open>Nb\<close> (\<open>5 bitset\<close> is
  \<open>Bitset<5>\<close>). The second half is the abstract specification: under the class invariant each
  operation is the corresponding operation on \<open>Nb\<close>-bit words.
\<close>

unbundle bit_operations_syntax

section \<open>The class\<close>

datatype 'n bitset = Bitset (bs_value: u64)

definition bs_mask :: "nat \<Rightarrow> u64" where
  "bs_mask nb = NOT (push_bit nb (-1))"

text \<open>The converting constructor from an integer, already converted to \<open>unsigned long long\<close>.\<close>

definition bs_of :: "u64 \<Rightarrow> 'n::len bitset" where
  "bs_of v = Bitset (v AND bs_mask LENGTH('n))"

definition bs_default :: "'n::len bitset" where
  "bs_default = Bitset 0"

definition bs_not :: "'n::len bitset \<Rightarrow> 'n bitset" where
  "bs_not a = bs_of (NOT (bs_value a))"

definition bs_or :: "'n::len bitset \<Rightarrow> 'n bitset \<Rightarrow> 'n bitset" where
  "bs_or a b = bs_of (bs_value a OR bs_value b)"

definition bs_and :: "'n::len bitset \<Rightarrow> 'n bitset \<Rightarrow> 'n bitset" where
  "bs_and a b = bs_of (bs_value a AND bs_value b)"

definition bs_xor :: "'n::len bitset \<Rightarrow> 'n bitset \<Rightarrow> 'n bitset" where
  "bs_xor a b = bs_of (bs_value a XOR bs_value b)"

definition bs_eq :: "'n::len bitset \<Rightarrow> 'n bitset \<Rightarrow> bool" where
  "bs_eq a b \<longleftrightarrow> bs_value a = bs_value b"

text \<open>Comparison with an integer: the integer is masked to the width first.\<close>

definition bs_eq_int :: "'n::len bitset \<Rightarrow> u64 \<Rightarrow> bool" where
  "bs_eq_int a v \<longleftrightarrow> bs_value a = v AND bs_mask LENGTH('n)"

text \<open>
  \<open>slice<MSB, LSB>()\<close>. The result has \<open>MSB - LSB + 1\<close> bits, which the result type repeats.
\<close>

definition bs_slice :: "nat \<Rightarrow> nat \<Rightarrow> 'n::len bitset \<Rightarrow> 'm::len bitset" where
  "bs_slice msb lsb a = Bitset (drop_bit lsb (bs_value a) AND bs_mask (msb - lsb + 1))"

definition bs_take_bit :: "nat \<Rightarrow> 'n::len bitset \<Rightarrow> 1 bitset" where
  "bs_take_bit i a = bs_of (drop_bit i (bs_value a) AND 1)"

text \<open>A 1-bit set used as a condition: conversion to \<open>bool\<close>.\<close>

definition bs_bool :: "'n::len bitset \<Rightarrow> bool" where
  "bs_bool a \<longleftrightarrow> bs_value a \<noteq> 0"

text \<open>\<open>operator+\<close>: concatenation, with the left operand in the high bits.\<close>

definition bs_concat_bool :: "'n::len bitset \<Rightarrow> bool \<Rightarrow> 'k::len bitset" where
  "bs_concat_bool a c = bs_of (of_bool c OR push_bit 1 (bs_value a))"

definition bs_concat :: "'n::len bitset \<Rightarrow> 'm::len bitset \<Rightarrow> 'k::len bitset" where
  "bs_concat a b = bs_of (push_bit LENGTH('m) (bs_value a) OR bs_value b)"

definition bs_zext :: "'n::len bitset \<Rightarrow> 'm::len bitset" where
  "bs_zext a = bs_of (bs_value a)"

text \<open>\<open>sext<Ny>\<close>: \<open>Ny - Nb\<close> ones or zeros, concatenated with the set itself.\<close>

definition bs_sext :: "'n::len bitset \<Rightarrow> 'm::len bitset" where
  "bs_sext a =
     bs_of (push_bit LENGTH('n)
              (if bs_bool (bs_take_bit (LENGTH('n) - 1) a)
               then -1 AND bs_mask (LENGTH('m) - LENGTH('n)) else 0)
            OR bs_value a)"

definition bs_zeros :: "'n::len bitset" where
  "bs_zeros = bs_of 0"

definition bs_ones :: "'n::len bitset" where
  "bs_ones = bs_of (-1)"

text \<open>
  \<open>expand_byte_mask\<close> recurses over the width: the top bit, sign extended to a byte, in front
  of the expansion of the rest.
\<close>

fun expand_bits :: "nat \<Rightarrow> u64 \<Rightarrow> u64" where
  "expand_bits 0 v = 0"
| "expand_bits (Suc n) v =
     push_bit (8 * n) (bs_value (bs_sext (bs_of (drop_bit n v) :: 1 bitset) :: 8 bitset))
     OR expand_bits n (v AND bs_mask n)"

definition bs_expand_byte_mask :: "'n::len bitset \<Rightarrow> 'm::len bitset" where
  "bs_expand_byte_mask a = bs_of (expand_bits LENGTH('n) (bs_value a))"

definition bs_choose_bits :: "'n::len bitset \<Rightarrow> 'n bitset \<Rightarrow> 'n bitset \<Rightarrow> 'n bitset" where
  "bs_choose_bits m if_one if_zero =
     bs_of ((bs_value if_one AND bs_value m) OR (bs_value if_zero AND NOT (bs_value m)))"

definition bs_choose_bits_u32 :: "32 bitset \<Rightarrow> u32 \<Rightarrow> u32 \<Rightarrow> u32" where
  "bs_choose_bits_u32 m if_one if_zero =
     (let bit_mask = ucast (bs_value m) :: u32
      in (if_one AND bit_mask) OR (if_zero AND NOT bit_mask))"

text \<open>The conversions \<open>static_cast<u32>\<close>, \<open>static_cast<size_t>\<close> and their kin.\<close>

definition bs_u32 :: "'n::len bitset \<Rightarrow> u32" where
  "bs_u32 a = ucast (bs_value a)"

definition bs_nat :: "'n::len bitset \<Rightarrow> nat" where
  "bs_nat a = unat (bs_value a)"

section \<open>The abstract specification: words of the width\<close>

definition bs_word :: "'n::len bitset \<Rightarrow> 'n word" where
  "bs_word a = ucast (bs_value a)"

definition bs_inv :: "'n::len bitset \<Rightarrow> bool" where
  "bs_inv a \<longleftrightarrow> LENGTH('n) \<le> 64 \<and> bs_value a AND bs_mask LENGTH('n) = bs_value a"

lemma bs_mask_eq: "bs_mask n = mask n"
  by (simp add: bs_mask_def not_push_bit_minus_one)

lemma bit_bs_mask [bit_simps]: "bit (bs_mask n) i \<longleftrightarrow> i < n \<and> i < 64"
  by (auto simp: bs_mask_eq bit_mask_iff)

lemma bs_inv_iff: "bs_inv a \<longleftrightarrow> LENGTH('n) \<le> 64 \<and> (\<forall>i. bit (bs_value a) i \<longrightarrow> i < LENGTH('n))"
  for a :: "'n::len bitset"
  by (auto simp: bs_inv_def bit_eq_iff bit_simps)

lemma bs_inv_high_bits: "bs_inv a \<Longrightarrow> LENGTH('n) \<le> i \<Longrightarrow> \<not> bit (bs_value a) i"
  for a :: "'n::len bitset"
  by (auto simp: bs_inv_iff)

lemma bs_inv_of [simp, bitset_wf]: "LENGTH('n) \<le> 64 \<Longrightarrow> bs_inv (bs_of v :: 'n::len bitset)"
  by (auto simp: bs_inv_iff bs_of_def bit_simps)

lemma bit_bs_of: "bit (bs_value (bs_of v :: 'n::len bitset)) i \<longleftrightarrow> i < LENGTH('n) \<and> bit v i"
  by (auto simp: bs_of_def bit_simps dest: bit_imp_le_length)

lemma bit_bs_word: "bit (bs_word a) i \<longleftrightarrow> i < LENGTH('n) \<and> bit (bs_value a) i"
  for a :: "'n::len bitset"
  by (auto simp: bs_word_def bit_simps)

text \<open>Under the invariant a set is exactly its word, so equality of sets is equality of words.\<close>

lemma bs_value_word: "bs_inv a \<Longrightarrow> bs_value a = ucast (bs_word a)"
  by (rule bit_word_eqI) (auto simp: bit_simps bit_bs_word bs_inv_iff)

lemma bs_eq_word: "bs_inv a \<Longrightarrow> bs_inv b \<Longrightarrow> bs_eq a b \<longleftrightarrow> bs_word a = bs_word b"
  by (metis bs_eq_def bs_value_word bs_word_def)

lemma bs_word_of [bitset_word]: "bs_word (bs_of v :: 'n::len bitset) = ucast v"
  by (rule bit_word_eqI) (auto simp: bit_bs_word bit_bs_of bit_simps)

lemma bs_eq_int_word:
  "bs_inv a \<Longrightarrow> bs_eq_int a v \<longleftrightarrow> bs_word a = ucast v" for a :: "'n::len bitset"
  using bs_eq_word[of a "bs_of v"]
  by (simp add: bs_eq_def bs_eq_int_def bs_of_def bs_word_of[unfolded bs_of_def] bs_inv_def ac_simps)

subsection \<open>Operations against words\<close>

lemma bs_word_eqI: "(\<And>i. i < LENGTH('n) \<Longrightarrow> bit (bs_value a) i = bit w i) \<Longrightarrow> bs_word a = w"
  for a :: "'n::len bitset"
  by (rule bit_word_eqI) (simp add: bit_bs_word)

lemma bs_word_not [bitset_word]: "LENGTH('n) \<le> 64 \<Longrightarrow> bs_word (bs_not a) = NOT (bs_word a)"
  for a :: "'n::len bitset"
  by (rule bs_word_eqI) (auto simp: bs_not_def bit_bs_of bit_simps bit_bs_word)

lemma bs_word_or [bitset_word]: "bs_word (bs_or a b) = bs_word a OR bs_word b"
  by (rule bs_word_eqI) (auto simp: bs_or_def bit_bs_of bit_simps bit_bs_word)

lemma bs_word_and [bitset_word]: "bs_word (bs_and a b) = bs_word a AND bs_word b"
  by (rule bs_word_eqI) (auto simp: bs_and_def bit_bs_of bit_simps bit_bs_word)

lemma bs_word_xor [bitset_word]: "bs_word (bs_xor a b) = bs_word a XOR bs_word b"
  by (rule bs_word_eqI) (auto simp: bs_xor_def bit_bs_of bit_simps bit_bs_word)

lemma bs_inv_not [simp, bitset_wf]: "LENGTH('n) \<le> 64 \<Longrightarrow> bs_inv (bs_not (a :: 'n::len bitset))"
  by (simp add: bs_not_def)

lemma bit_bs_slice:
  "bit (bs_value (bs_slice msb lsb a)) i \<longleftrightarrow> i \<le> msb - lsb \<and> bit (bs_value a) (lsb + i)"
  by (auto simp: bs_slice_def bit_simps ac_simps)

lemma bs_word_slice [bitset_word]:
  "LENGTH('m) = msb - lsb + 1 \<Longrightarrow>
     bs_word (bs_slice msb lsb a :: 'm::len bitset) = ucast (drop_bit lsb (bs_value a))"
  by (rule bs_word_eqI) (auto simp: bit_bs_slice bit_simps ac_simps)

lemma bs_inv_slice [simp, bitset_wf]:
  "LENGTH('m) = msb - lsb + 1 \<Longrightarrow> msb < 64 \<Longrightarrow> bs_inv (bs_slice msb lsb a :: 'm::len bitset)"
  by (auto simp: bs_inv_iff bit_bs_slice)

lemma bit_bs_take_bit: "bit (bs_value (bs_take_bit i a)) j \<longleftrightarrow> j = 0 \<and> bit (bs_value a) i"
  by (auto simp: bs_take_bit_def bit_bs_of bit_simps bit_1_iff)

lemma bs_bool_take_bit [simp]: "bs_bool (bs_take_bit i a) = bit (bs_value a) i"
  by (simp add: bs_bool_def word_nonzero_iff_bit bit_bs_take_bit)

lemma bs_inv_take_bit [simp, bitset_wf]: "bs_inv (bs_take_bit i a)"
  by (simp add: bs_take_bit_def)

lemma bit_bs_concat:
  "LENGTH('n) + LENGTH('m) \<le> 64 \<Longrightarrow> LENGTH('k) = LENGTH('n) + LENGTH('m) \<Longrightarrow> bs_inv a \<Longrightarrow> bs_inv b \<Longrightarrow>
     bit (bs_value (bs_concat a b :: 'k::len bitset)) i \<longleftrightarrow>
       (if i < LENGTH('m) then bit (bs_value b) i else bit (bs_value a) (i - LENGTH('m)))"
  for a :: "'n::len bitset" and b :: "'m::len bitset"
  by (auto simp: bs_concat_def bit_bs_of bit_simps bs_inv_iff)

lemma bs_word_concat [bitset_word]:
  "LENGTH('n) + LENGTH('m) \<le> 64 \<Longrightarrow> LENGTH('k) = LENGTH('n) + LENGTH('m) \<Longrightarrow> bs_inv a \<Longrightarrow> bs_inv b \<Longrightarrow>
     bs_word (bs_concat a b :: 'k::len bitset) = word_cat (bs_word a) (bs_word b)"
  for a :: "'n::len bitset" and b :: "'m::len bitset"
  by (rule bs_word_eqI) (auto simp: bit_bs_concat bit_simps bit_bs_word)

lemma bs_inv_concat [simp, bitset_wf]: "LENGTH('k) \<le> 64 \<Longrightarrow> bs_inv (bs_concat a b :: 'k::len bitset)"
  by (simp add: bs_concat_def)

lemma bs_word_zext [bitset_word]: "bs_inv a \<Longrightarrow> bs_word (bs_zext a) = ucast (bs_word a)"
  by (rule bs_word_eqI) (auto simp: bs_zext_def bit_bs_of bit_simps bit_bs_word bs_inv_iff)

lemma bit_bs_sext:
  "LENGTH('n) < LENGTH('m) \<Longrightarrow> LENGTH('m) \<le> 64 \<Longrightarrow> bs_inv a \<Longrightarrow>
     bit (bs_value (bs_sext a :: 'm::len bitset)) i \<longleftrightarrow>
       i < LENGTH('m) \<and> bit (bs_value a) (min i (LENGTH('n) - 1))"
  for a :: "'n::len bitset"
proof -
  assume a: "LENGTH('n) < LENGTH('m)" "LENGTH('m) \<le> 64" "bs_inv a"
  show ?thesis
  proof (cases "i < LENGTH('n)")
    case True
    then have "min i (LENGTH('n) - 1) = i" by auto
    with True a show ?thesis by (auto simp: bs_sext_def bit_bs_of bit_simps)
  next
    case False
    then have "min i (LENGTH('n) - 1) = LENGTH('n) - 1" by (auto simp: min_def)
    with False a show ?thesis
      by (auto simp: bs_sext_def bit_bs_of bit_simps bs_inv_high_bits)
  qed
qed

lemma bs_word_sext [bitset_word]:
  "LENGTH('n) < LENGTH('m) \<Longrightarrow> LENGTH('m) \<le> 64 \<Longrightarrow> bs_inv a \<Longrightarrow>
     bs_word (bs_sext a :: 'm::len bitset) = scast (bs_word a)"
  for a :: "'n::len bitset"
proof (rule bs_word_eqI)
  fix i
  assume a: "LENGTH('n) < LENGTH('m)" "LENGTH('m) \<le> 64" "bs_inv a" and i: "i < LENGTH('m)"
  have "i < LENGTH('n) \<Longrightarrow> min i (LENGTH('n) - 1) = i"
    and "\<not> i < LENGTH('n) \<Longrightarrow> min i (LENGTH('n) - 1) = LENGTH('n) - 1" by auto
  then show "bit (bs_value (bs_sext a :: 'm bitset)) i = bit (scast (bs_word a) :: 'm word) i"
    using a i by (cases "i < LENGTH('n)") (simp_all add: bit_bs_sext bit_signed_iff bit_bs_word)
qed

lemma bs_inv_sext [simp, bitset_wf]: "LENGTH('m) \<le> 64 \<Longrightarrow> bs_inv (bs_sext a :: 'm::len bitset)"
  by (simp add: bs_sext_def)

lemma bs_inv_consts [simp, bitset_wf]:
  "LENGTH('n) \<le> 64 \<Longrightarrow> bs_inv (bs_zeros :: 'n::len bitset)"
  "LENGTH('n) \<le> 64 \<Longrightarrow> bs_inv (bs_ones :: 'n::len bitset)"
  "LENGTH('n) \<le> 64 \<Longrightarrow> bs_inv (bs_default :: 'n::len bitset)"
  by (auto simp: bs_zeros_def bs_ones_def bs_default_def bs_inv_iff bit_bs_of)

lemma bs_u32_word: "bs_inv a \<Longrightarrow> bs_u32 a = ucast (bs_word a)"
  by (rule bit_word_eqI) (auto simp: bs_u32_def bit_simps bit_bs_word bs_inv_iff)

lemma bs_nat_word: "bs_inv a \<Longrightarrow> bs_nat a = unat (bs_word a)"
  by (subst bs_nat_def, subst bs_value_word) (simp_all add: bs_inv_def)

lemma bs_nat_less: "bs_inv a \<Longrightarrow> bs_nat a < 2 ^ LENGTH('n)" for a :: "'n::len bitset"
  by (simp add: bs_nat_word)

subsection \<open>Byte masks\<close>

lemma bs_sext_bit_byte:
  "bit (bs_value (bs_sext (bs_of v :: 1 bitset) :: 8 bitset)) i \<longleftrightarrow> i < 8 \<and> bit v 0"
  by (simp add: bit_bs_sext bit_bs_of)

lemma bit_expand_bits:
  "n \<le> 8 \<Longrightarrow> bit (expand_bits n v) i \<longleftrightarrow> i < 8 * n \<and> bit v (i div 8)"
proof (induction n arbitrary: v)
  case 0
  then show ?case by simp
next
  case (Suc n)
  have "i - 8 * n < 8 \<Longrightarrow> 8 * n \<le> i \<Longrightarrow> i div 8 = n"
    by (simp add: div_nat_eqI)
  moreover have "i div 8 < n \<longleftrightarrow> i < 8 * n" by auto
  ultimately show ?case
    using Suc
    by (auto simp: bit_simps bs_sext_bit_byte dest: bit_imp_le_length)
qed

lemma bit_bs_expand_byte_mask:
  "LENGTH('n) \<le> 8 \<Longrightarrow> LENGTH('m) = 8 * LENGTH('n) \<Longrightarrow>
     bit (bs_value (bs_expand_byte_mask a :: 'm::len bitset)) i \<longleftrightarrow>
       i < LENGTH('m) \<and> bit (bs_value a) (i div 8)"
  for a :: "'n::len bitset"
  by (auto simp: bs_expand_byte_mask_def bit_bs_of bit_expand_bits)

lemma bit_bs_choose_bits_u32:
  "bit (bs_choose_bits_u32 m x y) i \<longleftrightarrow>
     i < 32 \<and> (if bit (bs_value m) i then bit x i else bit y i)"
  by (auto simp: bs_choose_bits_u32_def Let_def bit_simps dest: bit_imp_le_length)

subsection \<open>Literals\<close>

text \<open>The set of a word.\<close>

lemma bs_eqI: "bs_inv a \<Longrightarrow> bs_inv b \<Longrightarrow> bs_word a = bs_word b \<Longrightarrow> a = b"
  by (metis bitset.expand bs_value_word)

definition bs_lit :: "'n::len word \<Rightarrow> 'n bitset" where
  "bs_lit v = bs_of (ucast v)"

lemma bit_bs_lit: "LENGTH('n) \<le> 64 \<Longrightarrow> bit (bs_value (bs_lit v :: 'n::len bitset)) i = bit v i"
  by (auto simp: bs_lit_def bit_bs_of bit_simps dest: bit_imp_le_length)

lemma bs_inv_lit [simp]: "LENGTH('n) \<le> 64 \<Longrightarrow> bs_inv (bs_lit v :: 'n::len bitset)"
  by (simp add: bs_lit_def)

lemma bs_word_lit [simp]: "LENGTH('n) \<le> 64 \<Longrightarrow> bs_word (bs_lit v :: 'n::len bitset) = v"
  by (rule bs_word_eqI) (simp add: bit_bs_lit)

lemma bs_litI: "bs_inv a \<Longrightarrow> bs_word a = w \<Longrightarrow> a = bs_lit w"
  by (rule bs_eqI) (auto simp: bs_inv_def[of a])

lemma bs_nat_lit [simp]: "LENGTH('n) \<le> 64 \<Longrightarrow> bs_nat (bs_lit v :: 'n::len bitset) = unat v"
  by (simp add: bs_nat_word)

lemma bs_eq_int_lit [simp]: "LENGTH('n) \<le> 64 \<Longrightarrow> bs_eq_int (bs_lit v :: 'n::len bitset) k \<longleftrightarrow> v = ucast k"
  by (simp add: bs_eq_int_word)

lemma bs_value_lit: "LENGTH('n) \<le> 64 \<Longrightarrow> bs_value (bs_lit v :: 'n::len bitset) = ucast v"
  by (simp add: bs_value_word)

lemma bs_slice_lit:
  "LENGTH('n) \<le> 64 \<Longrightarrow> LENGTH('m) = msb - lsb + 1 \<Longrightarrow> LENGTH('m) \<le> 64 \<Longrightarrow>
     (bs_slice msb lsb (bs_lit v :: 'n bitset) :: 'm::len bitset) = bs_lit (ucast (drop_bit lsb v))"
  for v :: "'n::len word"
  by (rule bitset.expand, rule bit_word_eqI)
    (auto simp: bit_bs_slice bit_bs_lit bit_simps)

lemma bs_u32_lit [simp]: "bs_u32 (bs_lit v :: 32 bitset) = v"
  by (simp add: bs_u32_word)

end
