(* ===== verification/RegisterFile.thy ===== *)
theory RegisterFile
  imports Bitset
begin

text \<open>
  \<open>lib/include/core/register-file.hpp\<close>: the 32 general-purpose registers. The array is a list
  of length 32. The interface a register bank offers its clients (the debugger's accessor, the
  CSR module) is the locale \<open>register_bank\<close>; the register file is its first instance.
\<close>

unbundle bit_operations_syntax

section \<open>The interface of a bank of registers\<close>

text \<open>
  Reads and writes of named words. \<open>writable\<close> says which names a write reaches at all (register
  \<open>x0\<close> is hardwired), \<open>valid\<close> which names exist, \<open>inv\<close> what every operation keeps.
\<close>

locale register_bank =
  fixes get :: "'i \<Rightarrow> 's \<Rightarrow> 'w"
    and put :: "'i \<Rightarrow> 'w \<Rightarrow> 's \<Rightarrow> 's"
    and valid :: "'i \<Rightarrow> bool"
    and writable :: "'i \<Rightarrow> bool"
    and inv :: "'s \<Rightarrow> bool"
  assumes get_put_same: "inv s \<Longrightarrow> valid i \<Longrightarrow> writable i \<Longrightarrow> get i (put i v s) = v"
    and get_put_other: "inv s \<Longrightarrow> valid i \<Longrightarrow> valid j \<Longrightarrow> i \<noteq> j \<Longrightarrow> get j (put i v s) = get j s"
    and put_unwritable: "inv s \<Longrightarrow> valid i \<Longrightarrow> \<not> writable i \<Longrightarrow> get i (put i v s) = get i s"
    and put_inv: "inv s \<Longrightarrow> valid i \<Longrightarrow> inv (put i v s)"
begin

text \<open>A sequence of writes, and the value the last one to a register leaves.\<close>

definition put_all :: "('i \<times> 'w) list \<Rightarrow> 's \<Rightarrow> 's" where
  "put_all ws s = fold (\<lambda>(i, v). put i v) ws s"

fun last_value :: "('i \<times> 'w) list \<Rightarrow> 'i \<Rightarrow> 'w option" where
  "last_value [] i = None"
| "last_value ((j, v) # ws) i =
     (case last_value ws i of Some w \<Rightarrow> Some w | None \<Rightarrow> if i = j then Some v else None)"

lemma get_put:
  "inv s \<Longrightarrow> valid i \<Longrightarrow> valid j \<Longrightarrow> get j (put i v s) = (if i = j \<and> writable j then v else get j s)"
  by (cases "i = j"; cases "writable j") (simp_all add: get_put_same get_put_other put_unwritable)

lemma put_all_inv: "inv s \<Longrightarrow> \<forall>(i, v) \<in> set ws. valid i \<Longrightarrow> inv (put_all ws s)"
  by (induction ws arbitrary: s) (auto simp: put_all_def put_inv)

lemma get_put_all:
  "inv s \<Longrightarrow> \<forall>(i, v) \<in> set ws. valid i \<Longrightarrow> valid j \<Longrightarrow>
     get j (put_all ws s) =
       (if writable j then (case last_value ws j of Some v \<Rightarrow> v | None \<Rightarrow> get j s) else get j s)"
proof (induction ws arbitrary: s)
  case Nil
  then show ?case by (simp add: put_all_def)
next
  case (Cons w ws)
  obtain i v where w: "w = (i, v)" by (cases w)
  have "put_all (w # ws) s = put_all ws (put i v s)" by (simp add: put_all_def w)
  moreover have "inv (put i v s)" using Cons.prems w by (simp add: put_inv)
  ultimately show ?case using Cons w by (auto simp: get_put split: option.splits)
qed

lemma put_commute:
  "inv s \<Longrightarrow> valid i \<Longrightarrow> valid j \<Longrightarrow> valid k \<Longrightarrow> i \<noteq> j \<Longrightarrow>
     get k (put i v (put j w s)) = get k (put j w (put i v s))"
  by (auto simp: get_put put_inv)

end

section \<open>The register file\<close>

record register_file =
  registers :: "u32 list"

definition register_file_init :: register_file where
  "register_file_init = \<lparr>registers = replicate 32 0\<rparr>"

definition get_register :: "5 bitset \<Rightarrow> register_file \<Rightarrow> u32" where
  "get_register index rf = registers rf ! bs_nat index"

definition set_register :: "5 bitset \<Rightarrow> u32 \<Rightarrow> register_file \<Rightarrow> register_file" where
  "set_register index v rf =
     (if \<not> bs_eq_int index 0 then rf\<lparr>registers := (registers rf)[bs_nat index := v]\<rparr> else rf)"

definition get_name :: "5 bitset \<Rightarrow> string" where
  "get_name index =
     [''zero'', ''ra'', ''sp'', ''gp'', ''tp'', ''t0'', ''t1'', ''t2'', ''s0'', ''s1'', ''a0'',
      ''a1'', ''a2'', ''a3'', ''a4'', ''a5'', ''a6'', ''a7'', ''s2'', ''s3'', ''s4'', ''s5'',
      ''s6'', ''s7'', ''s8'', ''s9'', ''s10'', ''s11'', ''t3'', ''t4'', ''t5'', ''t6'']
     ! bs_nat index"

text \<open>The invariant: 32 registers, and register 0 reads 0.\<close>

definition register_file_inv :: "register_file \<Rightarrow> bool" where
  "register_file_inv rf \<longleftrightarrow> length (registers rf) = 32 \<and> registers rf ! 0 = 0"

lemma bs_eq_int_zero: "bs_eq_int a 0 \<longleftrightarrow> bs_nat a = 0"
  by (simp add: bs_eq_int_def bs_nat_def unsigned_eq_0_iff)

lemma bs_nat_inj: "bs_nat a = bs_nat b \<longleftrightarrow> a = b"
  by (cases a; cases b) (simp add: bs_nat_def word_unat_eq_iff)

lemma bs_nat_5: "bs_inv a \<Longrightarrow> bs_nat (a :: 5 bitset) < 32"
  using bs_nat_less[of a] by simp

lemma register_file_init_inv: "register_file_inv register_file_init"
  by (simp add: register_file_inv_def register_file_init_def)

interpretation regs: register_bank get_register set_register bs_inv
    "\<lambda>i. \<not> bs_eq_int i 0" register_file_inv
  by unfold_locales
    (auto simp: get_register_def set_register_def register_file_inv_def bs_eq_int_zero bs_nat_5
      bs_nat_inj nth_list_update)

lemma get_register_zero: "register_file_inv rf \<Longrightarrow> bs_eq_int i 0 \<Longrightarrow> get_register i rf = 0"
  by (simp add: get_register_def register_file_inv_def bs_eq_int_zero)

end
