(* ===== verification/Csr.thy ===== *)
theory Csr
  imports RegisterFile
begin

text \<open>
  \<open>lib/include/core/csr.hpp\<close> and \<open>lib/core/csr.cpp\<close>: the control and status registers and the
  CSR access module. Registers made of bit fields are records of those fields, with the views
  as 32-bit words that the source takes by \<open>reinterpret_cast\<close>; the layout is the one the
  position comments of the source give, lowest bit first. A slot is one \<open>u32\<close> that a case label
  of \<open>CSR_module::operator()\<close> passes to \<open>write\<close>.
\<close>

unbundle bit_operations_syntax

section \<open>mstatus\<close>

datatype priviledge = User | Supervisor | Machine

fun priviledge_code :: "priviledge \<Rightarrow> 2 word" where
  "priviledge_code User = 0"
| "priviledge_code Supervisor = 1"
| "priviledge_code Machine = 3"

record mstatus =
  ms_padding0_0 :: bool
  ms_sie :: bool
  ms_padding2_2 :: bool
  ms_mie :: bool
  ms_padding4_4 :: bool
  ms_spie :: bool
  ms_ube :: bool
  ms_mpie :: bool
  ms_spp :: bool
  ms_vs :: "2 word"
  ms_mpp :: "2 word"
  ms_fs :: "2 word"
  ms_xs1 :: bool
  ms_xs2 :: bool
  ms_mprv :: bool
  ms_sum :: bool
  ms_mxr :: bool
  ms_tvm :: bool
  ms_tw :: bool
  ms_tsr :: bool
  ms_padding30_23 :: "8 word"
  ms_sd :: bool
  ms_paddingh3_0 :: "4 word"
  ms_sbe :: bool
  ms_mbe :: bool
  ms_paddingh31_6 :: "26 word"

definition mstatus_init :: mstatus where
  "mstatus_init =
     \<lparr>ms_padding0_0 = False, ms_sie = False, ms_padding2_2 = False, ms_mie = False,
      ms_padding4_4 = False, ms_spie = False, ms_ube = False, ms_mpie = False, ms_spp = False,
      ms_vs = 0, ms_mpp = priviledge_code Machine, ms_fs = 0, ms_xs1 = False, ms_xs2 = False,
      ms_mprv = False, ms_sum = False, ms_mxr = False, ms_tvm = False, ms_tw = False,
      ms_tsr = False, ms_padding30_23 = 0, ms_sd = False, ms_paddingh3_0 = 0, ms_sbe = False,
      ms_mbe = False, ms_paddingh31_6 = 0\<rparr>"

definition force_legal :: "mstatus \<Rightarrow> mstatus" where
  "force_legal m = m\<lparr>
     ms_sie := False, ms_spie := False, ms_ube := False, ms_spp := False, ms_vs := 0, ms_fs := 0,
     ms_xs1 := False, ms_xs2 := False, ms_mprv := False, ms_sum := False, ms_mxr := False,
     ms_tvm := False, ms_tw := False, ms_tsr := False, ms_sd := False, ms_sbe := False,
     ms_mbe := False,
     ms_padding0_0 := False, ms_padding2_2 := False, ms_padding4_4 := False,
     ms_padding30_23 := 0, ms_paddingh3_0 := 0, ms_paddingh31_6 := 0\<rparr>"

text \<open>The two halves, as bit lists from the lowest bit up.\<close>

definition mstatus_low_bits :: "mstatus \<Rightarrow> bool list" where
  "mstatus_low_bits m =
     [ms_padding0_0 m, ms_sie m, ms_padding2_2 m, ms_mie m, ms_padding4_4 m, ms_spie m,
       ms_ube m, ms_mpie m, ms_spp m]
      @ map (bit (ms_vs m)) [0..<2] @ map (bit (ms_mpp m)) [0..<2] @ map (bit (ms_fs m)) [0..<2]
      @ [ms_xs1 m, ms_xs2 m, ms_mprv m, ms_sum m, ms_mxr m, ms_tvm m, ms_tw m, ms_tsr m]
      @ map (bit (ms_padding30_23 m)) [0..<8] @ [ms_sd m]"

definition mstatus_high_bits :: "mstatus \<Rightarrow> bool list" where
  "mstatus_high_bits m =
     map (bit (ms_paddingh3_0 m)) [0..<4] @ [ms_sbe m, ms_mbe m]
     @ map (bit (ms_paddingh31_6 m)) [0..<26]"

definition mstatus_low :: "mstatus \<Rightarrow> u32" where
  "mstatus_low m = horner_sum of_bool 2 (mstatus_low_bits m)"

definition mstatus_high :: "mstatus \<Rightarrow> u32" where
  "mstatus_high m = horner_sum of_bool 2 (mstatus_high_bits m)"

definition mstatus_put_low :: "u32 \<Rightarrow> mstatus \<Rightarrow> mstatus" where
  "mstatus_put_low w m = m\<lparr>
     ms_padding0_0 := bit w 0, ms_sie := bit w 1, ms_padding2_2 := bit w 2, ms_mie := bit w 3,
     ms_padding4_4 := bit w 4, ms_spie := bit w 5, ms_ube := bit w 6, ms_mpie := bit w 7,
     ms_spp := bit w 8, ms_vs := ucast (drop_bit 9 w), ms_mpp := ucast (drop_bit 11 w),
     ms_fs := ucast (drop_bit 13 w), ms_xs1 := bit w 15, ms_xs2 := bit w 16,
     ms_mprv := bit w 17, ms_sum := bit w 18, ms_mxr := bit w 19, ms_tvm := bit w 20,
     ms_tw := bit w 21, ms_tsr := bit w 22, ms_padding30_23 := ucast (drop_bit 23 w),
     ms_sd := bit w 31\<rparr>"

definition mstatus_put_high :: "u32 \<Rightarrow> mstatus \<Rightarrow> mstatus" where
  "mstatus_put_high w m = m\<lparr>
     ms_paddingh3_0 := ucast w, ms_sbe := bit w 4, ms_mbe := bit w 5,
     ms_paddingh31_6 := ucast (drop_bit 6 w)\<rparr>"

lemma horner_bits_u32: "horner_sum of_bool 2 (map (bit (w :: u32)) [0..<32]) = w"
  by (simp only: horner_sum_bit_eq_take_bit) (simp add: take_bit_word_eq_self)

lemma mstatus_low_put_low [simp]: "mstatus_low (mstatus_put_low w m) = w"
proof -
  have "mstatus_low_bits (mstatus_put_low w m) = map (bit w) [0..<32]"
    by (simp add: mstatus_low_bits_def mstatus_put_low_def upt_rec bit_simps flip: numeral_2_eq_2)
  then show ?thesis by (simp only: mstatus_low_def horner_bits_u32)
qed

lemma mstatus_high_put_high [simp]: "mstatus_high (mstatus_put_high w m) = w"
proof -
  have "mstatus_high_bits (mstatus_put_high w m) = map (bit w) [0..<32]"
    by (simp add: mstatus_high_bits_def mstatus_put_high_def upt_rec bit_simps flip: numeral_2_eq_2)
  then show ?thesis by (simp only: mstatus_high_def horner_bits_u32)
qed

lemma mstatus_low_put_high [simp]: "mstatus_low (mstatus_put_high w m) = mstatus_low m"
  by (simp add: mstatus_low_def mstatus_low_bits_def mstatus_put_high_def)

lemma mstatus_high_put_low [simp]: "mstatus_high (mstatus_put_low w m) = mstatus_high m"
  by (simp add: mstatus_high_def mstatus_high_bits_def mstatus_put_low_def)

section \<open>mcause, mtvec, misa\<close>

record mcause =
  mc_exception_code :: "31 word"
  mc_interrupt :: bool

definition mcause_word :: "mcause \<Rightarrow> u32" where
  "mcause_word m = push_bit 31 (of_bool (mc_interrupt m)) OR ucast (mc_exception_code m)"

definition mcause_of :: "u32 \<Rightarrow> mcause" where
  "mcause_of w = \<lparr>mc_exception_code = ucast w, mc_interrupt = bit w 31\<rparr>"

record mtvec =
  mtvec_mode :: "2 word"
  mtvec_base_upper30 :: "30 word"

definition mtvec_word :: "mtvec \<Rightarrow> u32" where
  "mtvec_word m = push_bit 2 (ucast (mtvec_base_upper30 m)) OR ucast (mtvec_mode m)"

definition mtvec_of :: "u32 \<Rightarrow> mtvec" where
  "mtvec_of w = \<lparr>mtvec_mode = ucast w, mtvec_base_upper30 = ucast (drop_bit 2 w)\<rparr>"

text \<open>
  The extension letters are bits 0 to 25 and the base width is bits 31 to 30; the initialiser
  sets \<open>ext_i\<close>, \<open>ext_m\<close> and the base \<open>Rv32\<close>.
\<close>

definition misa_init :: u32 where
  "misa_init = push_bit 8 1 OR push_bit 12 1 OR push_bit 30 1"

lemma mcause_word_of [simp]: "mcause_word (mcause_of w) = w"
proof (rule bit_word_eqI)
  fix n assume "n < LENGTH(32)"
  then have "n < 31 \<or> n = 31" by auto
  then show "bit (mcause_word (mcause_of w)) n = bit w n"
    by (auto simp: mcause_word_def mcause_of_def bit_simps)
qed

lemma mtvec_word_of [simp]: "mtvec_word (mtvec_of w) = w"
proof (rule bit_word_eqI)
  fix n assume "n < LENGTH(32)"
  then have "n < 32" by simp
  then have "n < 2 \<or> (\<exists>k < 30. n = 2 + k)" by presburger
  then show "bit (mtvec_word (mtvec_of w)) n = bit w n"
    by (auto simp: mtvec_word_def mtvec_of_def bit_simps bit_word_leD)
qed

section \<open>The register set\<close>

record csr_module =
  csr_mvendorid :: u32
  csr_marchid :: u32
  csr_mimpid :: u32
  csr_mhartid :: u32
  csr_mconfigptr :: u32
  csr_misa :: u32
  csr_mscratch :: u32
  csr_mcycles :: u64
  csr_minstret :: u64
  csr_mstatus :: mstatus
  csr_mepc :: u32
  csr_mcause :: mcause
  csr_mtval :: u32
  csr_mip :: u32
  csr_mie :: u32
  csr_mtvec :: mtvec

definition csr_init :: csr_module where
  "csr_init =
     \<lparr>csr_mvendorid = 0, csr_marchid = 0, csr_mimpid = 0, csr_mhartid = 0, csr_mconfigptr = 0,
      csr_misa = misa_init, csr_mscratch = 0, csr_mcycles = 0, csr_minstret = 0,
      csr_mstatus = mstatus_init, csr_mepc = 0,
      csr_mcause = \<lparr>mc_exception_code = 0, mc_interrupt = False\<rparr>, csr_mtval = 0, csr_mip = 0,
      csr_mie = 0, csr_mtvec = \<lparr>mtvec_mode = 0, mtvec_base_upper30 = 0\<rparr>\<rparr>"

datatype csr_slot =
    Mscratch | Misa | Mvendorid | Marchid | Mimpid
  | Mhartid | Mconfigptr | Mcycles_low | Mcycles_high | Minstret_low
  | Minstret_high | Mepc | Mcause | Mtval | Mip
  | Mie | Mtvec | Mstatus_low | Mstatus_high

text \<open>The case labels: the address each class declares.\<close>

definition csr_slot_of :: "u16 \<Rightarrow> csr_slot option" where
  "csr_slot_of a =
     (if a = 0x340 then Some Mscratch
      else if a = 0x301 then Some Misa
      else if a = 0xF11 then Some Mvendorid
      else if a = 0xF12 then Some Marchid
      else if a = 0xF13 then Some Mimpid
      else if a = 0xF14 then Some Mhartid
      else if a = 0xF15 then Some Mconfigptr
      else if a = 0xB00 then Some Mcycles_low
      else if a = 0xB80 then Some Mcycles_high
      else if a = 0xB02 then Some Minstret_low
      else if a = 0xB82 then Some Minstret_high
      else if a = 0x341 then Some Mepc
      else if a = 0x342 then Some Mcause
      else if a = 0x343 then Some Mtval
      else if a = 0x344 then Some Mip
      else if a = 0x304 then Some Mie
      else if a = 0x305 then Some Mtvec
      else if a = 0x300 then Some Mstatus_low
      else if a = 0x310 then Some Mstatus_high
      else None)"

text \<open>The low and the high half of a 64-bit counter, as \<open>(u32*)&member\<close> and \<open>+ 1\<close>.\<close>

definition put_low_half :: "u32 \<Rightarrow> u64 \<Rightarrow> u64" where
  "put_low_half w v = push_bit 32 (drop_bit 32 v) OR ucast w"

definition put_high_half :: "u32 \<Rightarrow> u64 \<Rightarrow> u64" where
  "put_high_half w v = push_bit 32 (ucast w) OR take_bit 32 v"

fun csr_get :: "csr_slot \<Rightarrow> csr_module \<Rightarrow> u32" where
  "csr_get Mscratch c = csr_mscratch c"
| "csr_get Misa c = csr_misa c"
| "csr_get Mvendorid c = csr_mvendorid c"
| "csr_get Marchid c = csr_marchid c"
| "csr_get Mimpid c = csr_mimpid c"
| "csr_get Mhartid c = csr_mhartid c"
| "csr_get Mconfigptr c = csr_mconfigptr c"
| "csr_get Mcycles_low c = ucast (csr_mcycles c)"
| "csr_get Mcycles_high c = ucast (drop_bit 32 (csr_mcycles c))"
| "csr_get Minstret_low c = ucast (csr_minstret c)"
| "csr_get Minstret_high c = ucast (drop_bit 32 (csr_minstret c))"
| "csr_get Mepc c = csr_mepc c"
| "csr_get Mcause c = mcause_word (csr_mcause c)"
| "csr_get Mtval c = csr_mtval c"
| "csr_get Mip c = csr_mip c"
| "csr_get Mie c = csr_mie c"
| "csr_get Mtvec c = mtvec_word (csr_mtvec c)"
| "csr_get Mstatus_low c = mstatus_low (csr_mstatus c)"
| "csr_get Mstatus_high c = mstatus_high (csr_mstatus c)"

fun csr_put :: "csr_slot \<Rightarrow> u32 \<Rightarrow> csr_module \<Rightarrow> csr_module" where
  "csr_put Mscratch v c = c\<lparr>csr_mscratch := v\<rparr>"
| "csr_put Misa v c = c\<lparr>csr_misa := v\<rparr>"
| "csr_put Mvendorid v c = c\<lparr>csr_mvendorid := v\<rparr>"
| "csr_put Marchid v c = c\<lparr>csr_marchid := v\<rparr>"
| "csr_put Mimpid v c = c\<lparr>csr_mimpid := v\<rparr>"
| "csr_put Mhartid v c = c\<lparr>csr_mhartid := v\<rparr>"
| "csr_put Mconfigptr v c = c\<lparr>csr_mconfigptr := v\<rparr>"
| "csr_put Mcycles_low v c = c\<lparr>csr_mcycles := put_low_half v (csr_mcycles c)\<rparr>"
| "csr_put Mcycles_high v c = c\<lparr>csr_mcycles := put_high_half v (csr_mcycles c)\<rparr>"
| "csr_put Minstret_low v c = c\<lparr>csr_minstret := put_low_half v (csr_minstret c)\<rparr>"
| "csr_put Minstret_high v c = c\<lparr>csr_minstret := put_high_half v (csr_minstret c)\<rparr>"
| "csr_put Mepc v c = c\<lparr>csr_mepc := v\<rparr>"
| "csr_put Mcause v c = c\<lparr>csr_mcause := mcause_of v\<rparr>"
| "csr_put Mtval v c = c\<lparr>csr_mtval := v\<rparr>"
| "csr_put Mip v c = c\<lparr>csr_mip := v\<rparr>"
| "csr_put Mie v c = c\<lparr>csr_mie := v\<rparr>"
| "csr_put Mtvec v c = c\<lparr>csr_mtvec := mtvec_of v\<rparr>"
| "csr_put Mstatus_low v c = c\<lparr>csr_mstatus := mstatus_put_low v (csr_mstatus c)\<rparr>"
| "csr_put Mstatus_high v c = c\<lparr>csr_mstatus := mstatus_put_high v (csr_mstatus c)\<rparr>"

lemma half_simps [simp]:
  "ucast (put_low_half w v) = w"
  "ucast (drop_bit 32 (put_low_half w v)) = (ucast (drop_bit 32 v) :: u32)"
  "ucast (drop_bit 32 (put_high_half w v)) = w"
  "ucast (put_high_half w v) = (ucast v :: u32)"
  by (rule bit_word_eqI; auto simp: put_low_half_def put_high_half_def bit_simps bit_word_leD)+

interpretation csrs: register_bank csr_get csr_put "\<lambda>_. True" "\<lambda>_. True" "\<lambda>_. True"
proof
  show "csr_get i (csr_put i v s) = v" for i v s by (cases i) simp_all
  show "csr_get j (csr_put i v s) = csr_get j s" if "i \<noteq> j" for i j v s
    using that by (cases i; cases j) simp_all
qed simp_all

section \<open>Access\<close>

datatype csr_write_mode = Wm_None | Wm_Overwrite | Wm_Set | Wm_Clear

record csr_access_info =
  ai_write_mode :: csr_write_mode
  ai_address :: "12 bitset"
  ai_write_value :: u32
  ai_read :: bool

definition csr_access_info_default :: csr_access_info where
  "csr_access_info_default =
     \<lparr>ai_write_mode = Wm_None, ai_address = bs_of 0, ai_write_value = 0, ai_read = False\<rparr>"

datatype csr_error = Insufficient_priviledge | Write_readonly | Not_exists

text \<open>The pair \<open>{write_value, write_mask}\<close> of an access.\<close>

definition csr_write_pair :: "csr_access_info \<Rightarrow> u32 \<times> u32" where
  "csr_write_pair info =
     (case ai_write_mode info of
        Wm_None \<Rightarrow> (0, 0)
      | Wm_Overwrite \<Rightarrow> (ai_write_value info, 0xffffffff)
      | Wm_Clear \<Rightarrow> (0, ai_write_value info)
      | Wm_Set \<Rightarrow> (0xffffffff, ai_write_value info))"

text \<open>The lambda \<open>write\<close>: a masked store that returns the previous word.\<close>

definition csr_write :: "csr_slot \<Rightarrow> u32 \<Rightarrow> u32 \<Rightarrow> csr_module \<Rightarrow> u32 \<times> csr_module" where
  "csr_write s m value c =
     (let prev = csr_get s c in (prev, csr_put s ((prev AND NOT m) OR (value AND m)) c))"

definition csr_access :: "csr_access_info \<Rightarrow> csr_module \<Rightarrow> (csr_error + u32) \<times> csr_module" where
  "csr_access info c =
     (let (write_value, write_mask) = csr_write_pair info;
          writable = (\<not> bs_eq_int (bs_slice 11 10 (ai_address info) :: 2 bitset) 0b11)
      in if \<not> writable \<and> write_mask \<noteq> 0 then (Inl Write_readonly, c)
         else if \<not> ai_read info \<and> ai_write_mode info = Wm_None then (Inr 0, c)
         else
           case csr_slot_of (ucast (bs_value (ai_address info))) of
             None \<Rightarrow> (Inl Not_exists, c)
           | Some s \<Rightarrow>
               let (prev, c') = csr_write s write_mask write_value c in
               if s = Mstatus_low \<or> s = Mstatus_high then
                 let c'' = c'\<lparr>csr_mstatus := force_legal (csr_mstatus c')\<rparr>
                 in (Inr (csr_get s c''), c'')
               else (Inr prev, c'))"

definition csr_tick :: "csr_module \<Rightarrow> csr_module" where
  "csr_tick c = c\<lparr>csr_mcycles := csr_mcycles c + 1, csr_minstret := csr_minstret c + 1\<rparr>"

section \<open>What an access does\<close>

text \<open>The manual's read-modify-write of each instruction kind.\<close>

fun csr_rmw :: "csr_write_mode \<Rightarrow> u32 \<Rightarrow> u32 \<Rightarrow> u32" where
  "csr_rmw Wm_None v old = old"
| "csr_rmw Wm_Overwrite v old = v"
| "csr_rmw Wm_Set v old = old OR v"
| "csr_rmw Wm_Clear v old = old AND NOT v"

lemma csr_write_rmw:
  "csr_write_pair info = (value, m) \<Longrightarrow>
     (prev AND NOT m) OR (value AND m) = csr_rmw (ai_write_mode info) (ai_write_value info) prev"
proof -
  have ones: "(0xffffffff :: u32) = -1" by simp
  have set: "(prev AND NOT v) OR v = prev OR v" for v :: u32
    by (rule bit_word_eqI) (auto simp: bit_simps)
  assume "csr_write_pair info = (value, m)"
  then show ?thesis
    by (cases "ai_write_mode info") (auto simp: csr_write_pair_def ones set simp del: word_neg_numeral_alt)
qed

definition csr_addr_readonly :: "12 bitset \<Rightarrow> bool" where
  "csr_addr_readonly a \<longleftrightarrow> bit (bs_value a) 10 \<and> bit (bs_value a) 11"

lemma bs_slice_11_10: "bs_eq_int (bs_slice 11 10 a :: 2 bitset) 0b11 \<longleftrightarrow> csr_addr_readonly a"
proof -
  have "(0b11 :: u64) AND bs_mask LENGTH(2) = mask 2"
    by (simp add: bs_mask_eq mask_eq_exp_minus_1)
  then have "bs_eq_int (bs_slice 11 10 a :: 2 bitset) 0b11 \<longleftrightarrow>
      (\<forall>i < 64. i < 2 \<longrightarrow> bit (bs_value a) (10 + i))"
    by (auto simp: bs_eq_int_def bit_eq_iff bit_bs_slice bit_mask_iff)
  also have "\<dots> \<longleftrightarrow> csr_addr_readonly a"
    by (auto simp: csr_addr_readonly_def less_2_cases_iff dest: spec[of _ "0 :: nat"] spec[of _ "1 :: nat"])
  finally show ?thesis .
qed

lemma csr_slot_readonly:
  "csr_slot_of (ucast (bs_value a)) = Some s \<Longrightarrow>
     s \<in> {Mvendorid, Marchid, Mimpid, Mhartid, Mconfigptr} \<longleftrightarrow> csr_addr_readonly a"
proof -
  assume "csr_slot_of (ucast (bs_value a)) = Some s"
  moreover have "bit (bs_value a) n = bit (ucast (bs_value a) :: u16) n" if "n < 16" for n
    using that by (simp add: bit_simps)
  ultimately show ?thesis
    by (auto simp: csr_addr_readonly_def csr_slot_of_def split: if_splits)
qed

definition mstatus_legal :: "mstatus \<Rightarrow> bool" where
  "mstatus_legal m \<longleftrightarrow> force_legal m = m"

lemma force_legal_idem [simp]: "force_legal (force_legal m) = force_legal m"
  by (simp add: force_legal_def)

lemma mstatus_legal_force [simp]: "mstatus_legal (force_legal m)"
  by (simp add: mstatus_legal_def)

lemma horner_and:
  "length xs = length ys \<Longrightarrow>
     (horner_sum of_bool 2 xs :: 'a::len word) AND horner_sum of_bool 2 ys
     = horner_sum of_bool 2 (map2 (\<and>) xs ys)"
  by (rule bit_word_eqI) (auto simp: bit_simps bit_horner_sum_bit_word_iff)

lemma mstatus_low_force_legal: "mstatus_low (force_legal m) = mstatus_low m AND 0x1888"
proof -
  define mask where "mask =
      [False, False, False, True, False, False, False, True, False, False, False, True, True,
      False, False, False, False, False, False, False, False, False, False, False, False,
      False, False, False, False, False, False, False]"
  have "(0x1888 :: u32) = horner_sum of_bool 2 mask" by (simp add: mask_def)
  moreover have "mstatus_low_bits (force_legal m) = map2 (\<and>) (mstatus_low_bits m) mask"
    by (simp add: mstatus_low_bits_def force_legal_def mask_def upt_rec flip: numeral_2_eq_2)
  moreover have "length (mstatus_low_bits m) = length mask"
    by (simp add: mstatus_low_bits_def mask_def)
  ultimately show ?thesis by (simp only: mstatus_low_def horner_and)
qed

lemma mstatus_high_force_legal: "mstatus_high (force_legal m) = 0"
  by (simp add: mstatus_high_def mstatus_high_bits_def force_legal_def upt_rec flip: numeral_2_eq_2)

definition csr_reachable_slot :: "csr_access_info \<Rightarrow> csr_slot \<Rightarrow> bool" where
  "csr_reachable_slot info s \<longleftrightarrow>
     csr_slot_of (ucast (bs_value (ai_address info))) = Some s
     \<and> (ai_read info \<or> ai_write_mode info \<noteq> Wm_None)
     \<and> \<not> (csr_addr_readonly (ai_address info) \<and> snd (csr_write_pair info) \<noteq> 0)"

lemma csr_access_plain:
  "csr_reachable_slot info s \<Longrightarrow> s \<noteq> Mstatus_low \<Longrightarrow> s \<noteq> Mstatus_high \<Longrightarrow>
     csr_access info c =
       (Inr (csr_get s c),
        csr_put s (csr_rmw (ai_write_mode info) (ai_write_value info) (csr_get s c)) c)"
  by (cases "csr_write_pair info")
    (auto simp: csr_reachable_slot_def csr_access_def bs_slice_11_10 csr_write_def Let_def
      csr_write_rmw)

lemma csr_access_mstatus:
  fixes c :: csr_module
  assumes "csr_reachable_slot info s" and "s = Mstatus_low \<or> s = Mstatus_high"
  defines "c' \<equiv> csr_put s (csr_rmw (ai_write_mode info) (ai_write_value info) (csr_get s c)) c"
  defines "c'' \<equiv> c'\<lparr>csr_mstatus := force_legal (csr_mstatus c')\<rparr>"
  shows "csr_access info c = (Inr (csr_get s c''), c'')"
  using assms(1,2) unfolding c''_def c'_def
  by (cases "csr_write_pair info")
    (auto simp del: csr_get.simps csr_put.simps
      simp: csr_reachable_slot_def csr_access_def bs_slice_11_10 csr_write_def Let_def csr_write_rmw)

lemma csr_access_mstatus_low:
  "csr_reachable_slot info Mstatus_low \<Longrightarrow>
     fst (csr_access info c) =
       Inr (csr_rmw (ai_write_mode info) (ai_write_value info) (csr_get Mstatus_low c) AND 0x1888)"
  by (simp add: csr_access_mstatus mstatus_low_force_legal)

text \<open>A failed access changes nothing.\<close>

lemma csr_access_error: "csr_access info c = (Inl e, c') \<Longrightarrow> c' = c"
  by (auto simp: csr_access_def csr_write_def Let_def split: prod.splits if_splits option.splits)

text \<open>
  The invariant: the unimplemented fields of \<open>mstatus\<close> are 0, and the read-only registers keep
  their reset value.
\<close>

definition csr_inv :: "csr_module \<Rightarrow> bool" where
  "csr_inv c \<longleftrightarrow>
     mstatus_legal (csr_mstatus c)
     \<and> csr_mvendorid c = 0 \<and> csr_marchid c = 0 \<and> csr_mimpid c = 0 \<and> csr_mhartid c = 0
     \<and> csr_mconfigptr c = 0"

lemma csr_init_inv: "csr_inv csr_init"
  by (simp add: csr_inv_def csr_init_def mstatus_legal_def force_legal_def mstatus_init_def)

lemma csr_tick_inv: "csr_inv (csr_tick c) = csr_inv c"
  by (simp add: csr_inv_def csr_tick_def)

lemma csr_put_inv:
  "s \<notin> {Mvendorid, Marchid, Mimpid, Mhartid, Mconfigptr, Mstatus_low, Mstatus_high} \<Longrightarrow>
     csr_inv (csr_put s v c) = csr_inv c"
  by (cases s) (simp_all add: csr_inv_def)

lemma csr_put_get: "s \<noteq> Mstatus_low \<Longrightarrow> s \<noteq> Mstatus_high \<Longrightarrow>
    csr_addr_readonly a \<Longrightarrow> csr_slot_of (ucast (bs_value a)) = Some s \<Longrightarrow> csr_put s (csr_get s c) c = c"
  by (drule csr_slot_readonly[THEN iffD2]) auto

lemma csr_access_inv: "csr_inv c \<Longrightarrow> csr_inv (snd (csr_access info c))"
proof -
  assume inv: "csr_inv c"
  obtain v m where p: "csr_write_pair info = (v, m)" by fastforce
  show ?thesis
  proof (cases "\<exists>s. csr_reachable_slot info s")
    case False
    with inv p show ?thesis
      by (auto simp: csr_access_def bs_slice_11_10 csr_reachable_slot_def split: option.splits)
  next
    case True
    then obtain s where s: "csr_reachable_slot info s" ..
    show ?thesis
    proof (cases "s = Mstatus_low \<or> s = Mstatus_high")
      case True
      from csr_access_mstatus[OF s this, of c] this inv show ?thesis
        by (elim disjE) (simp_all add: csr_inv_def)
    next
      case plain: False
      then have acc: "csr_access info c = (Inr (csr_get s c),
          csr_put s (csr_rmw (ai_write_mode info) (ai_write_value info) (csr_get s c)) c)"
        using csr_access_plain s by blast
      show ?thesis
      proof (cases "csr_addr_readonly (ai_address info)")
        case True
        with s p have "m = 0" by (simp add: csr_reachable_slot_def)
        then have "csr_rmw (ai_write_mode info) (ai_write_value info) (csr_get s c) = csr_get s c"
          using csr_write_rmw[OF p, of "csr_get s c"] by simp
        with True plain s inv acc csr_put_get show ?thesis
          by (simp add: csr_reachable_slot_def)
      next
        case False
        with s csr_slot_readonly[of "ai_address info" s]
        have "s \<notin> {Mvendorid, Marchid, Mimpid, Mhartid, Mconfigptr}"
          by (simp add: csr_reachable_slot_def)
        with plain acc inv show ?thesis by (simp add: csr_put_inv)
      qed
    qed
  qed
qed

section \<open>Reading back\<close>

lemma mstatus_bits_length: "length (mstatus_low_bits m) = 32" "length (mstatus_high_bits m) = 32"
  by (simp_all add: mstatus_low_bits_def mstatus_high_bits_def)

lemma bit_mstatus_low: "n < 32 \<Longrightarrow> bit (mstatus_low m) n = mstatus_low_bits m ! n"
  by (simp add: mstatus_low_def bit_horner_sum_bit_word_iff mstatus_bits_length)

lemma bit_mstatus_high: "n < 32 \<Longrightarrow> bit (mstatus_high m) n = mstatus_high_bits m ! n"
  by (simp add: mstatus_high_def bit_horner_sum_bit_word_iff mstatus_bits_length)

text \<open>A field of several bits, read out of its half.\<close>

lemma bit_field:
  assumes "\<And>i. i < LENGTH('n) \<Longrightarrow> bit v (k + i) = bit w i" "k + LENGTH('n) \<le> 32"
  shows "ucast (drop_bit k (v :: u32)) = (w :: 'n::len word)"
  using assms by (intro bit_word_eqI) (simp add: bit_simps)

lemma mstatus_fields:
  "ucast (drop_bit 9 (mstatus_low m)) = ms_vs m" "ucast (drop_bit 11 (mstatus_low m)) = ms_mpp m"
  "ucast (drop_bit 13 (mstatus_low m)) = ms_fs m"
  "ucast (drop_bit 23 (mstatus_low m)) = ms_padding30_23 m"
  "ucast (mstatus_high m) = ms_paddingh3_0 m"
  "ucast (drop_bit 6 (mstatus_high m)) = ms_paddingh31_6 m"
proof -
  show "ucast (mstatus_high m) = ms_paddingh3_0 m"
    using bit_field[of "mstatus_high m" 0 "ms_paddingh3_0 m"]
    by (simp add: bit_mstatus_high mstatus_high_bits_def nth_append)
qed (rule bit_field; simp add: bit_mstatus_low bit_mstatus_high mstatus_low_bits_def mstatus_high_bits_def nth_append)+

lemma mstatus_put_low_get [simp]: "mstatus_put_low (mstatus_low m) m = m"
proof -
  have b: "mstatus_low_bits m ! 15 = ms_xs1 m" "mstatus_low_bits m ! 16 = ms_xs2 m"
    "mstatus_low_bits m ! 17 = ms_mprv m" "mstatus_low_bits m ! 18 = ms_sum m"
    "mstatus_low_bits m ! 19 = ms_mxr m" "mstatus_low_bits m ! 20 = ms_tvm m"
    "mstatus_low_bits m ! 21 = ms_tw m" "mstatus_low_bits m ! 22 = ms_tsr m"
    "mstatus_low_bits m ! 31 = ms_sd m"
    "mstatus_low_bits m ! 0 = ms_padding0_0 m" "mstatus_low_bits m ! Suc 0 = ms_sie m"
    "mstatus_low_bits m ! 2 = ms_padding2_2 m" "mstatus_low_bits m ! 3 = ms_mie m"
    "mstatus_low_bits m ! 4 = ms_padding4_4 m" "mstatus_low_bits m ! 5 = ms_spie m"
    "mstatus_low_bits m ! 6 = ms_ube m" "mstatus_low_bits m ! 7 = ms_mpie m"
    "mstatus_low_bits m ! 8 = ms_spp m"
    by (simp_all add: mstatus_low_bits_def nth_append)
  show ?thesis by (simp add: mstatus_put_low_def bit_mstatus_low b mstatus_fields)
qed

lemma mstatus_put_high_get [simp]: "mstatus_put_high (mstatus_high m) m = m"
proof -
  have b: "mstatus_high_bits m ! 4 = ms_sbe m" "mstatus_high_bits m ! 5 = ms_mbe m"
    by (simp_all add: mstatus_high_bits_def nth_append)
  show ?thesis by (simp add: mstatus_put_high_def bit_mstatus_high b mstatus_fields)
qed

lemma reg_of_word [simp]: "mcause_of (mcause_word r) = r" "mtvec_of (mtvec_word v) = v"
proof -
  have "mc_exception_code (mcause_of (mcause_word r)) = mc_exception_code r"
    by (rule bit_word_eqI) (auto simp: mcause_of_def mcause_word_def bit_simps)
  then show "mcause_of (mcause_word r) = r"
    by (intro mcause.equality) (auto simp: mcause_of_def mcause_word_def bit_simps bit_word_leD)
  have "mtvec_mode (mtvec_of (mtvec_word v)) = mtvec_mode v"
    "mtvec_base_upper30 (mtvec_of (mtvec_word v)) = mtvec_base_upper30 v"
    by (rule bit_word_eqI; auto simp: mtvec_of_def mtvec_word_def bit_simps bit_word_leD)+
  then show "mtvec_of (mtvec_word v) = v" by (intro mtvec.equality) simp_all
qed

lemma put_half_get [simp]: "put_low_half (ucast v) v = v" "put_high_half (ucast (drop_bit 32 v)) v = v"
  by (rule bit_word_eqI; auto simp: put_low_half_def put_high_half_def bit_simps)+

text \<open>Writing back what was read changes nothing.\<close>

lemma csr_put_get_same [simp]: "csr_put sl (csr_get sl c) c = c"
  by (cases sl) simp_all

lemma csr_put_mstatus:
  "sl \<noteq> Mstatus_low \<Longrightarrow> sl \<noteq> Mstatus_high \<Longrightarrow> csr_mstatus (csr_put sl v c) = csr_mstatus c"
  by (cases sl) simp_all

end
