(* ===== verification/Inst.thy ===== *)
theory Inst
  imports Bitset
begin

text \<open>
  \<open>lib/include/core/inst.hpp\<close>: the six instruction formats, each a record of fields cut out of
  the 32-bit word with the operations of \<open>Bitset\<close>. The second half states the formats the way
  the RISC-V manual does, as encoders from fields to words, and shows that the record recovers
  the fields.
\<close>

unbundle bit_operations_syntax

section \<open>Formats\<close>

record rtype =
  rt_funct7 :: "7 bitset"
  rt_rs2 :: "5 bitset"
  rt_rs1 :: "5 bitset"
  rt_funct3 :: "3 bitset"
  rt_rd :: "5 bitset"

definition Rtype :: "32 bitset \<Rightarrow> rtype" where
  "Rtype instr =
     \<lparr>rt_funct7 = bs_slice 31 25 instr,
      rt_rs2 = bs_slice 24 20 instr,
      rt_rs1 = bs_slice 19 15 instr,
      rt_funct3 = bs_slice 14 12 instr,
      rt_rd = bs_slice 11 7 instr\<rparr>"

record itype =
  it_imm :: "32 bitset"
  it_rs1 :: "5 bitset"
  it_funct3 :: "3 bitset"
  it_rd :: "5 bitset"

definition Itype :: "32 bitset \<Rightarrow> itype" where
  "Itype instr =
     \<lparr>it_imm = bs_sext (bs_slice 31 20 instr :: 12 bitset),
      it_rs1 = bs_slice 19 15 instr,
      it_funct3 = bs_slice 14 12 instr,
      it_rd = bs_slice 11 7 instr\<rparr>"

record stype =
  st_imm :: "32 bitset"
  st_rs1 :: "5 bitset"
  st_rs2 :: "5 bitset"
  st_funct3 :: "3 bitset"

definition Stype :: "32 bitset \<Rightarrow> stype" where
  "Stype instr =
     \<lparr>st_imm = bs_sext (bs_concat (bs_slice 31 25 instr :: 7 bitset)
                                 (bs_slice 11 7 instr :: 5 bitset) :: 12 bitset),
      st_rs1 = bs_slice 19 15 instr,
      st_rs2 = bs_slice 24 20 instr,
      st_funct3 = bs_slice 14 12 instr\<rparr>"

record btype =
  bt_imm :: "32 bitset"
  bt_rs1 :: "5 bitset"
  bt_rs2 :: "5 bitset"
  bt_funct3 :: "3 bitset"

definition Btype :: "32 bitset \<Rightarrow> btype" where
  "Btype instr =
     \<lparr>bt_imm =
        bs_sext (bs_concat (bs_concat (bs_concat (bs_concat
          (bs_take_bit 31 instr)
          (bs_take_bit 7 instr) :: 2 bitset)
          (bs_slice 30 25 instr :: 6 bitset) :: 8 bitset)
          (bs_slice 11 8 instr :: 4 bitset) :: 12 bitset)
          (bs_zeros :: 1 bitset) :: 13 bitset),
      bt_rs1 = bs_slice 19 15 instr,
      bt_rs2 = bs_slice 24 20 instr,
      bt_funct3 = bs_slice 14 12 instr\<rparr>"

record utype =
  ut_imm :: "32 bitset"
  ut_rd :: "5 bitset"

definition Utype :: "32 bitset \<Rightarrow> utype" where
  "Utype instr =
     \<lparr>ut_imm = bs_concat (bs_slice 31 12 instr :: 20 bitset) (bs_zeros :: 12 bitset),
      ut_rd = bs_slice 11 7 instr\<rparr>"

record jtype =
  jt_imm :: "32 bitset"
  jt_rd :: "5 bitset"

definition Jtype :: "32 bitset \<Rightarrow> jtype" where
  "Jtype instr =
     \<lparr>jt_imm =
        bs_sext (bs_concat (bs_concat (bs_concat (bs_concat
          (bs_take_bit 31 instr)
          (bs_slice 19 12 instr :: 8 bitset) :: 9 bitset)
          (bs_take_bit 20 instr) :: 10 bitset)
          (bs_slice 30 21 instr :: 10 bitset) :: 20 bitset)
          (bs_zeros :: 1 bitset) :: 21 bitset),
      jt_rd = bs_slice 11 7 instr\<rparr>"

section \<open>The manual's encoders\<close>

definition enc_r :: "7 word \<Rightarrow> 5 word \<Rightarrow> 5 word \<Rightarrow> 3 word \<Rightarrow> 5 word \<Rightarrow> 7 word \<Rightarrow> u32" where
  "enc_r funct7 rs2 rs1 funct3 rd opc =
     push_bit 25 (ucast funct7) OR push_bit 20 (ucast rs2) OR push_bit 15 (ucast rs1)
     OR push_bit 12 (ucast funct3) OR push_bit 7 (ucast rd) OR ucast opc"

definition enc_i :: "12 word \<Rightarrow> 5 word \<Rightarrow> 3 word \<Rightarrow> 5 word \<Rightarrow> 7 word \<Rightarrow> u32" where
  "enc_i imm rs1 funct3 rd opc =
     push_bit 20 (ucast imm) OR push_bit 15 (ucast rs1)
     OR push_bit 12 (ucast funct3) OR push_bit 7 (ucast rd) OR ucast opc"

definition enc_s :: "12 word \<Rightarrow> 5 word \<Rightarrow> 5 word \<Rightarrow> 3 word \<Rightarrow> 7 word \<Rightarrow> u32" where
  "enc_s imm rs2 rs1 funct3 opc =
     push_bit 25 (ucast (drop_bit 5 imm)) OR push_bit 20 (ucast rs2) OR push_bit 15 (ucast rs1)
     OR push_bit 12 (ucast funct3) OR push_bit 7 (take_bit 5 (ucast imm)) OR ucast opc"

text \<open>\<open>imm\<close> is the 13-bit branch offset; its bit 0 is not stored.\<close>

definition enc_b :: "13 word \<Rightarrow> 5 word \<Rightarrow> 5 word \<Rightarrow> 3 word \<Rightarrow> 7 word \<Rightarrow> u32" where
  "enc_b imm rs2 rs1 funct3 opc =
     push_bit 31 (ucast (drop_bit 12 imm)) OR push_bit 25 (take_bit 6 (ucast (drop_bit 5 imm)))
     OR push_bit 20 (ucast rs2) OR push_bit 15 (ucast rs1) OR push_bit 12 (ucast funct3)
     OR push_bit 8 (take_bit 4 (ucast (drop_bit 1 imm)))
     OR push_bit 7 (take_bit 1 (ucast (drop_bit 11 imm))) OR ucast opc"

definition enc_u :: "20 word \<Rightarrow> 5 word \<Rightarrow> 7 word \<Rightarrow> u32" where
  "enc_u imm rd opc = push_bit 12 (ucast imm) OR push_bit 7 (ucast rd) OR ucast opc"

text \<open>\<open>imm\<close> is the 21-bit jump offset; its bit 0 is not stored.\<close>

definition enc_j :: "21 word \<Rightarrow> 5 word \<Rightarrow> 7 word \<Rightarrow> u32" where
  "enc_j imm rd opc =
     push_bit 31 (ucast (drop_bit 20 imm)) OR push_bit 21 (take_bit 10 (ucast (drop_bit 1 imm)))
     OR push_bit 20 (take_bit 1 (ucast (drop_bit 11 imm)))
     OR push_bit 12 (take_bit 8 (ucast (drop_bit 12 imm)))
     OR push_bit 7 (ucast rd) OR ucast opc"

text \<open>The instruction word as the decoder receives it.\<close>

definition instr_bits :: "u32 \<Rightarrow> 32 bitset" where
  "instr_bits instr = bs_of (ucast instr)"

lemma bit_instr_bits: "bit (bs_value (instr_bits w)) i \<longleftrightarrow> i < 32 \<and> bit w i"
  by (auto simp: instr_bits_def bit_bs_of bit_simps)

lemma bs_inv_instr_bits [simp]: "bs_inv (instr_bits w)"
  by (simp add: instr_bits_def)

section \<open>Field recovery\<close>

lemmas enc_defs = enc_r_def enc_i_def enc_s_def enc_b_def enc_u_def enc_j_def
lemmas format_defs = Rtype_def Itype_def Stype_def Btype_def Utype_def Jtype_def

lemma format_inv [simp]:
  "bs_inv (rt_funct7 (Rtype b))" "bs_inv (rt_rs2 (Rtype b))" "bs_inv (rt_rs1 (Rtype b))"
  "bs_inv (rt_funct3 (Rtype b))" "bs_inv (rt_rd (Rtype b))"
  "bs_inv (it_imm (Itype b))" "bs_inv (it_rs1 (Itype b))" "bs_inv (it_funct3 (Itype b))"
  "bs_inv (it_rd (Itype b))"
  "bs_inv (st_imm (Stype b))" "bs_inv (st_rs1 (Stype b))" "bs_inv (st_rs2 (Stype b))"
  "bs_inv (st_funct3 (Stype b))"
  "bs_inv (bt_imm (Btype b))" "bs_inv (bt_rs1 (Btype b))" "bs_inv (bt_rs2 (Btype b))"
  "bs_inv (bt_funct3 (Btype b))"
  "bs_inv (ut_imm (Utype b))" "bs_inv (ut_rd (Utype b))"
  "bs_inv (jt_imm (Jtype b))" "bs_inv (jt_rd (Jtype b))"
  by (simp_all add: format_defs)

lemmas field_simps = format_defs bit_bs_slice bit_bs_concat bit_bs_sext bit_bs_take_bit bit_instr_bits
  enc_defs bit_simps bit_word_leD bs_zeros_def bit_bs_of

lemma rtype_enc_r:
  "bs_word (rt_funct7 (Rtype (instr_bits (enc_r f7 rs2 rs1 f3 rd opc)))) = f7"
  "bs_word (rt_rs2 (Rtype (instr_bits (enc_r f7 rs2 rs1 f3 rd opc)))) = rs2"
  "bs_word (rt_rs1 (Rtype (instr_bits (enc_r f7 rs2 rs1 f3 rd opc)))) = rs1"
  "bs_word (rt_funct3 (Rtype (instr_bits (enc_r f7 rs2 rs1 f3 rd opc)))) = f3"
  "bs_word (rt_rd (Rtype (instr_bits (enc_r f7 rs2 rs1 f3 rd opc)))) = rd"
  by (rule bs_word_eqI; simp add: field_simps)+

lemma itype_enc_i:
  "bs_word (it_rs1 (Itype (instr_bits (enc_i imm rs1 f3 rd opc)))) = rs1"
  "bs_word (it_funct3 (Itype (instr_bits (enc_i imm rs1 f3 rd opc)))) = f3"
  "bs_word (it_rd (Itype (instr_bits (enc_i imm rs1 f3 rd opc)))) = rd"
  "bs_word (it_imm (Itype (instr_bits (enc_i imm rs1 f3 rd opc)))) = scast imm"
  by (rule bs_word_eqI; simp add: field_simps bit_signed_iff min_def)+

lemma stype_enc_s:
  "bs_word (st_rs1 (Stype (instr_bits (enc_s imm rs2 rs1 f3 opc)))) = rs1"
  "bs_word (st_rs2 (Stype (instr_bits (enc_s imm rs2 rs1 f3 opc)))) = rs2"
  "bs_word (st_funct3 (Stype (instr_bits (enc_s imm rs2 rs1 f3 opc)))) = f3"
  "bs_word (st_imm (Stype (instr_bits (enc_s imm rs2 rs1 f3 opc)))) = scast imm"
  by (rule bs_word_eqI; auto simp add: field_simps bit_signed_iff min_def)+

lemma utype_enc_u:
  "bs_word (ut_rd (Utype (instr_bits (enc_u imm rd opc)))) = rd"
  "bs_word (ut_imm (Utype (instr_bits (enc_u imm rd opc)))) = push_bit 12 (ucast imm)"
  by (rule bs_word_eqI; auto simp add: field_simps)+

lemma btype_enc_b:
  "bs_word (bt_rs1 (Btype (instr_bits (enc_b imm rs2 rs1 f3 opc)))) = rs1"
  "bs_word (bt_rs2 (Btype (instr_bits (enc_b imm rs2 rs1 f3 opc)))) = rs2"
  "bs_word (bt_funct3 (Btype (instr_bits (enc_b imm rs2 rs1 f3 opc)))) = f3"
  by (rule bs_word_eqI; simp add: field_simps)+

lemma jtype_enc_j_rd:
  "bs_word (jt_rd (Jtype (instr_bits (enc_j imm rd opc)))) = rd"
  by (rule bs_word_eqI; simp add: field_simps)

text \<open>The offset bits, position by position: where each bit of the immediate comes from.\<close>

lemma below_12_cases: "i \<in> {0, 1, 2, 3, 4, 5, 6, 7, 8, 9, 10, 11} \<or> 12 \<le> (i :: nat)"
  by (simp, presburger)

lemma below_20_cases:
  "i \<in> {0, 1, 2, 3, 4, 5, 6, 7, 8, 9, 10, 11, 12, 13, 14, 15, 16, 17, 18, 19} \<or> 20 \<le> (i :: nat)"
  by (simp, presburger)

lemmas imm_simps = bit_bs_sext bit_bs_concat bit_bs_slice bit_bs_take_bit bs_zeros_def bit_bs_of Let_def
  bit_signed_iff bit_simps bit_word_leD bit_instr_bits

lemma bit_btype_imm:
  "bit (bs_value (bt_imm (Btype b))) i \<longleftrightarrow>
     i < 32 \<and>
     (let k = min i 12 in
        if k = 0 then False
        else if k < 5 then bit (bs_value b) (k + 7)
        else if k < 11 then bit (bs_value b) (k + 20)
        else if k = 11 then bit (bs_value b) 7
        else bit (bs_value b) 31)"
  using below_12_cases[of i] by (elim disjE insertE emptyE) (simp_all add: Btype_def imm_simps)

lemma bit_jtype_imm:
  "bit (bs_value (jt_imm (Jtype b))) i \<longleftrightarrow>
     i < 32 \<and>
     (let k = min i 20 in
        if k = 0 then False
        else if k < 11 then bit (bs_value b) (k + 20)
        else if k = 11 then bit (bs_value b) 20
        else if k < 20 then bit (bs_value b) k
        else bit (bs_value b) 31)"
  using below_20_cases[of i] by (elim disjE insertE emptyE) (simp_all add: Jtype_def imm_simps)

text \<open>So an encoded offset is recovered, sign extended, with its bit 0 cleared.\<close>

lemma btype_enc_b_imm:
  "bs_word (bt_imm (Btype (instr_bits (enc_b imm rs2 rs1 f3 opc)))) = scast (imm AND NOT 1)"
proof (rule bs_word_eqI)
  fix i :: nat
  assume "i < LENGTH(32)"
  then show "bit (bs_value (bt_imm (Btype (instr_bits (enc_b imm rs2 rs1 f3 opc))))) i =
      bit (scast (imm AND NOT 1) :: u32) i"
    using below_12_cases[of i]
    by (elim disjE insertE emptyE) (simp_all add: bit_btype_imm enc_b_def imm_simps flip: bit_0 numeral_2_eq_2)
qed

lemma jtype_enc_j_imm:
  "bs_word (jt_imm (Jtype (instr_bits (enc_j imm rd opc)))) = scast (imm AND NOT 1)"
proof (rule bs_word_eqI)
  fix i :: nat
  assume "i < LENGTH(32)"
  then show "bit (bs_value (jt_imm (Jtype (instr_bits (enc_j imm rd opc))))) i =
      bit (scast (imm AND NOT 1) :: u32) i"
    using below_20_cases[of i]
    by (elim disjE insertE emptyE) (simp_all add: bit_jtype_imm enc_j_def imm_simps flip: bit_0 numeral_2_eq_2)
qed

end
