(* ===== verification/Trap.thy ===== *)
theory Trap
  imports Prelude
begin

text \<open>\<open>lib/include/core/trap.hpp\<close>: the trap causes and their codes.\<close>

datatype trap =
    Inst_address_misaligned
  | Inst_access_fault
  | Illegal_instruction
  | Breakpoint
  | Load_address_misaligned
  | Load_access_fault
  | Store_address_misaligned
  | Store_access_fault
  | Env_call_from_U_mode
  | Env_call_from_S_mode
  | Env_call_from_M_mode
  | Inst_page_fault
  | Load_page_fault
  | Store_page_fault
  | Supervisor_software_interrupt
  | Machine_software_interrupt
  | Supervisor_timer_interrupt
  | Machine_timer_interrupt
  | Supervisor_external_interrupt
  | Machine_external_interrupt
  | Counter_overflow_interrupt

fun trap_code :: "trap \<Rightarrow> u32" where
  "trap_code Inst_address_misaligned = 0x0000"
| "trap_code Inst_access_fault = 0x0001"
| "trap_code Illegal_instruction = 0x0002"
| "trap_code Breakpoint = 0x0003"
| "trap_code Load_address_misaligned = 0x0004"
| "trap_code Load_access_fault = 0x0005"
| "trap_code Store_address_misaligned = 0x0006"
| "trap_code Store_access_fault = 0x0007"
| "trap_code Env_call_from_U_mode = 0x0008"
| "trap_code Env_call_from_S_mode = 0x0009"
| "trap_code Env_call_from_M_mode = 0x000B"
| "trap_code Inst_page_fault = 0x000C"
| "trap_code Load_page_fault = 0x000D"
| "trap_code Store_page_fault = 0x000F"
| "trap_code Supervisor_software_interrupt = 0x80000001"
| "trap_code Machine_software_interrupt = 0x80000003"
| "trap_code Supervisor_timer_interrupt = 0x80000005"
| "trap_code Machine_timer_interrupt = 0x80000007"
| "trap_code Supervisor_external_interrupt = 0x80000009"
| "trap_code Machine_external_interrupt = 0x8000000B"
| "trap_code Counter_overflow_interrupt = 0x8000000C"

definition is_interrupt :: "trap \<Rightarrow> bool" where
  "is_interrupt t \<longleftrightarrow> trap_code t \<ge> 0x80000000"

lemma is_interrupt_simps [simp]:
  "\<not> is_interrupt Inst_address_misaligned" "\<not> is_interrupt Inst_access_fault"
  "\<not> is_interrupt Illegal_instruction" "\<not> is_interrupt Load_address_misaligned"
  "\<not> is_interrupt Load_access_fault" "\<not> is_interrupt Store_address_misaligned"
  "\<not> is_interrupt Store_access_fault" "\<not> is_interrupt Env_call_from_M_mode"
  "is_interrupt Machine_timer_interrupt"
  by (simp_all add: is_interrupt_def word_le_nat_alt)

lemma trap_code_inj: "trap_code a = trap_code b \<Longrightarrow> a = b"
  by (cases a; cases b; simp)

end
