(* ===== verification/Memory.thy ===== *)
theory Memory
  imports Bitset Trap
begin

text \<open>
  \<open>lib/include/core/memory.hpp\<close> and \<open>lib/core/memory.cpp\<close>: the abstract class
  \<open>Memory_interface\<close> (a record of its virtual functions over a state \<open>'m\<close>), the load/store
  module and the instruction fetch module with its cache. What a device promises is stated as
  the locales \<open>memory_device\<close> and \<open>word_memory\<close>; the core's lemmas rest on them alone.
\<close>

unbundle bit_operations_syntax

section \<open>The interface\<close>

datatype mem_error = Out_of_range | Unaligned | Access_fault | Device_error | Not_supported

text \<open>
  A page of \<open>read_page\<close> is the array of its 1024 words, as a function of the index. The buffer
  is only defined on success.
\<close>

record 'm memory_interface =
  mi_read :: "'m \<Rightarrow> u64 \<Rightarrow> (u32, mem_error) expected \<times> 'm"
  mi_read_page :: "'m \<Rightarrow> u64 \<Rightarrow> (nat \<Rightarrow> u32, mem_error) expected \<times> 'm"
  mi_write :: "'m \<Rightarrow> u64 \<Rightarrow> u32 \<Rightarrow> 4 bitset \<Rightarrow> (unit, mem_error) expected \<times> 'm"
  mi_size :: "'m \<Rightarrow> u64"

section \<open>Load and store\<close>

datatype ls_funct =
    Funct_None
  | Load_byte | Load_halfword | Load_word | Load_byte_unsigned | Load_halfword_unsigned
  | Store_byte | Store_halfword | Store_word

datatype ls_opcode = Ls_None | Ls_Load | Ls_Store

fun is_aligned :: "u32 \<Rightarrow> ls_funct \<Rightarrow> bool" where
  "is_aligned address Load_byte = True"
| "is_aligned address Store_byte = True"
| "is_aligned address Load_byte_unsigned = True"
| "is_aligned address Load_halfword = (address AND 0x1 = 0)"
| "is_aligned address Store_halfword = (address AND 0x1 = 0)"
| "is_aligned address Load_halfword_unsigned = (address AND 0x1 = 0)"
| "is_aligned address Load_word = (address AND 0x3 = 0)"
| "is_aligned address Store_word = (address AND 0x3 = 0)"
| "is_aligned address Funct_None = False"

text \<open>The value of a load: the addressed part of the word, extended.\<close>

fun load_result :: "ls_funct \<Rightarrow> u32 \<Rightarrow> u32 \<Rightarrow> (u32, trap) expected" where
  "load_result Load_byte off value =
     Value (scast (ucast (drop_bit (unat (off * 8)) value) :: u8))"
| "load_result Load_halfword off value =
     Value (scast (ucast (drop_bit (unat (off * 8)) value) :: u16))"
| "load_result Load_word off value = Value value"
| "load_result Load_byte_unsigned off value =
     Value (ucast (ucast (drop_bit (unat (off * 8)) value) :: u8))"
| "load_result Load_halfword_unsigned off value =
     Value (ucast (ucast (drop_bit (unat (off * 8)) value) :: u16))"
| "load_result _ off value = Throw (Logic_error ''Invalid funct for load operation'')"

fun store_mask :: "ls_funct \<Rightarrow> u32 \<Rightarrow> 4 bitset option" where
  "store_mask Store_byte off = Some (bs_of (push_bit (unat off) 0b0001))"
| "store_mask Store_halfword off = Some (bs_of (push_bit (unat off) 0b0011))"
| "store_mask Store_word off = Some (bs_of 0b1111)"
| "store_mask _ off = None"

fun store_error :: "mem_error \<Rightarrow> (u32, trap) expected" where
  "store_error Out_of_range = Unexpected Store_access_fault"
| "store_error Access_fault = Unexpected Store_access_fault"
| "store_error Device_error = Unexpected Store_access_fault"
| "store_error Unaligned = Unexpected Store_address_misaligned"
| "store_error Not_supported = Throw (Logic_error ''Invalid memory interface error'')"

definition load_store ::
  "'m memory_interface \<Rightarrow> ls_opcode \<Rightarrow> ls_funct \<Rightarrow> u32 \<Rightarrow> u32 \<Rightarrow> 'm \<Rightarrow> (u32, trap) expected \<times> 'm"
where
  "load_store I opcode funct address store_value m =
     (let address_aligned = address AND 0xfffffffc;
          aligned = is_aligned address funct;
          byte_offset = address AND 0x3
      in case opcode of
           Ls_None \<Rightarrow> (Value 0, m)
         | Ls_Load \<Rightarrow>
             if \<not> aligned then (Unexpected Load_address_misaligned, m)
             else (case mi_read I m (ucast address_aligned) of
                     (Throw x, m') \<Rightarrow> (Throw x, m')
                   | (Unexpected _, m') \<Rightarrow> (Unexpected Load_access_fault, m')
                   | (Value value, m') \<Rightarrow> (load_result funct byte_offset value, m'))
         | Ls_Store \<Rightarrow>
             if \<not> aligned then (Unexpected Store_address_misaligned, m)
             else (case store_mask funct byte_offset of
                     None \<Rightarrow> (Throw (Logic_error ''Invalid funct for store operation''), m)
                   | Some k \<Rightarrow>
                       (case mi_write I m (ucast address_aligned)
                               (push_bit (unat (byte_offset * 8)) store_value) k of
                          (Throw x, m') \<Rightarrow> (Throw x, m')
                        | (Unexpected e, m') \<Rightarrow> (store_error e, m')
                        | (Value _, m') \<Rightarrow> (Value 0, m'))))"

fun get_size :: "ls_funct \<Rightarrow> exn + nat" where
  "get_size Load_byte = Inr 1"
| "get_size Load_byte_unsigned = Inr 1"
| "get_size Store_byte = Inr 1"
| "get_size Load_halfword = Inr 2"
| "get_size Load_halfword_unsigned = Inr 2"
| "get_size Store_halfword = Inr 2"
| "get_size Load_word = Inr 4"
| "get_size Store_word = Inr 4"
| "get_size Funct_None = Inl (Logic_error ''Invalid funct'')"

section \<open>Instruction fetch\<close>

record cache_entry =
  ce_data :: "nat \<Rightarrow> u32"
  ce_address :: u32
  ce_valid :: bool

definition cache_num :: nat where
  "cache_num = 1024"

text \<open>The vector of \<open>cache_num\<close> entries, as a function of the index.\<close>

type_synonym fetch_cache = "nat \<Rightarrow> cache_entry"

definition fetch_cache_init :: fetch_cache where
  "fetch_cache_init = (\<lambda>_. \<lparr>ce_data = (\<lambda>_. 0), ce_address = 0, ce_valid = False\<rparr>)"

definition cache_idx :: "u32 \<Rightarrow> nat" where
  "cache_idx pc = unat (drop_bit 12 pc) mod cache_num"

definition page_of :: "u32 \<Rightarrow> u32" where
  "page_of pc = pc AND 0xfffff000"

definition word_index :: "u32 \<Rightarrow> nat" where
  "word_index pc = unat (drop_bit 2 (pc AND 0xfff))"

fun fetch_error :: "mem_error \<Rightarrow> (u32, trap) expected" where
  "fetch_error Out_of_range = Unexpected Inst_access_fault"
| "fetch_error Access_fault = Unexpected Inst_access_fault"
| "fetch_error Device_error = Unexpected Illegal_instruction"
| "fetch_error Unaligned = Unexpected Inst_address_misaligned"
| "fetch_error Not_supported = Throw (Logic_error ''Invalid memory interface error'')"

definition cache_hit :: "fetch_cache \<Rightarrow> u32 \<Rightarrow> bool" where
  "cache_hit cache pc \<longleftrightarrow>
     ce_valid (cache (cache_idx pc)) \<and> ce_address (cache (cache_idx pc)) = page_of pc"

definition inst_fetch ::
  "'m memory_interface \<Rightarrow> u32 \<Rightarrow> fetch_cache \<times> 'm \<Rightarrow> (u32, trap) expected \<times> fetch_cache \<times> 'm"
where
  "inst_fetch I pc = (\<lambda>(cache, m).
     if pc AND 0x3 \<noteq> 0 then (Unexpected Inst_address_misaligned, cache, m)
     else if cache_hit cache pc then (Value (ce_data (cache (cache_idx pc)) (word_index pc)), cache, m)
     else
       case mi_read_page I m (ucast (page_of pc)) of
         (Throw x, m') \<Rightarrow> (Throw x, cache, m')
       | (Unexpected e, m') \<Rightarrow>
           (fetch_error e,
            cache(cache_idx pc := (cache (cache_idx pc))\<lparr>ce_valid := False\<rparr>), m')
       | (Value page, m') \<Rightarrow>
           (Value (page (word_index pc)),
            cache(cache_idx pc := \<lparr>ce_data = page, ce_address = page_of pc, ce_valid = True\<rparr>), m'))"

definition fencei :: "fetch_cache \<Rightarrow> fetch_cache" where
  "fencei cache = (\<lambda>i. (cache i)\<lparr>ce_valid := False\<rparr>)"

section \<open>Parts of a word\<close>

text \<open>A write under a byte mask, and one byte of a word.\<close>

definition merge_word :: "4 bitset \<Rightarrow> u32 \<Rightarrow> u32 \<Rightarrow> u32" where
  "merge_word k d v = bs_choose_bits_u32 (bs_expand_byte_mask k) d v"

definition word_byte :: "nat \<Rightarrow> u32 \<Rightarrow> u8" where
  "word_byte j v = ucast (drop_bit (8 * j) v)"

fun ls_size :: "ls_funct \<Rightarrow> nat" where
  "ls_size f = (case get_size f of Inl _ \<Rightarrow> 0 | Inr n \<Rightarrow> n)"

definition is_load_funct :: "ls_funct \<Rightarrow> bool" where
  "is_load_funct f \<longleftrightarrow> f \<in> {Load_byte, Load_halfword, Load_word, Load_byte_unsigned, Load_halfword_unsigned}"

definition is_store_funct :: "ls_funct \<Rightarrow> bool" where
  "is_store_funct f \<longleftrightarrow> f \<in> {Store_byte, Store_halfword, Store_word}"

text \<open>The combinations of an operation and a function code that the module accepts.\<close>

fun ls_matches :: "ls_opcode \<Rightarrow> ls_funct \<Rightarrow> bool" where
  "ls_matches Ls_None f = True"
| "ls_matches Ls_Load f = (is_load_funct f \<or> f = Funct_None)"
| "ls_matches Ls_Store f = (is_store_funct f \<or> f = Funct_None)"

lemma bit_merge_word:
  "bit (merge_word k d v) i \<longleftrightarrow> i < 32 \<and> (if bit (bs_value k) (i div 8) then bit d i else bit v i)"
  by (auto simp: merge_word_def bit_bs_choose_bits_u32 bit_bs_expand_byte_mask)

lemma bit_word_byte: "bit (word_byte j v) i \<longleftrightarrow> i < 8 \<and> bit v (8 * j + i)"
  by (auto simp: word_byte_def bit_simps ac_simps)

lemma word_byte_merge:
  "j < 4 \<Longrightarrow> word_byte j (merge_word k d v) =
     (if bit (bs_value k) j then word_byte j d else word_byte j v)"
proof -
  assume j: "j < 4"
  have *: "(8 * j + i) div 8 = j" "8 * j + i < 32" if "i < 8" for i
    using that j by auto
  show ?thesis
    by (rule bit_word_eqI) (auto simp: bit_word_byte bit_merge_word *)
qed

lemma word_bytes_eqI:
  "(\<And>j. j < 4 \<Longrightarrow> word_byte j v = word_byte j w) \<Longrightarrow> v = w"
proof (rule bit_word_eqI)
  fix i assume a: "\<And>j. j < 4 \<Longrightarrow> word_byte j v = word_byte j w" and "i < LENGTH(32)"
  then have "word_byte (i div 8) v = word_byte (i div 8) w" by simp
  then have "bit (word_byte (i div 8) v) (i mod 8) = bit (word_byte (i div 8) w) (i mod 8)" by simp
  then show "bit v i = bit w i" by (simp add: bit_word_byte)
qed

lemma word_byte_u32_of_bytes: "j < 4 \<Longrightarrow> word_byte j (u32_of_bytes b0 b1 b2 b3) = [b0, b1, b2, b3] ! j"
proof (rule bit_word_eqI)
  fix i assume "j < 4" "i < LENGTH(8)"
  then have "(8 * j + i) div 8 = j" "(8 * j + i) mod 8 = i" "8 * j + i < 32" "i < 8" by simp_all
  then show "bit (word_byte j (u32_of_bytes b0 b1 b2 b3)) i = bit ([b0, b1, b2, b3] ! j) i"
    by (simp add: bit_word_byte bit_u32_of_bytes)
qed

lemma off_cases: "unat (a AND 0x3) < 4" for a :: u32
proof -
  have "a AND 0x3 = take_bit 2 a" by (simp add: take_bit_eq_mask mask_eq_exp_minus_1)
  then have "unat (a AND 0x3) = take_bit 2 (unat a)" by (simp only: unsigned_take_bit_eq)
  then show ?thesis using take_bit_nat_less_exp[of 2 "unat a"] by simp
qed

section \<open>Alignment and offsets\<close>

lemma and_low: "unat (a AND w) = unat a mod 2 ^ n" if "w = mask n" for a :: "'a::len word"
proof -
  have "unat (take_bit n a) = take_bit n (unat a)" by (rule unsigned_take_bit_eq)
  then show ?thesis using that by (simp only: take_bit_eq_mask[symmetric] take_bit_eq_mod[of n "unat a"])
qed

lemma unat_and3: "unat (a AND 0x3) = unat a mod 4" for a :: u32
  using and_low[of "0x3" 2 a] by (simp add: mask_eq_exp_minus_1)

lemma unat_and1: "unat (a AND 0x1) = unat a mod 2" for a :: u32
  using and_low[of "0x1" 1 a] by (simp add: mask_eq_exp_minus_1)

lemma and_ones: "a AND 0xffffffff = a" for a :: u32
proof -
  have "(0xffffffff :: u32) = -1" by simp
  then show ?thesis by (simp only: and.right_neutral)
qed

lemma word_align_split: "(a AND 0xfffffffc) + (a AND 0x3) = a" for a :: u32
proof -
  have d: "(a AND 0xfffffffc) AND (a AND 0x3) = 0"
    by (simp add: ac_simps and.left_commute[of a])
  have "(a AND 0xfffffffc) OR (a AND 0x3) = a AND (0xfffffffc OR 0x3)"
    by (simp only: bit.conj_disj_distrib)
  also have "\<dots> = a" by (simp add: and_ones)
  finally show ?thesis using d by (simp add: disjunctive_add_eq_or)
qed

lemma and_low_zero:
  "a AND 0x3 = 0 \<longleftrightarrow> unat a mod 4 = 0" "a AND 0x1 = 0 \<longleftrightarrow> unat a mod 2 = 0" for a :: u32
  by (simp_all only: unat_and3[symmetric] unat_and1[symmetric] unsigned_eq_0_iff)

lemma mod_4_2: "n mod 2 = 0 \<longleftrightarrow> n mod 4 = 0 \<or> n mod 4 = (2::nat)"
  by presburger

lemma is_aligned_offset:
  assumes "is_aligned a f"
  shows "f \<noteq> Funct_None \<and> unat a mod 4 mod ls_size f = 0 \<and> unat a mod 4 + ls_size f \<le> 4"
proof -
  have "n < 4 \<Longrightarrow> n + 1 \<le> 4" for n :: nat by simp
  then show ?thesis using assms
    by (cases f) (auto simp: and_low_zero mod_4_2)
qed

lemma unat_offset_bits: "unat ((a AND 0x3) * 8) = 8 * (unat a mod 4)" for a :: u32
proof -
  have "unat a mod 4 < 4" by simp
  then have "unat a mod 4 * 8 < 2 ^ LENGTH(32)" by simp
  then show ?thesis by (simp add: unat_word_ariths unat_and3)
qed

lemma bit_store_mask:
  "store_mask f (a AND 0x3) = Some k \<Longrightarrow> is_aligned a f \<Longrightarrow>
     bit (bs_value k) j \<longleftrightarrow> unat a mod 4 \<le> j \<and> j < unat a mod 4 + ls_size f"
proof -
  assume k: "store_mask f (a AND 0x3) = Some k" and al: "is_aligned a f"
  have m: "(3 :: u64) = mask 2" "(15 :: u64) = mask 4" by (simp_all add: mask_eq_exp_minus_1)
  have le: "unat a mod 4 + ls_size f \<le> 4" and "f \<noteq> Funct_None" using is_aligned_offset[OF al] by blast+
  then show ?thesis using k al
    by (cases f) (auto simp: m bit_bs_of bit_simps unat_and3 and_low_zero bit_mask_iff bit_1_iff)
qed

fun extend_load :: "ls_funct \<Rightarrow> (nat \<Rightarrow> u8) \<Rightarrow> u32" where
  "extend_load Load_byte b = scast (b 0)"
| "extend_load Load_byte_unsigned b = ucast (b 0)"
| "extend_load Load_halfword b = scast (u16_of_bytes (b 0) (b 1))"
| "extend_load Load_halfword_unsigned b = ucast (u16_of_bytes (b 0) (b 1))"
| "extend_load _ b = u32_of_bytes (b 0) (b 1) (b 2) (b 3)"

lemma u16_of_word_bytes:
  "u16_of_bytes (word_byte k v) (word_byte (Suc k) v) = ucast (drop_bit (8 * k) v)"
proof (rule bit_word_eqI)
  fix i assume "i < LENGTH(16)"
  then show "bit (u16_of_bytes (word_byte k v) (word_byte (Suc k) v)) i
      = bit (ucast (drop_bit (8 * k) v) :: u16) i"
    by (cases "i < 8") (auto simp: u16_of_bytes_def bit_word_byte bit_simps ac_simps)
qed

lemma word_byte_whole:
  "u32_of_bytes (word_byte 0 v) (word_byte (Suc 0) v) (word_byte 2 v) (word_byte 3 v) = v"
  using u32_of_bytes_of_u32[of v] by (simp add: word_byte_def)

lemma load_result_bytes:
  "is_aligned a f \<Longrightarrow> is_load_funct f \<Longrightarrow>
     load_result f (a AND 0x3) v = Value (extend_load f (\<lambda>j. word_byte (unat a mod 4 + j) v))"
  by (cases f)
    (simp_all add: is_load_funct_def unat_offset_bits u16_of_word_bytes and_low_zero word_byte_whole
      flip: word_byte_def)

section \<open>What a device promises\<close>

text \<open>
  A device keeps its invariant under every call, ends every call whose address comes from the
  32-bit core by returning, and supports writes (if only to refuse them).
\<close>

locale memory_device =
  fixes I :: "'m memory_interface" and inv :: "'m \<Rightarrow> bool"
  assumes read_inv: "inv m \<Longrightarrow> inv (snd (mi_read I m a))"
    and read_page_inv: "inv m \<Longrightarrow> inv (snd (mi_read_page I m a))"
    and write_inv: "inv m \<Longrightarrow> inv (snd (mi_write I m a d k))"
    and read_returns: "inv m \<Longrightarrow> unat a < 2 ^ 32 \<Longrightarrow> \<not> throws (fst (mi_read I m a))"
    and read_page_returns: "inv m \<Longrightarrow> unat a < 2 ^ 32 \<Longrightarrow> \<not> throws (fst (mi_read_page I m a))"
    and write_returns: "inv m \<Longrightarrow> unat a < 2 ^ 32 \<Longrightarrow> \<not> throws (fst (mi_write I m a d k))"
    and write_supported: "inv m \<Longrightarrow> fst (mi_write I m a d k) \<noteq> Unexpected Not_supported"
begin

lemma load_store_inv: "inv m \<Longrightarrow> inv (snd (load_store I opc f a x m))"
proof -
  assume m: "inv m"
  have r: "mi_read I m b = (p, m') \<Longrightarrow> inv m'" for b p m' using read_inv[OF m, of b] by simp
  have w: "mi_write I m b d k = (p, m') \<Longrightarrow> inv m'" for b d k p m' using write_inv[OF m, of b d k] by simp
  show ?thesis
    by (cases opc)
      (auto simp: load_store_def Let_def m split: option.splits prod.splits expected.splits dest: r w)
qed

lemma load_result_returns:
  "is_load_funct f \<Longrightarrow> \<exists>v'. load_result f off v = Value v'"
  by (auto simp: is_load_funct_def)

text \<open>The load/store module returns on every request of the decoder.\<close>

lemma load_store_returns:
  assumes m: "inv m" and f: "ls_matches opc f"
  shows "\<not> throws (fst (load_store I opc f a x m))"
proof (cases opc)
  case Ls_None
  then show ?thesis by (simp add: load_store_def Let_def)
next
  case Ls_Load
  obtain p m' where p: "mi_read I m (ucast (a AND 0xfffffffc)) = (p, m')" by fastforce
  have "\<not> throws (fst (mi_read I m (ucast (a AND 0xfffffffc))))"
    by (rule read_returns[OF m]) simp
  moreover have "is_aligned a f \<Longrightarrow> \<not> throws (load_result f off v)" for off v
    using f Ls_Load load_result_returns[of f off v] by auto
  ultimately show ?thesis
    by (cases p; cases "is_aligned a f")
      (auto simp: load_store_def Let_def Ls_Load p)
next
  case Ls_Store
  have "is_aligned a f \<Longrightarrow> is_store_funct f" using f Ls_Store by auto
  then have s: "is_aligned a f \<Longrightarrow> \<exists>k. store_mask f off = Some k" for off
    by (auto simp: is_store_funct_def)
  have e: "e \<noteq> Not_supported \<Longrightarrow> \<not> throws (store_error e)" for e by (cases e) simp_all
  have w: "\<not> throws (fst (mi_write I m (ucast (a AND 0xfffffffc)) d k))" for d k
    by (rule write_returns[OF m]) simp
  have u: "fst (mi_write I m b d k) \<noteq> Unexpected Not_supported" for b d k
    by (rule write_supported[OF m])
  show ?thesis
  proof (cases "is_aligned a f")
    case True
    from s[OF this, of "a AND 0x3"] obtain k where k: "store_mask f (a AND 0x3) = Some k" ..
    define d where "d = push_bit (unat ((a AND 0x3) * 8)) x"
    obtain p m' where p: "mi_write I m (ucast (a AND 0xfffffffc)) d k = (p, m')" by fastforce
    show ?thesis using w[of d k] u[of "ucast (a AND 0xfffffffc)" d k] e
      by (cases p) (simp_all add: load_store_def Let_def Ls_Store True k p flip: d_def)
  qed (simp add: load_store_def Let_def Ls_Store)
qed

text \<open>Its failures are the four memory traps.\<close>

lemma load_store_traps:
  "fst (load_store I opc f a x m) = Unexpected t \<Longrightarrow>
     t \<in> {Load_address_misaligned, Load_access_fault, Store_address_misaligned, Store_access_fault}"
proof -
  have e: "store_error e = Unexpected t \<Longrightarrow> t \<in> {Store_address_misaligned, Store_access_fault}" for e t
    by (cases e) auto
  have l: "load_result f off v \<noteq> Unexpected t" for off v by (cases f) auto
  show "fst (load_store I opc f a x m) = Unexpected t \<Longrightarrow> ?thesis"
    using e l by (cases opc)
      (fastforce simp: load_store_def Let_def split: option.splits prod.splits expected.splits if_splits)+
qed

lemma inst_fetch_inv: "inv m \<Longrightarrow> inst_fetch I pc (c, m) = (r, c', m') \<Longrightarrow> inv m'"
  using read_page_inv[of m "ucast (page_of pc)"]
  by (auto simp: inst_fetch_def split: if_splits prod.splits expected.splits)

text \<open>
  A fetch ends with an exception exactly when it misses the cache and the device does not serve
  pages.
\<close>

lemma inst_fetch_throws:
  assumes "inv m"
  shows "throws (fst (inst_fetch I pc (c, m))) \<longleftrightarrow>
     pc AND 0x3 = 0 \<and> \<not> cache_hit c pc
     \<and> fst (mi_read_page I m (ucast (page_of pc))) = Unexpected Not_supported"
proof -
  obtain p m' where p: "mi_read_page I m (ucast (page_of pc)) = (p, m')" by fastforce
  have "\<not> throws (fst (mi_read_page I m (ucast (page_of pc))))"
    by (rule read_page_returns[OF assms]) simp
  moreover have "throws (fetch_error e) \<longleftrightarrow> e = Not_supported" for e by (cases e) simp_all
  ultimately show ?thesis
    by (cases p) (simp_all add: inst_fetch_def p)
qed

end
section \<open>Word memories\<close>

text \<open>
  The contents of a device: the words that behave as memory, by their address, each with whether
  it can be written. Addresses outside the view (device registers, holes) are unconstrained, save
  that no call to them changes the view.
\<close>

type_synonym mem_view = "u64 \<Rightarrow> (bool \<times> u32) option"

definition view_write :: "u64 \<Rightarrow> u32 \<Rightarrow> 4 bitset \<Rightarrow> mem_view \<Rightarrow> mem_view" where
  "view_write a d k w =
     (case w a of Some (True, v) \<Rightarrow> w(a \<mapsto> (True, merge_word k d v)) | _ \<Rightarrow> w)"

definition byte_at :: "mem_view \<Rightarrow> u32 \<Rightarrow> (bool \<times> u8) option" where
  "byte_at w b = map_option (\<lambda>(p, v). (p, word_byte (unat b mod 4) v)) (w (ucast (b AND 0xfffffffc)))"

text \<open>Every hit of the cache is the word in memory.\<close>

definition cache_coherent :: "mem_view \<Rightarrow> fetch_cache \<Rightarrow> bool" where
  "cache_coherent w c \<longleftrightarrow>
     (\<forall>pc. cache_hit c pc \<longrightarrow>
        (\<exists>p. w (ucast (pc AND 0xfffffffc)) = Some (p, ce_data (c (cache_idx pc)) (word_index pc))))"

lemma unat_align: "unat (b AND 0xfffffffc) = 4 * (unat b div 4)" for b :: u32
proof -
  have le: "b AND 0xfffffffc \<le> b" by (rule word_and_le2)
  have "b AND 0x3 = b - (b AND 0xfffffffc)" using word_align_split[of b] by (simp add: algebra_simps)
  then have "unat (b AND 0x3) = unat b - unat (b AND 0xfffffffc)"
    by (simp only: unat_sub[OF le])
  moreover have "unat (b AND 0xfffffffc) \<le> unat b" using le by (simp add: word_le_nat_alt)
  ultimately have "unat (b AND 0xfffffffc) = unat b - unat b mod 4" by (simp add: unat_and3)
  then show ?thesis by (simp only: minus_mod_eq_mult_div)
qed

lemma align_eq_iff: "a AND 0xfffffffc = b AND 0xfffffffc \<longleftrightarrow> unat a div 4 = unat b div 4" for a b :: u32
  by (simp add: word_unat_eq_iff unat_align)

lemma ucast_u64_inj [simp]: "(ucast a :: u64) = ucast b \<longleftrightarrow> a = b" for a b :: u32
  by (auto simp: bit_eq_iff bit_simps)

lemma div_mod_4_obtain:
  obtains q r :: nat where "a = 4 * q + r" "r < 4" "a div 4 = q" "a mod 4 = r"
  by (rule that[of "a div 4" "a mod 4"]) simp_all

lemma in_access_range:
  fixes a b n :: nat
  assumes "a mod 4 + n \<le> 4"
  shows "a \<le> b \<and> b < a + n \<longleftrightarrow> a div 4 = b div 4 \<and> a mod 4 \<le> b mod 4 \<and> b mod 4 < a mod 4 + n"
proof -
  obtain p r where p: "a = 4 * p + r" "a div 4 = p" "a mod 4 = r" by (rule div_mod_4_obtain)
  obtain q t where q: "b = 4 * q + t" "t < 4" "b div 4 = q" "b mod 4 = t" by (rule div_mod_4_obtain)
  have "r + n \<le> 4" using assms p by simp
  with q(2) have "4 * p + r \<le> 4 * q + t \<Longrightarrow> 4 * q + t < 4 * p + r + n \<Longrightarrow> p = q" by linarith
  then have "4 * p + r \<le> 4 * q + t \<and> 4 * q + t < 4 * p + r + n \<longleftrightarrow> p = q \<and> r \<le> t \<and> t < r + n"
    by auto
  then show ?thesis by (simp only: p(2,3) q(3,4)) (simp only: p(1) q(1))
qed

lemma add_within_word:
  fixes a j :: nat
  assumes "a mod 4 + j < 4"
  shows "(a + j) div 4 = a div 4" "(a + j) mod 4 = a mod 4 + j"
proof -
  obtain p r where p: "a = 4 * p + r" "a div 4 = p" "a mod 4 = r" by (rule div_mod_4_obtain)
  have s: "r + j < 4" using assms p by simp
  have "(4 * p + (r + j)) div 4 = p" "(4 * p + (r + j)) mod 4 = r + j"
    using s by (simp_all only: div_mult_self4 mod_mult_self4 div_less mod_less add_0_right)
  moreover have "a + j = 4 * p + (r + j)" using p by simp
  ultimately have "(a + j) div 4 = p \<and> (a + j) mod 4 = r + j" by (simp only: simp_thms)
  then show "(a + j) div 4 = a div 4" "(a + j) mod 4 = a mod 4 + j" by (simp_all only: p(2,3))
qed

lemma extend_load_cong:
  "is_load_funct f \<Longrightarrow> (\<And>j. j < ls_size f \<Longrightarrow> b j = c j) \<Longrightarrow> extend_load f b = extend_load f c"
  by (cases f) (auto simp: is_load_funct_def)

lemma unat_access_byte:
  assumes "is_aligned a f" "j < ls_size f"
  shows "unat (a + of_nat j) = unat a + j"
proof -
  have le: "unat a mod 4 + j < 4" using is_aligned_offset[OF assms(1)] assms(2) by linarith
  have "unat a < 4294967296" by simp
  then have "unat a div 4 < 1073741824" by linarith
  moreover have "unat a + j = 4 * (unat a div 4) + (unat a mod 4 + j)" by simp
  ultimately have "unat a + j < 4294967296" using le by linarith
  then have lt: "unat a + j < 2 ^ LENGTH(32)" by simp
  have "unat (of_nat j :: u32) = j"
    using lt by (simp add: unat_of_nat take_bit_nat_eq_self)
  with lt show ?thesis by (simp add: unat_word_ariths)
qed

lemma byte_at_access:
  assumes "is_aligned a f" "j < ls_size f" "w (ucast (a AND 0xfffffffc)) = Some (p, v)"
  shows "byte_at w (a + of_nat j) = Some (p, word_byte (unat a mod 4 + j) v)"
proof -
  have le: "unat a mod 4 + j < 4" using is_aligned_offset[OF assms(1)] assms(2) by linarith
  have u: "unat (a + of_nat j) = unat a + j" by (rule unat_access_byte[OF assms(1,2)])
  note d = add_within_word(1)[OF le] and m = add_within_word(2)[OF le]
  from d have "(a + of_nat j) AND 0xfffffffc = a AND 0xfffffffc" by (simp add: align_eq_iff u)
  then show ?thesis by (simp add: byte_at_def assms(3) u m)
qed

lemma word_byte_shift:
  "unat a mod 4 \<le> unat b mod 4 \<Longrightarrow> unat a div 4 = unat b div 4 \<Longrightarrow>
     word_byte (unat b mod 4) (push_bit (8 * (unat a mod 4)) x) = word_byte (unat b - unat a) x"
  for a b x :: u32
proof (rule bit_word_eqI)
  fix i
  assume le: "unat a mod 4 \<le> unat b mod 4" and d: "unat a div 4 = unat b div 4" and i: "i < LENGTH(8)"
  obtain p r where p: "unat a = 4 * p + r" "unat a div 4 = p" "unat a mod 4 = r" by (rule div_mod_4_obtain)
  obtain q t where q: "unat b = 4 * q + t" "unat b div 4 = q" "unat b mod 4 = t" by (rule div_mod_4_obtain)
  have "4 * p + t - (4 * p + r) = t - r" by simp
  then have "unat b - unat a = unat b mod 4 - unat a mod 4" using d p q by metis
  moreover have "A \<le> B \<Longrightarrow> 8 * B + i - 8 * A = 8 * (B - A) + i" for A B :: nat by simp
  ultimately have e: "8 * (unat b mod 4) + i - 8 * (unat a mod 4) = 8 * (unat b - unat a) + i"
    and ge: "8 * (unat a mod 4) \<le> 8 * (unat b mod 4) + i" using le by simp_all
  have "unat b mod 4 < 4" by simp
  then have lt: "8 * (unat b mod 4) + i < 32" using i by simp
  show "bit (word_byte (unat b mod 4) (push_bit (8 * (unat a mod 4)) x)) i
      = bit (word_byte (unat b - unat a) x) i"
    using i lt ge by (simp add: bit_word_byte bit_push_bit_iff e)
qed

lemma div_mod_page: "4096 * (n div 4096) + 4 * (n mod 4096 div 4) = 4 * (n div 4)" for n :: nat
proof -
  define q r where "q = n div 4096" and "r = n mod 4096"
  have "n = r + 4 * (1024 * q)" by (simp add: q_def r_def)
  then have "n div 4 = (r + 4 * (1024 * q)) div 4" by (simp only:)
  also have "\<dots> = 1024 * q + r div 4" by (rule div_mult_self2) simp
  finally show ?thesis by (simp add: q_def r_def)
qed

lemma word_index_less: "word_index pc < 1024"
proof -
  have "unat (pc AND 0xfff) = unat pc mod 2 ^ 12"
    by (rule and_low) (simp add: mask_eq_exp_minus_1)
  then have "unat (pc AND 0xfff) < 4096" by simp
  then show ?thesis unfolding word_index_def unat_drop_bit by simp
qed

lemma unat_page_of: "unat (page_of pc) = 4096 * (unat pc div 4096)"
proof -
  have low: "unat (pc AND 0xfff) = unat pc mod 4096"
    using and_low[of "0xfff" 12 pc] by (simp add: mask_eq_exp_minus_1)
  have d: "(pc AND 0xfffff000) AND (pc AND 0xfff) = 0"
    by (simp add: ac_simps and.left_commute[of pc])
  have "(pc AND 0xfffff000) OR (pc AND 0xfff) = pc AND (0xfffff000 OR 0xfff)"
    by (simp only: bit.conj_disj_distrib)
  also have "\<dots> = pc" by (simp add: and_ones)
  finally have sum: "page_of pc + (pc AND 0xfff) = pc"
    using d by (simp add: disjunctive_add_eq_or page_of_def)
  have le: "page_of pc \<le> pc" unfolding page_of_def by (rule word_and_le2)
  have "pc AND 0xfff = pc - page_of pc" using sum by (simp add: algebra_simps)
  then have "unat (pc AND 0xfff) = unat pc - unat (page_of pc)" by (simp only: unat_sub[OF le])
  moreover have "unat (page_of pc) \<le> unat pc" using le by (simp add: word_le_nat_alt)
  ultimately show ?thesis using low by (simp only: minus_mod_eq_mult_div[symmetric])
qed

lemma page_word_address:
  "ucast (page_of pc) + 4 * of_nat (word_index pc) = (ucast (pc AND 0xfffffffc) :: u64)"
proof -
  have low: "unat (pc AND 0xfff) = unat pc mod 4096"
    using and_low[of "0xfff" 12 pc] by (simp add: mask_eq_exp_minus_1)
  have "word_index pc = unat pc mod 4096 div 4" unfolding word_index_def unat_drop_bit low by simp
  then have "unat (page_of pc) + 4 * word_index pc = 4 * (unat pc div 4)"
    by (simp add: div_mod_page unat_page_of)
  then have "unat (page_of pc) + 4 * word_index pc = unat (pc AND 0xfffffffc)"
    by (simp only: unat_align)
  then have "(of_nat (unat (page_of pc) + 4 * word_index pc) :: u64) = of_nat (unat (pc AND 0xfffffffc))"
    by (simp only:)
  then show ?thesis by simp
qed

lemma page_of_aligned: "ucast (page_of pc) AND (0xfff :: u64) = 0"
proof -
  have "unat (ucast (page_of pc) AND (0xfff :: u64)) = unat (page_of pc) mod 4096"
    using and_low[of "0xfff" 12 "ucast (page_of pc) :: u64"] by (simp add: mask_eq_exp_minus_1)
  then have "unat (ucast (page_of pc) AND (0xfff :: u64)) = 0" by (simp add: unat_page_of)
  then show ?thesis by (simp only: unsigned_eq_0_iff)
qed

lemma page_of_align: "page_of (a AND 0xfffffffc) = page_of a"
  by (simp add: page_of_def and.assoc)

lemma cache_hit_align:
  "a AND 0xfffffffc = b AND 0xfffffffc \<Longrightarrow> cache_hit c a = cache_hit c b"
proof -
  assume "a AND 0xfffffffc = b AND 0xfffffffc"
  then have p: "page_of a = page_of b" by (metis page_of_align)
  then have "4096 * (unat a div 4096) = 4096 * (unat b div 4096)" by (simp only: unat_page_of[symmetric])
  then have "cache_idx a = cache_idx b" by (simp add: cache_idx_def unat_drop_bit)
  with p show ?thesis by (simp add: cache_hit_def)
qed

lemma fencei_coherent: "cache_coherent w (fencei c)"
  by (simp add: cache_coherent_def cache_hit_def fencei_def)

lemma cache_init_coherent: "cache_coherent w fetch_cache_init"
  by (simp add: cache_coherent_def cache_hit_def fetch_cache_init_def)

locale word_memory = memory_device I inv
  for I :: "'m memory_interface" and inv :: "'m \<Rightarrow> bool" +
  fixes view :: "'m \<Rightarrow> mem_view"
  assumes read_view: "inv m \<Longrightarrow> view (snd (mi_read I m a)) = view m"
    and read_page_view: "inv m \<Longrightarrow> view (snd (mi_read_page I m a)) = view m"
    and write_view: "inv m \<Longrightarrow> view (snd (mi_write I m a d k)) = view_write a d k (view m)"
    and read_value: "inv m \<Longrightarrow> view m a = Some (p, v) \<Longrightarrow> fst (mi_read I m a) = Value v"
    and write_value: "inv m \<Longrightarrow> view m a = Some (True, v) \<Longrightarrow> fst (mi_write I m a d k) = Value ()"
    and page_value: "inv m \<Longrightarrow> a AND 0xfff = 0 \<Longrightarrow> fst (mi_read_page I m a) = Value f \<Longrightarrow> i < 1024 \<Longrightarrow>
      \<exists>p. view m (a + 4 * of_nat i) = Some (p, f i)"
begin

text \<open>A load is the little-endian value of the bytes at its address.\<close>

lemma load_bytes:
  assumes "inv m" "is_aligned a f" "is_load_funct f"
    and "view m (ucast (a AND 0xfffffffc)) = Some (p, v)"
  shows "fst (load_store I Ls_Load f a x m) =
    Value (extend_load f (\<lambda>j. snd (the (byte_at (view m) (a + of_nat j)))))"
proof -
  obtain m' where "mi_read I m (ucast (a AND 0xfffffffc)) = (Value v, m')"
    using read_value[OF assms(1,4)] by (metis prod.collapse)
  then have "fst (load_store I Ls_Load f a x m) = load_result f (a AND 0x3) v"
    using assms(2) by (simp add: load_store_def Let_def)
  also have "\<dots> = Value (extend_load f (\<lambda>j. word_byte (unat a mod 4 + j) v))"
    by (rule load_result_bytes[OF assms(2,3)])
  also have "extend_load f (\<lambda>j. word_byte (unat a mod 4 + j) v)
      = extend_load f (\<lambda>j. snd (the (byte_at (view m) (a + of_nat j))))"
    by (rule extend_load_cong[OF assms(3)]) (simp add: byte_at_access[where w = "view m", OF assms(2) _ assms(4)])
  finally show ?thesis .
qed

text \<open>A store replaces exactly the bytes it addresses.\<close>

lemma load_view: "inv m \<Longrightarrow> view (snd (load_store I Ls_Load f a x m)) = view m"
  using read_view[of m "ucast (a AND 0xfffffffc)"]
  by (auto simp: load_store_def Let_def split: prod.splits expected.splits)

lemma store_view:
  assumes "inv m" "is_aligned a f" "store_mask f (a AND 0x3) = Some k"
  shows "view (snd (load_store I Ls_Store f a x m)) =
    view_write (ucast (a AND 0xfffffffc)) (push_bit (unat ((a AND 0x3) * 8)) x) k (view m)"
  using write_view[OF assms(1), of "ucast (a AND 0xfffffffc)" "push_bit (unat ((a AND 0x3) * 8)) x" k] assms(2,3)
  by (auto simp: load_store_def Let_def split: prod.splits expected.splits)

lemma store_ok:
  assumes "inv m" "is_aligned a f" "is_store_funct f"
    and "view m (ucast (a AND 0xfffffffc)) = Some (True, v)"
  shows "fst (load_store I Ls_Store f a x m) = Value 0"
proof -
  obtain k where k: "store_mask f (a AND 0x3) = Some k"
    using assms(3) by (auto simp: is_store_funct_def)
  define d where "d = push_bit (unat ((a AND 0x3) * 8)) x"
  obtain m' where "mi_write I m (ucast (a AND 0xfffffffc)) d k = (Value (), m')"
    using write_value[OF assms(1,4)] by (metis prod.collapse)
  then show ?thesis using assms(2) k by (simp add: load_store_def Let_def d_def)
qed

lemma store_bytes:
  assumes "inv m" "is_aligned a f" "is_store_funct f"
    and v: "view m (ucast (a AND 0xfffffffc)) = Some (True, v)"
  shows "byte_at (view (snd (load_store I Ls_Store f a x m))) b =
    (if unat a \<le> unat b \<and> unat b < unat a + ls_size f
     then Some (True, word_byte (unat b - unat a) x) else byte_at (view m) b)"
proof -
  obtain k where k: "store_mask f (a AND 0x3) = Some k"
    using assms(3) by (auto simp: is_store_funct_def)
  define d where "d = push_bit (8 * (unat a mod 4)) x"
  have w: "view (snd (load_store I Ls_Store f a x m)) =
      (view m)(ucast (a AND 0xfffffffc) \<mapsto> (True, merge_word k d v))"
    by (simp add: store_view[OF assms(1,2) k] view_write_def v unat_offset_bits d_def)
  show ?thesis
  proof (cases "unat a div 4 = unat b div 4")
    case True
    then have ab: "b AND 0xfffffffc = a AND 0xfffffffc" by (simp add: align_eq_iff)
    have shift: "word_byte (unat b mod 4) d = word_byte (unat b - unat a) x"
      if "unat a mod 4 \<le> unat b mod 4"
      unfolding d_def using that True by (rule word_byte_shift)
    have "byte_at (view (snd (load_store I Ls_Store f a x m))) b
        = Some (True, word_byte (unat b mod 4) (merge_word k d v))"
      by (simp add: byte_at_def w ab)
    moreover have "byte_at (view m) b = Some (True, word_byte (unat b mod 4) v)"
      by (simp add: byte_at_def ab v)
    moreover have "unat a \<le> unat b \<and> unat b < unat a + ls_size f \<longleftrightarrow> bit (bs_value k) (unat b mod 4)"
      using in_access_range[of "unat a" "ls_size f" "unat b"] is_aligned_offset[OF assms(2)] True
        bit_store_mask[OF k assms(2)] by simp
    moreover have "bit (bs_value k) (unat b mod 4) \<Longrightarrow> unat a mod 4 \<le> unat b mod 4"
      using bit_store_mask[OF k assms(2)] by simp
    ultimately show ?thesis using shift by (simp add: word_byte_merge)
  next
    case False
    then have "b AND 0xfffffffc \<noteq> a AND 0xfffffffc" by (simp add: align_eq_iff)
    moreover have "\<not> (unat a \<le> unat b \<and> unat b < unat a + ls_size f)"
      using in_access_range[of "unat a" "ls_size f" "unat b"] is_aligned_offset[OF assms(2)] False by simp
    ultimately show ?thesis by (auto simp: byte_at_def w)
  qed
qed

text \<open>So a load reads back what a store of the same size wrote.\<close>

lemma store_load:
  assumes "inv m" "is_aligned a sf" "is_store_funct sf" "is_aligned a lf" "is_load_funct lf"
    and sz: "ls_size lf \<le> ls_size sf"
    and v: "view m (ucast (a AND 0xfffffffc)) = Some (True, v)"
  shows "fst (load_store I Ls_Load lf a y (snd (load_store I Ls_Store sf a x m))) =
    Value (extend_load lf (\<lambda>j. word_byte j x))"
proof -
  let ?m = "snd (load_store I Ls_Store sf a x m)"
  obtain k where k: "store_mask sf (a AND 0x3) = Some k"
    using assms(3) by (auto simp: is_store_funct_def)
  obtain p v' where v': "view ?m (ucast (a AND 0xfffffffc)) = Some (p, v')"
    by (auto simp: store_view[OF assms(1,2) k] view_write_def v)
  have "byte_at (view ?m) (a + of_nat j) = Some (True, word_byte j x)" if "j < ls_size lf" for j
    using that sz by (simp add: store_bytes[OF assms(1,2,3) v] unat_access_byte[OF assms(4)] del: ls_size.simps)
  then have "extend_load lf (\<lambda>j. snd (the (byte_at (view ?m) (a + of_nat j)))) = extend_load lf (\<lambda>j. word_byte j x)"
    by (intro extend_load_cong[OF assms(5)]) simp
  with load_bytes[OF load_store_inv[OF assms(1)] assms(4,5) v'] show ?thesis by simp
qed

subsection \<open>The fetch cache\<close>

lemma fetch_coherent:
  assumes m: "inv m" and c: "cache_coherent (view m) c"
    and r: "inst_fetch I pc (c, m) = (r, c', m')"
  shows "view m' = view m" "cache_coherent (view m) c'"
proof -
  show "view m' = view m"
    using r read_page_view[OF m, of "ucast (page_of pc)"]
    by (auto simp: inst_fetch_def split: if_splits prod.splits expected.splits)
  show "cache_coherent (view m) c'"
    unfolding cache_coherent_def
  proof (intro allI impI)
    fix q assume hit: "cache_hit c' q"
    show "\<exists>p. view m (ucast (q AND 0xfffffffc)) = Some (p, ce_data (c' (cache_idx q)) (word_index q))"
    proof (cases "c' (cache_idx q) = c (cache_idx q)")
      case True
      with hit c show ?thesis by (simp add: cache_coherent_def cache_hit_def)
    next
      case False
      with r hit obtain f where f: "fst (mi_read_page I m (ucast (page_of pc))) = Value f"
        and e: "c' (cache_idx q) = \<lparr>ce_data = f, ce_address = page_of pc, ce_valid = True\<rparr>"
        by (auto simp: inst_fetch_def cache_hit_def split: if_splits prod.splits expected.splits)
      from hit e have q: "page_of q = page_of pc" by (simp add: cache_hit_def)
      from page_value[OF m page_of_aligned f word_index_less[of q]] page_word_address[of q] e q
      show ?thesis by auto
    qed
  qed
qed

lemma inst_fetch_view: "inv m \<Longrightarrow> inst_fetch I pc (c, m) = (r, c', m') \<Longrightarrow> view m' = view m"
  using read_page_view[of m "ucast (page_of pc)"]
  by (auto simp: inst_fetch_def split: if_splits prod.splits expected.splits)

lemma fetch_value:
  assumes m: "inv m" and c: "cache_coherent (view m) c"
    and r: "fst (inst_fetch I pc (c, m)) = Value v"
  shows "pc AND 0x3 = 0 \<and> (\<exists>p. view m (ucast pc) = Some (p, v))"
proof -
  obtain c' m' where r': "inst_fetch I pc (c, m) = (Value v, c', m')" using r by (cases "inst_fetch I pc (c, m)") auto
  have al: "pc AND 0x3 = 0" using r by (auto simp: inst_fetch_def split: if_splits)
  then have pc: "pc AND 0xfffffffc = pc" using word_align_split[of pc] by simp
  have "throws_not": "fetch_error e \<noteq> Value v" for e by (cases e) simp_all
  then have "cache_hit c' pc \<and> v = ce_data (c' (cache_idx pc)) (word_index pc)"
    using r' al by (auto simp: inst_fetch_def cache_hit_def split: if_splits prod.splits expected.splits)
  with fetch_coherent(2)[OF m c r'] al pc show ?thesis by (auto simp: cache_coherent_def)
qed

text \<open>A store outside every cached page leaves the cache coherent.\<close>

lemma store_coherent:
  assumes m: "inv m" and c: "cache_coherent (view m) c" and "is_aligned a f" "is_store_funct f"
    and n: "\<not> cache_hit c a"
  shows "cache_coherent (view (snd (load_store I Ls_Store f a x m))) c"
proof -
  obtain k where k: "store_mask f (a AND 0x3) = Some k"
    using assms(4) by (auto simp: is_store_funct_def)
  have "q AND 0xfffffffc \<noteq> a AND 0xfffffffc" if "cache_hit c q" for q
    using that n cache_hit_align by metis
  with c show ?thesis
    by (auto simp: cache_coherent_def store_view[OF m assms(3) k] view_write_def split: option.splits bool.splits)
qed

end

end
