(* ===== verification/Decode.thy ===== *)
theory Decode
  imports Alu Csr Inst Memory
begin

text \<open>
  \<open>lib/include/core/decode.hpp\<close> and \<open>lib/core/decode.cpp\<close>: the decode result, one function per
  major opcode and the decoder. The designated initialisers of the source become updates of the
  default result.
\<close>

unbundle bit_operations_syntax

section \<open>The decode result\<close>

datatype register_source = Src_None | Src_Pc_plus_4 | Src_Alu | Src_Memory | Src_Csr

record decode_result =
  dr_writeback_source :: register_source
  dr_dest_register :: "5 bitset"
  dr_alu_opcode :: alu_opcode
  dr_alu_num1 :: u32
  dr_alu_num2 :: u32
  dr_branch_opcode :: branch_opcode
  dr_branch_num1 :: u32
  dr_branch_num2 :: u32
  dr_memory_opcode :: ls_opcode
  dr_memory_funct :: ls_funct
  dr_memory_store_value :: u32
  dr_fencei :: bool
  dr_ecall :: bool
  dr_mret :: bool
  dr_csr_access_info :: csr_access_info

definition decode_result_default :: decode_result where
  "decode_result_default =
     \<lparr>dr_writeback_source = Src_None, dr_dest_register = bs_of 0,
      dr_alu_opcode = Alu_Add, dr_alu_num1 = 0, dr_alu_num2 = 0,
      dr_branch_opcode = Br_None, dr_branch_num1 = 0, dr_branch_num2 = 0,
      dr_memory_opcode = Ls_None, dr_memory_funct = Funct_None, dr_memory_store_value = 0,
      dr_fencei = False, dr_ecall = False, dr_mret = False,
      dr_csr_access_info = csr_access_info_default\<rparr>"

section \<open>One function per major opcode\<close>

datatype opcode =
    Op_Lui | Op_Auipc | Op_Jal | Op_Jalr | Op_Branch | Op_Load | Op_Store
  | Op_Reg_imm_arithmetic | Op_Reg_reg_arithmetic | Op_Misc_mem | Op_System

text \<open>The cast of the five opcode bits to the enumeration; other values match no case.\<close>

definition opcode_of :: "5 bitset \<Rightarrow> opcode option" where
  "opcode_of b =
     (let v = bs_nat b in
      if v = 0b01101 then Some Op_Lui
      else if v = 0b00101 then Some Op_Auipc
      else if v = 0b11011 then Some Op_Jal
      else if v = 0b11001 then Some Op_Jalr
      else if v = 0b11000 then Some Op_Branch
      else if v = 0b00000 then Some Op_Load
      else if v = 0b01000 then Some Op_Store
      else if v = 0b00100 then Some Op_Reg_imm_arithmetic
      else if v = 0b01100 then Some Op_Reg_reg_arithmetic
      else if v = 0b00011 then Some Op_Misc_mem
      else if v = 0b11100 then Some Op_System
      else None)"

definition decode_lui :: "32 bitset \<Rightarrow> decode_result" where
  "decode_lui instr =
     (let utype = Utype instr in
      decode_result_default\<lparr>
        dr_writeback_source := Src_Alu,
        dr_dest_register := ut_rd utype,
        dr_alu_opcode := Alu_Add,
        dr_alu_num1 := bs_u32 (ut_imm utype),
        dr_alu_num2 := 0\<rparr>)"

definition decode_auipc :: "32 bitset \<Rightarrow> u32 \<Rightarrow> decode_result" where
  "decode_auipc instr pc =
     (let utype = Utype instr in
      decode_result_default\<lparr>
        dr_writeback_source := Src_Alu,
        dr_dest_register := ut_rd utype,
        dr_alu_opcode := Alu_Add,
        dr_alu_num1 := pc,
        dr_alu_num2 := bs_u32 (ut_imm utype)\<rparr>)"

definition decode_jal :: "32 bitset \<Rightarrow> u32 \<Rightarrow> decode_result" where
  "decode_jal instr pc =
     (let jtype = Jtype instr in
      decode_result_default\<lparr>
        dr_writeback_source := Src_Pc_plus_4,
        dr_dest_register := jt_rd jtype,
        dr_alu_opcode := Alu_Add,
        dr_alu_num1 := pc,
        dr_alu_num2 := bs_u32 (jt_imm jtype),
        dr_branch_opcode := Br_Eq,
        dr_branch_num1 := 0,
        dr_branch_num2 := 0\<rparr>)"

definition decode_jalr :: "register_file \<Rightarrow> 32 bitset \<Rightarrow> decode_result" where
  "decode_jalr rf instr =
     (let itype = Itype instr in
      decode_result_default\<lparr>
        dr_writeback_source := Src_Pc_plus_4,
        dr_dest_register := it_rd itype,
        dr_alu_opcode := Alu_Add,
        dr_alu_num1 := get_register (it_rs1 itype) rf,
        dr_alu_num2 := bs_u32 (it_imm itype),
        dr_branch_opcode := Br_Eq,
        dr_branch_num1 := 0,
        dr_branch_num2 := 0\<rparr>)"

definition decode_load :: "register_file \<Rightarrow> 32 bitset \<Rightarrow> decode_result" where
  "decode_load rf instr =
     (let itype = Itype instr;
          memory_opcode_list =
            [Load_byte, Load_halfword, Load_word, Funct_None,
             Load_byte_unsigned, Load_halfword_unsigned, Funct_None, Funct_None]
      in decode_result_default\<lparr>
        dr_writeback_source := Src_Memory,
        dr_dest_register := it_rd itype,
        dr_alu_opcode := Alu_Add,
        dr_alu_num1 := get_register (it_rs1 itype) rf,
        dr_alu_num2 := bs_u32 (it_imm itype),
        dr_memory_opcode := Ls_Load,
        dr_memory_funct := memory_opcode_list ! bs_nat (it_funct3 itype)\<rparr>)"

definition decode_store :: "register_file \<Rightarrow> 32 bitset \<Rightarrow> decode_result" where
  "decode_store rf instr =
     (let stype = Stype instr;
          funct3 = bs_nat (st_funct3 stype);
          memory_funct =
            (if funct3 = 0b000 then Store_byte
             else if funct3 = 0b001 then Store_halfword
             else if funct3 = 0b010 then Store_word
             else Funct_None)
      in decode_result_default\<lparr>
        dr_writeback_source := Src_None,
        dr_alu_opcode := Alu_Add,
        dr_alu_num1 := get_register (st_rs1 stype) rf,
        dr_alu_num2 := bs_u32 (st_imm stype),
        dr_memory_opcode := Ls_Store,
        dr_memory_funct := memory_funct,
        dr_memory_store_value := get_register (st_rs2 stype) rf\<rparr>)"

definition decode_register_imm :: "register_file \<Rightarrow> 32 bitset \<Rightarrow> decode_result" where
  "decode_register_imm rf instr =
     (let itype = Itype instr;
          opc =
            [Alu_Add, Alu_Sll, Alu_Slt, Alu_Sltu, Alu_Xor,
             if bs_bool (bs_take_bit 30 instr) then Alu_Sra else Alu_Srl, Alu_Or, Alu_And]
      in decode_result_default\<lparr>
        dr_writeback_source := Src_Alu,
        dr_dest_register := it_rd itype,
        dr_alu_opcode := opc ! bs_nat (it_funct3 itype),
        dr_alu_num1 := get_register (it_rs1 itype) rf,
        dr_alu_num2 := bs_u32 (it_imm itype)\<rparr>)"

definition decode_register_register :: "register_file \<Rightarrow> 32 bitset \<Rightarrow> trap + decode_result" where
  "decode_register_register rf instr =
     (let rtype = Rtype instr;
          funct7_select = bs_nat (bs_slice 2 0 (rt_funct7 rtype) :: 3 bitset);
          funct3 = bs_nat (rt_funct3 rtype);
          opc =
            (if funct7_select = 0b000 then
               Some ([if bs_bool (bs_take_bit 30 instr) then Alu_Sub else Alu_Add,
                      Alu_Sll, Alu_Slt, Alu_Sltu, Alu_Xor,
                      if bs_bool (bs_take_bit 30 instr) then Alu_Sra else Alu_Srl,
                      Alu_Or, Alu_And] ! funct3)
             else if funct7_select = 0b001 then
               Some ([Alu_Mul, Alu_Mulh, Alu_Mulhsu, Alu_Mulhu,
                      Alu_Div, Alu_Divu, Alu_Rem, Alu_Remu] ! funct3)
             else if funct7_select = 0b111 then
               (if funct3 = 0b101 then Some Alu_Czero_eqz
                else if funct3 = 0b111 then Some Alu_Czero_nez
                else None)
             else None)
      in case opc of
           None \<Rightarrow> Inl Illegal_instruction
         | Some op \<Rightarrow> Inr (decode_result_default\<lparr>
             dr_writeback_source := Src_Alu,
             dr_dest_register := rt_rd rtype,
             dr_alu_opcode := op,
             dr_alu_num1 := get_register (rt_rs1 rtype) rf,
             dr_alu_num2 := get_register (rt_rs2 rtype) rf\<rparr>))"

definition decode_branch :: "register_file \<Rightarrow> 32 bitset \<Rightarrow> u32 \<Rightarrow> decode_result" where
  "decode_branch rf instr pc =
     (let btype = Btype instr;
          opc = [Br_Eq, Br_Ne, Br_None, Br_None, Br_Lt, Br_Ge, Br_Ltu, Br_Geu]
      in decode_result_default\<lparr>
        dr_writeback_source := Src_None,
        dr_alu_opcode := Alu_Add,
        dr_alu_num1 := pc,
        dr_alu_num2 := bs_u32 (bt_imm btype),
        dr_branch_opcode := opc ! bs_nat (bt_funct3 btype),
        dr_branch_num1 := get_register (bt_rs1 btype) rf,
        dr_branch_num2 := get_register (bt_rs2 btype) rf\<rparr>)"

definition decode_misc_mem :: "32 bitset \<Rightarrow> trap + decode_result" where
  "decode_misc_mem instr =
     (let itype = Itype instr in
      if bs_eq_int (it_funct3 itype) 0b001 then Inr (decode_result_default\<lparr>dr_fencei := True\<rparr>)
      else Inl Illegal_instruction)"

text \<open>
  The system opcode. \<open>funct3\<close> 000 is told apart by the low 16 bits of the sign-extended
  immediate; 100 is rejected before the CSR fields are read.
\<close>

definition decode_system :: "register_file \<Rightarrow> 32 bitset \<Rightarrow> trap + decode_result" where
  "decode_system rf instr =
     (let itype = Itype instr;
          result = decode_result_default;
          funct3 = bs_nat (it_funct3 itype)
      in if bs_eq_int (it_funct3 itype) 0b000 then
           (let imm = ucast (bs_value (it_imm itype)) :: u16 in
            if imm = 0b000000000000 then Inr (result\<lparr>dr_ecall := True\<rparr>)
            else if imm = 0b001100000010 then Inr (result\<lparr>dr_mret := True\<rparr>)
            else Inl Illegal_instruction)
         else if funct3 \<notin> {0b001, 0b010, 0b011, 0b101, 0b110, 0b111} then Inl Illegal_instruction
         else
           (let csr_do_write = (\<not> bs_eq_int (it_rs1 itype) 0);
                value = (if bs_bool (bs_take_bit 2 (it_funct3 itype))
                         then bs_u32 (bs_sext (it_rs1 itype) :: 32 bitset)
                         else get_register (it_rs1 itype) rf);
                access = \<lambda>mode read. result\<lparr>
                  dr_writeback_source := Src_Csr,
                  dr_csr_access_info := \<lparr>ai_write_mode = mode,
                    ai_address = bs_slice 11 0 (it_imm itype), ai_write_value = value, ai_read = read\<rparr>,
                  dr_dest_register := it_rd itype\<rparr>;
                select = bs_nat (bs_slice 1 0 (it_funct3 itype) :: 2 bitset)
            in if select = 0b01 then
                 Inr (access (if csr_do_write then Wm_Overwrite else Wm_None) (\<not> bs_eq_int (it_rd itype) 0))
               else if select = 0b10 then
                 Inr (access (if csr_do_write then Wm_Set else Wm_None) True)
               else if select = 0b11 then
                 Inr (access (if csr_do_write then Wm_Clear else Wm_None) True)
               else Inl Illegal_instruction))"

section \<open>The decoder\<close>

definition inst_decode :: "register_file \<Rightarrow> u32 \<Rightarrow> u32 \<Rightarrow> trap + decode_result" where
  "inst_decode rf instr pc =
     (let instr_bitset = instr_bits instr;
          opc = (bs_slice 6 2 instr_bitset :: 5 bitset);
          len = (bs_slice 1 0 instr_bitset :: 2 bitset)
      in if \<not> bs_eq_int len 0b11 then Inl Illegal_instruction
         else case opcode_of opc of
           Some Op_Lui \<Rightarrow> Inr (decode_lui instr_bitset)
         | Some Op_Auipc \<Rightarrow> Inr (decode_auipc instr_bitset pc)
         | Some Op_Jal \<Rightarrow> Inr (decode_jal instr_bitset pc)
         | Some Op_Jalr \<Rightarrow> Inr (decode_jalr rf instr_bitset)
         | Some Op_Load \<Rightarrow> Inr (decode_load rf instr_bitset)
         | Some Op_Store \<Rightarrow> Inr (decode_store rf instr_bitset)
         | Some Op_Reg_imm_arithmetic \<Rightarrow> Inr (decode_register_imm rf instr_bitset)
         | Some Op_Reg_reg_arithmetic \<Rightarrow> decode_register_register rf instr_bitset
         | Some Op_Branch \<Rightarrow> Inr (decode_branch rf instr_bitset pc)
         | Some Op_Misc_mem \<Rightarrow> decode_misc_mem instr_bitset
         | Some Op_System \<Rightarrow> decode_system rf instr_bitset
         | None \<Rightarrow> Inl Illegal_instruction)"

end
