(* ===== verification/Isa.thy ===== *)
theory Isa
  imports Decode
begin

text \<open>
  The instruction set as the RISC-V unprivileged and privileged manuals give it: an instruction
  is a term of \<open>rv_instr\<close>, \<open>rv_encode\<close> its 32-bit word and \<open>rv_op_value\<close> the arithmetic of each
  register-register operation on mathematical integers. The theory shows that the decoder of
  \<open>lib/core/decode.cpp\<close> recovers every instruction from its word, and that the ALU computes the
  manual's values.
\<close>

unbundle bit_operations_syntax

section \<open>Instructions\<close>

type_synonym reg = "5 word"

datatype rv_branch = BEQ | BNE | BLT | BGE | BLTU | BGEU
datatype rv_load = LB | LH | LW | LBU | LHU
datatype rv_store = SB | SH | SW
datatype rv_opi = ADDI | SLTI | SLTIU | XORI | ORI | ANDI
datatype rv_shift = SLLI | SRLI | SRAI
datatype rv_op =
    R_ADD | R_SUB | R_SLL | R_SLT | R_SLTU | R_XOR | R_SRL | R_SRA | R_OR | R_AND
  | R_MUL | R_MULH | R_MULHSU | R_MULHU | R_DIV | R_DIVU | R_REM | R_REMU
  | R_CZERO_EQZ | R_CZERO_NEZ
datatype rv_csr = CSRRW | CSRRS | CSRRC
datatype rv_operand = Rs reg | Uimm "5 word"

datatype rv_instr =
    LUI reg "20 word"
  | AUIPC reg "20 word"
  | JAL reg "21 word"
  | JALR reg reg "12 word"
  | BRANCH rv_branch reg reg "13 word"
  | LOAD rv_load reg reg "12 word"
  | STORE rv_store reg reg "12 word"
  | OPI rv_opi reg reg "12 word"
  | SHIFT rv_shift reg reg "5 word"
  | OPR rv_op reg reg reg
  | FENCE_I
  | ECALL
  | MRET
  | CSR rv_csr reg rv_operand "12 word"

fun branch_funct3 :: "rv_branch \<Rightarrow> 3 word" where
  "branch_funct3 BEQ = 0"
| "branch_funct3 BNE = 1"
| "branch_funct3 BLT = 4"
| "branch_funct3 BGE = 5"
| "branch_funct3 BLTU = 6"
| "branch_funct3 BGEU = 7"

fun load_funct3 :: "rv_load \<Rightarrow> 3 word" where
  "load_funct3 LB = 0"
| "load_funct3 LH = 1"
| "load_funct3 LW = 2"
| "load_funct3 LBU = 4"
| "load_funct3 LHU = 5"

fun store_funct3 :: "rv_store \<Rightarrow> 3 word" where
  "store_funct3 SB = 0"
| "store_funct3 SH = 1"
| "store_funct3 SW = 2"

fun opi_funct3 :: "rv_opi \<Rightarrow> 3 word" where
  "opi_funct3 ADDI = 0"
| "opi_funct3 SLTI = 2"
| "opi_funct3 SLTIU = 3"
| "opi_funct3 XORI = 4"
| "opi_funct3 ORI = 6"
| "opi_funct3 ANDI = 7"

text \<open>The shift immediates: \<open>funct3\<close>, and the upper seven bits of the immediate field.\<close>

fun shift_functs :: "rv_shift \<Rightarrow> 7 word \<times> 3 word" where
  "shift_functs SLLI = (0, 1)"
| "shift_functs SRLI = (0, 5)"
| "shift_functs SRAI = (0x20, 5)"

fun op_functs :: "rv_op \<Rightarrow> 7 word \<times> 3 word" where
  "op_functs R_ADD = (0, 0)"
| "op_functs R_SUB = (0x20, 0)"
| "op_functs R_SLL = (0, 1)"
| "op_functs R_SLT = (0, 2)"
| "op_functs R_SLTU = (0, 3)"
| "op_functs R_XOR = (0, 4)"
| "op_functs R_SRL = (0, 5)"
| "op_functs R_SRA = (0x20, 5)"
| "op_functs R_OR = (0, 6)"
| "op_functs R_AND = (0, 7)"
| "op_functs R_MUL = (1, 0)"
| "op_functs R_MULH = (1, 1)"
| "op_functs R_MULHSU = (1, 2)"
| "op_functs R_MULHU = (1, 3)"
| "op_functs R_DIV = (1, 4)"
| "op_functs R_DIVU = (1, 5)"
| "op_functs R_REM = (1, 6)"
| "op_functs R_REMU = (1, 7)"
| "op_functs R_CZERO_EQZ = (7, 5)"
| "op_functs R_CZERO_NEZ = (7, 7)"

fun csr_funct3 :: "rv_csr \<Rightarrow> rv_operand \<Rightarrow> 3 word" where
  "csr_funct3 CSRRW (Rs _) = 1"
| "csr_funct3 CSRRS (Rs _) = 2"
| "csr_funct3 CSRRC (Rs _) = 3"
| "csr_funct3 CSRRW (Uimm _) = 5"
| "csr_funct3 CSRRS (Uimm _) = 6"
| "csr_funct3 CSRRC (Uimm _) = 7"

fun operand_field :: "rv_operand \<Rightarrow> 5 word" where
  "operand_field (Rs r) = r"
| "operand_field (Uimm u) = u"

fun rv_encode :: "rv_instr \<Rightarrow> u32" where
  "rv_encode (LUI rd imm) = enc_u imm rd 0b0110111"
| "rv_encode (AUIPC rd imm) = enc_u imm rd 0b0010111"
| "rv_encode (JAL rd off) = enc_j off rd 0b1101111"
| "rv_encode (JALR rd rs1 imm) = enc_i imm rs1 0 rd 0b1100111"
| "rv_encode (BRANCH b rs1 rs2 off) = enc_b off rs2 rs1 (branch_funct3 b) 0b1100011"
| "rv_encode (LOAD l rd rs1 imm) = enc_i imm rs1 (load_funct3 l) rd 0b0000011"
| "rv_encode (STORE s rs1 rs2 imm) = enc_s imm rs2 rs1 (store_funct3 s) 0b0100011"
| "rv_encode (OPI opi rd rs1 imm) = enc_i imm rs1 (opi_funct3 opi) rd 0b0010011"
| "rv_encode (SHIFT sh rd rs1 shamt) =
     enc_i (word_cat (fst (shift_functs sh)) shamt) rs1 (snd (shift_functs sh)) rd 0b0010011"
| "rv_encode (OPR opr rd rs1 rs2) =
     enc_r (fst (op_functs opr)) rs2 rs1 (snd (op_functs opr)) rd 0b0110011"
| "rv_encode FENCE_I = enc_i 0 0 1 0 0b0001111"
| "rv_encode ECALL = enc_i 0 0 0 0 0b1110011"
| "rv_encode MRET = enc_i 0b001100000010 0 0 0 0b1110011"
| "rv_encode (CSR c rd src a) = enc_i a (operand_field src) (csr_funct3 c src) rd 0b1110011"

section \<open>What the decoder makes of them\<close>

definition reg_bits :: "reg \<Rightarrow> 5 bitset" where
  "reg_bits r = bs_lit r"

definition xreg :: "register_file \<Rightarrow> reg \<Rightarrow> u32" where
  "xreg rf r = get_register (reg_bits r) rf"

fun branch_op :: "rv_branch \<Rightarrow> branch_opcode" where
  "branch_op BEQ = Br_Eq"
| "branch_op BNE = Br_Ne"
| "branch_op BLT = Br_Lt"
| "branch_op BGE = Br_Ge"
| "branch_op BLTU = Br_Ltu"
| "branch_op BGEU = Br_Geu"

fun load_funct :: "rv_load \<Rightarrow> ls_funct" where
  "load_funct LB = Load_byte"
| "load_funct LH = Load_halfword"
| "load_funct LW = Load_word"
| "load_funct LBU = Load_byte_unsigned"
| "load_funct LHU = Load_halfword_unsigned"

fun store_funct :: "rv_store \<Rightarrow> ls_funct" where
  "store_funct SB = Store_byte"
| "store_funct SH = Store_halfword"
| "store_funct SW = Store_word"

fun opi_op :: "rv_opi \<Rightarrow> rv_op" where
  "opi_op ADDI = R_ADD"
| "opi_op SLTI = R_SLT"
| "opi_op SLTIU = R_SLTU"
| "opi_op XORI = R_XOR"
| "opi_op ORI = R_OR"
| "opi_op ANDI = R_AND"

fun shift_op :: "rv_shift \<Rightarrow> rv_op" where
  "shift_op SLLI = R_SLL"
| "shift_op SRLI = R_SRL"
| "shift_op SRAI = R_SRA"

fun alu_op :: "rv_op \<Rightarrow> alu_opcode" where
  "alu_op R_ADD = Alu_Add"
| "alu_op R_SUB = Alu_Sub"
| "alu_op R_SLL = Alu_Sll"
| "alu_op R_SLT = Alu_Slt"
| "alu_op R_SLTU = Alu_Sltu"
| "alu_op R_XOR = Alu_Xor"
| "alu_op R_SRL = Alu_Srl"
| "alu_op R_SRA = Alu_Sra"
| "alu_op R_OR = Alu_Or"
| "alu_op R_AND = Alu_And"
| "alu_op R_MUL = Alu_Mul"
| "alu_op R_MULH = Alu_Mulh"
| "alu_op R_MULHSU = Alu_Mulhsu"
| "alu_op R_MULHU = Alu_Mulhu"
| "alu_op R_DIV = Alu_Div"
| "alu_op R_DIVU = Alu_Divu"
| "alu_op R_REM = Alu_Rem"
| "alu_op R_REMU = Alu_Remu"
| "alu_op R_CZERO_EQZ = Alu_Czero_eqz"
| "alu_op R_CZERO_NEZ = Alu_Czero_nez"

fun csr_mode :: "rv_csr \<Rightarrow> csr_write_mode" where
  "csr_mode CSRRW = Wm_Overwrite"
| "csr_mode CSRRS = Wm_Set"
| "csr_mode CSRRC = Wm_Clear"

text \<open>
  The operand of a CSR instruction as the decoder forms it: the 5-bit immediate is sign extended.
\<close>

fun csr_operand :: "register_file \<Rightarrow> rv_operand \<Rightarrow> u32" where
  "csr_operand rf (Rs r) = xreg rf r"
| "csr_operand rf (Uimm u) = scast u"

abbreviation alu_result :: "reg \<Rightarrow> alu_opcode \<Rightarrow> u32 \<Rightarrow> u32 \<Rightarrow> decode_result" where
  "alu_result rd opc x y \<equiv> decode_result_default\<lparr>
     dr_writeback_source := Src_Alu, dr_dest_register := reg_bits rd,
     dr_alu_opcode := opc, dr_alu_num1 := x, dr_alu_num2 := y\<rparr>"

fun rv_decoded :: "register_file \<Rightarrow> u32 \<Rightarrow> rv_instr \<Rightarrow> decode_result" where
  "rv_decoded rf pc (LUI rd imm) = alu_result rd Alu_Add (push_bit 12 (ucast imm)) 0"
| "rv_decoded rf pc (AUIPC rd imm) = alu_result rd Alu_Add pc (push_bit 12 (ucast imm))"
| "rv_decoded rf pc (JAL rd off) =
     (alu_result rd Alu_Add pc (scast (off AND NOT 1)))\<lparr>
       dr_writeback_source := Src_Pc_plus_4, dr_branch_opcode := Br_Eq\<rparr>"
| "rv_decoded rf pc (JALR rd rs1 imm) =
     (alu_result rd Alu_Add (xreg rf rs1) (scast imm))\<lparr>
       dr_writeback_source := Src_Pc_plus_4, dr_branch_opcode := Br_Eq\<rparr>"
| "rv_decoded rf pc (BRANCH b rs1 rs2 off) =
     decode_result_default\<lparr>
       dr_alu_num1 := pc, dr_alu_num2 := scast (off AND NOT 1),
       dr_branch_opcode := branch_op b, dr_branch_num1 := xreg rf rs1, dr_branch_num2 := xreg rf rs2\<rparr>"
| "rv_decoded rf pc (LOAD l rd rs1 imm) =
     (alu_result rd Alu_Add (xreg rf rs1) (scast imm))\<lparr>
       dr_writeback_source := Src_Memory, dr_memory_opcode := Ls_Load, dr_memory_funct := load_funct l\<rparr>"
| "rv_decoded rf pc (STORE s rs1 rs2 imm) =
     decode_result_default\<lparr>
       dr_alu_num1 := xreg rf rs1, dr_alu_num2 := scast imm,
       dr_memory_opcode := Ls_Store, dr_memory_funct := store_funct s,
       dr_memory_store_value := xreg rf rs2\<rparr>"
| "rv_decoded rf pc (OPI opi rd rs1 imm) =
     alu_result rd (alu_op (opi_op opi)) (xreg rf rs1) (scast imm)"
| "rv_decoded rf pc (SHIFT sh rd rs1 shamt) =
     alu_result rd (alu_op (shift_op sh)) (xreg rf rs1)
       (scast (word_cat (fst (shift_functs sh)) shamt :: 12 word))"
| "rv_decoded rf pc (OPR opr rd rs1 rs2) =
     alu_result rd (alu_op opr) (xreg rf rs1) (xreg rf rs2)"
| "rv_decoded rf pc FENCE_I = decode_result_default\<lparr>dr_fencei := True\<rparr>"
| "rv_decoded rf pc ECALL = decode_result_default\<lparr>dr_ecall := True\<rparr>"
| "rv_decoded rf pc MRET = decode_result_default\<lparr>dr_mret := True\<rparr>"
| "rv_decoded rf pc (CSR c rd src a) =
     decode_result_default\<lparr>
       dr_writeback_source := Src_Csr,
       dr_csr_access_info :=
         \<lparr>ai_write_mode = (if operand_field src = 0 then Wm_None else csr_mode c),
          ai_address = bs_lit a,
          ai_write_value = csr_operand rf src,
          ai_read = (c \<noteq> CSRRW \<or> rd \<noteq> 0)\<rparr>,
       dr_dest_register := reg_bits rd\<rparr>"

section \<open>The decoder recovers every instruction\<close>

lemma low_bits_opcode:
  assumes "\<And>i. i < 7 \<Longrightarrow> bit w i = bit (opc :: 7 word) i"
  shows "(bs_slice 6 2 (instr_bits w) :: 5 bitset) = bs_lit (ucast (drop_bit 2 opc))"
    and "(bs_slice (Suc 0) 0 (instr_bits w) :: 2 bitset) = bs_lit (ucast opc)"
proof -
  show "(bs_slice 6 2 (instr_bits w) :: 5 bitset) = bs_lit (ucast (drop_bit 2 opc))"
    by (rule bitset.expand, rule bit_word_eqI)
      (auto simp: bit_bs_slice bit_bs_lit bit_instr_bits bit_simps assms)
  show "(bs_slice (Suc 0) 0 (instr_bits w) :: 2 bitset) = bs_lit (ucast opc)"
    by (rule bitset.expand, rule bit_word_eqI)
      (auto simp: bit_bs_slice bit_bs_lit bit_instr_bits bit_simps assms)
qed

lemma enc_low_bits:
  "i < 7 \<Longrightarrow> bit (enc_r f7 rs2 rs1 f3 rd opc) i = bit opc i"
  "i < 7 \<Longrightarrow> bit (enc_i imm rs1 f3 rd opc) i = bit opc i"
  "i < 7 \<Longrightarrow> bit (enc_s imm rs2 rs1 f3 opc) i = bit opc i"
  "i < 7 \<Longrightarrow> bit (enc_b off rs2 rs1 f3 opc) i = bit opc i"
  "i < 7 \<Longrightarrow> bit (enc_u uimm rd opc) i = bit opc i"
  "i < 7 \<Longrightarrow> bit (enc_j joff rd opc) i = bit opc i"
  by (auto simp: enc_defs bit_simps)

lemmas enc_opcode = low_bits_opcode[OF enc_low_bits(1)] low_bits_opcode[OF enc_low_bits(2)]
  low_bits_opcode[OF enc_low_bits(3)] low_bits_opcode[OF enc_low_bits(4)]
  low_bits_opcode[OF enc_low_bits(5)] low_bits_opcode[OF enc_low_bits(6)]

lemma enc_bit30:
  "bit (bs_value (instr_bits (enc_r f7 rs2 rs1 f3 rd opc))) 30 = bit f7 5"
  "bit (bs_value (instr_bits (enc_i imm rs1 f3 rd opc))) 30 = bit imm 10"
  by (simp_all add: bit_instr_bits enc_defs bit_simps bit_word_leD)

lemma rtype_fields:
  "rt_funct7 (Rtype (instr_bits (enc_r f7 rs2 rs1 f3 rd opc))) = bs_lit f7"
  "rt_rs2 (Rtype (instr_bits (enc_r f7 rs2 rs1 f3 rd opc))) = reg_bits rs2"
  "rt_rs1 (Rtype (instr_bits (enc_r f7 rs2 rs1 f3 rd opc))) = reg_bits rs1"
  "rt_funct3 (Rtype (instr_bits (enc_r f7 rs2 rs1 f3 rd opc))) = bs_lit f3"
  "rt_rd (Rtype (instr_bits (enc_r f7 rs2 rs1 f3 rd opc))) = reg_bits rd"
  unfolding reg_bits_def by (rule bs_litI; simp add: rtype_enc_r)+

lemma itype_fields:
  "it_rs1 (Itype (instr_bits (enc_i imm rs1 f3 rd opc))) = reg_bits rs1"
  "it_funct3 (Itype (instr_bits (enc_i imm rs1 f3 rd opc))) = bs_lit f3"
  "it_rd (Itype (instr_bits (enc_i imm rs1 f3 rd opc))) = reg_bits rd"
  "it_imm (Itype (instr_bits (enc_i imm rs1 f3 rd opc))) = bs_lit (scast imm)"
  unfolding reg_bits_def by (rule bs_litI; simp add: itype_enc_i)+

lemma stype_fields:
  "st_rs1 (Stype (instr_bits (enc_s imm rs2 rs1 f3 opc))) = reg_bits rs1"
  "st_rs2 (Stype (instr_bits (enc_s imm rs2 rs1 f3 opc))) = reg_bits rs2"
  "st_funct3 (Stype (instr_bits (enc_s imm rs2 rs1 f3 opc))) = bs_lit f3"
  "st_imm (Stype (instr_bits (enc_s imm rs2 rs1 f3 opc))) = bs_lit (scast imm)"
  unfolding reg_bits_def by (rule bs_litI; simp add: stype_enc_s)+

lemma btype_fields:
  "bt_rs1 (Btype (instr_bits (enc_b off rs2 rs1 f3 opc))) = reg_bits rs1"
  "bt_rs2 (Btype (instr_bits (enc_b off rs2 rs1 f3 opc))) = reg_bits rs2"
  "bt_funct3 (Btype (instr_bits (enc_b off rs2 rs1 f3 opc))) = bs_lit f3"
  "bt_imm (Btype (instr_bits (enc_b off rs2 rs1 f3 opc))) = bs_lit (scast (off AND NOT 1))"
  unfolding reg_bits_def by (rule bs_litI; simp add: btype_enc_b btype_enc_b_imm)+

lemma ujtype_fields:
  "ut_rd (Utype (instr_bits (enc_u imm rd opc))) = reg_bits rd"
  "ut_imm (Utype (instr_bits (enc_u imm rd opc))) = bs_lit (push_bit 12 (ucast imm))"
  "jt_rd (Jtype (instr_bits (enc_j off rd opc))) = reg_bits rd"
  "jt_imm (Jtype (instr_bits (enc_j off rd opc))) = bs_lit (scast (off AND NOT 1))"
  unfolding reg_bits_def by (rule bs_litI; simp add: utype_enc_u jtype_enc_j_rd jtype_enc_j_imm)+

lemmas enc_fields = rtype_fields itype_fields stype_fields btype_fields ujtype_fields

lemma csr_field_words:
  "bs_u32 (bs_sext (bs_lit u :: 5 bitset) :: 32 bitset) = scast u"
  "ucast (scast (a :: 12 word) :: u32) = a"
proof -
  show "bs_u32 (bs_sext (bs_lit u :: 5 bitset) :: 32 bitset) = scast u"
    by (simp add: bs_u32_word bs_word_sext)
  show "ucast (scast (a :: 12 word) :: u32) = a"
  proof (rule bit_word_eqI)
    fix n assume "n < LENGTH(12)"
    then have "min n 11 = n" by simp
    then show "bit (ucast (scast a :: u32) :: 12 word) n = bit a n"
      using \<open>n < LENGTH(12)\<close> by (simp add: bit_simps bit_signed_iff)
  qed
qed

lemmas decode_simps = inst_decode_def decode_result_default_def bs_slice_lit enc_bit30 reg_bits_def bs_value_lit csr_field_words Let_def enc_opcode opcode_of_def enc_fields xreg_def bit_bs_lit
  decode_lui_def decode_auipc_def decode_jal_def decode_jalr_def decode_load_def decode_store_def
  decode_register_imm_def decode_register_register_def decode_branch_def decode_misc_mem_def
  decode_system_def

lemma decode_u:
  "inst_decode rf (rv_encode (LUI rd imm)) pc = Inr (rv_decoded rf pc (LUI rd imm))"
  "inst_decode rf (rv_encode (AUIPC rd imm)) pc = Inr (rv_decoded rf pc (AUIPC rd imm))"
  "inst_decode rf (rv_encode (JAL rd off)) pc = Inr (rv_decoded rf pc (JAL rd off))"
  "inst_decode rf (rv_encode (JALR rd rs1 iimm)) pc = Inr (rv_decoded rf pc (JALR rd rs1 iimm))"
  by (simp_all add: decode_simps)

lemma decode_load:
  "inst_decode rf (rv_encode (LOAD l rd rs1 imm)) pc = Inr (rv_decoded rf pc (LOAD l rd rs1 imm))"
  by (cases l; simp add: decode_simps)

lemma decode_store:
  "inst_decode rf (rv_encode (STORE st rs1 rs2 imm)) pc = Inr (rv_decoded rf pc (STORE st rs1 rs2 imm))"
  by (cases st; simp add: decode_simps)

lemma decode_branch:
  "inst_decode rf (rv_encode (BRANCH b rs1 rs2 off)) pc = Inr (rv_decoded rf pc (BRANCH b rs1 rs2 off))"
  by (cases b; simp add: decode_simps)

lemma decode_opi:
  "inst_decode rf (rv_encode (OPI opi rd rs1 imm)) pc = Inr (rv_decoded rf pc (OPI opi rd rs1 imm))"
  by (cases opi; simp add: decode_simps)

lemma decode_shift:
  "inst_decode rf (rv_encode (SHIFT sh rd rs1 shamt)) pc = Inr (rv_decoded rf pc (SHIFT sh rd rs1 shamt))"
  by (cases sh; simp add: decode_simps bit_simps bit_word_leD)

lemma decode_opr:
  "inst_decode rf (rv_encode (OPR opr rd rs1 rs2)) pc = Inr (rv_decoded rf pc (OPR opr rd rs1 rs2))"
  by (cases opr; simp add: decode_simps)

lemma decode_system_ops:
  "inst_decode rf (rv_encode FENCE_I) pc = Inr (rv_decoded rf pc FENCE_I)"
  "inst_decode rf (rv_encode ECALL) pc = Inr (rv_decoded rf pc ECALL)"
  "inst_decode rf (rv_encode MRET) pc = Inr (rv_decoded rf pc MRET)"
  by (simp_all add: decode_simps)

lemma decode_csr:
  "inst_decode rf (rv_encode (CSR c rd src a)) pc = Inr (rv_decoded rf pc (CSR c rd src a))"
  by (cases c; cases src; simp add: decode_simps)

text \<open>Every instruction is recovered from its word.\<close>

lemma decode_encode: "inst_decode rf (rv_encode i) pc = Inr (rv_decoded rf pc i)"
  by (cases i) (simp_all only: decode_u decode_load decode_store decode_branch decode_opi decode_shift
    decode_opr decode_system_ops decode_csr)

section \<open>What the decoder guarantees of any word\<close>

lemma nth_lookup: "n < length xs \<Longrightarrow> xs ! n \<in> set xs"
  by simp

lemma bs_nat_3: "bs_inv a \<Longrightarrow> bs_nat (a :: 3 bitset) < 8"
  using bs_nat_less[of a] by simp

text \<open>
  The only trap is the illegal instruction; a decoded result names a register below 32, asks the
  load/store module only for what it accepts, never asks for memory and a CSR at once, and does not
  branch when it returns from a trap.
\<close>

definition decode_ok :: "decode_result \<Rightarrow> bool" where
  "decode_ok d \<longleftrightarrow>
     bs_inv (dr_dest_register d) \<and> ls_matches (dr_memory_opcode d) (dr_memory_funct d)
     \<and> (dr_memory_opcode d = Ls_None
        \<or> ai_write_mode (dr_csr_access_info d) = Wm_None \<and> \<not> ai_read (dr_csr_access_info d))
     \<and> (dr_mret d \<longrightarrow> dr_branch_opcode d = Br_None)"

lemma decode_load_funct:
  "n < 8 \<Longrightarrow> ls_matches Ls_Load ([Load_byte, Load_halfword, Load_word, Funct_None,
     Load_byte_unsigned, Load_halfword_unsigned, Funct_None, Funct_None] ! n)"
  using nth_lookup[of n "[Load_byte, Load_halfword, Load_word, Funct_None,
     Load_byte_unsigned, Load_halfword_unsigned, Funct_None, Funct_None]"]
  by (auto simp: is_load_funct_def simp del: nth_mem)

lemmas decode_parts = decode_lui_def decode_auipc_def decode_jal_def decode_jalr_def decode_load_def
  decode_store_def decode_register_imm_def decode_branch_def decode_result_default_def Let_def

lemma decode_ok_parts:
  "decode_ok (decode_lui b)" "decode_ok (decode_auipc b pc)" "decode_ok (decode_jal b pc)"
  "decode_ok (decode_jalr rf b)" "decode_ok (decode_store rf b)"
  "decode_ok (decode_register_imm rf b)" "decode_ok (decode_branch rf b pc)"
  by (simp_all add: decode_ok_def decode_parts is_store_funct_def csr_access_info_default_def)

lemma decode_ok_load: "decode_ok (decode_load rf b)"
proof -
  have "bs_nat (it_funct3 (Itype b)) < 8" by (rule bs_nat_3) simp
  from decode_load_funct[OF this] show ?thesis
    by (simp add: decode_ok_def decode_parts csr_access_info_default_def)
qed

lemma decode_ok_sums:
  "decode_misc_mem b = Inr d \<Longrightarrow> decode_ok d"
  "decode_register_register rf b = Inr d \<Longrightarrow> decode_ok d"
  "decode_system rf b = Inr d \<Longrightarrow> decode_ok d"
  by (auto simp: decode_ok_def decode_misc_mem_def decode_register_register_def decode_system_def
      decode_result_default_def csr_access_info_default_def Let_def split: option.splits if_splits)

lemma decode_trap_sums:
  "decode_misc_mem b = Inl t \<Longrightarrow> t = Illegal_instruction"
  "decode_register_register rf b = Inl t \<Longrightarrow> t = Illegal_instruction"
  "decode_system rf b = Inl t \<Longrightarrow> t = Illegal_instruction"
  by (auto simp: decode_misc_mem_def decode_register_register_def decode_system_def Let_def
      split: option.splits if_splits)

lemma inst_decode_ok: "inst_decode rf w pc = Inr d \<Longrightarrow> decode_ok d"
  by (auto simp: inst_decode_def Let_def decode_ok_parts decode_ok_load
      split: if_splits option.splits opcode.splits dest: decode_ok_sums)

lemma inst_decode_trap: "inst_decode rf w pc = Inl t \<Longrightarrow> t = Illegal_instruction"
  by (auto simp: inst_decode_def Let_def
      split: if_splits option.splits opcode.splits dest: decode_trap_sums)

section \<open>The arithmetic of the manual\<close>

text \<open>
  Each operation on the mathematical values of its operands, signed (\<open>sint\<close>) or unsigned
  (\<open>uint\<close>), with the division table of the M extension.
\<close>

fun rv_op_value :: "rv_op \<Rightarrow> u32 \<Rightarrow> u32 \<Rightarrow> u32" where
  "rv_op_value R_ADD x y = word_of_int (sint x + sint y)"
| "rv_op_value R_SUB x y = word_of_int (sint x - sint y)"
| "rv_op_value R_SLL x y = word_of_int (uint x * 2 ^ (unat y mod 32))"
| "rv_op_value R_SLT x y = (if sint x < sint y then 1 else 0)"
| "rv_op_value R_SLTU x y = (if uint x < uint y then 1 else 0)"
| "rv_op_value R_XOR x y = x XOR y"
| "rv_op_value R_SRL x y = word_of_int (uint x div 2 ^ (unat y mod 32))"
| "rv_op_value R_SRA x y = word_of_int (sint x div 2 ^ (unat y mod 32))"
| "rv_op_value R_OR x y = x OR y"
| "rv_op_value R_AND x y = x AND y"
| "rv_op_value R_MUL x y = word_of_int (sint x * sint y)"
| "rv_op_value R_MULH x y = spec_mulh x y"
| "rv_op_value R_MULHSU x y = spec_mulhsu x y"
| "rv_op_value R_MULHU x y = spec_mulhu x y"
| "rv_op_value R_DIV x y =
     (if y = 0 then -1 else if sint x = - (2 ^ 31) \<and> sint y = -1 then x
      else word_of_int (sint x sdiv sint y))"
| "rv_op_value R_DIVU x y = (if y = 0 then 0xFFFFFFFF else word_of_int (uint x div uint y))"
| "rv_op_value R_REM x y =
     (if y = 0 then x else if sint x = - (2 ^ 31) \<and> sint y = -1 then 0
      else word_of_int (sint x smod sint y))"
| "rv_op_value R_REMU x y = (if y = 0 then x else word_of_int (uint x mod uint y))"
| "rv_op_value R_CZERO_EQZ x y = (if y = 0 then 0 else x)"
| "rv_op_value R_CZERO_NEZ x y = (if y = 0 then x else 0)"

lemma uint_divu: "word_of_int (uint x div uint y) = x div y" "word_of_int (uint x mod uint y) = x mod y"
  for x y :: u32
  by (simp_all add: word_div_def word_mod_def)

lemma sll_mult: "sll x y = x * 2 ^ (unat y mod 32)"
  by (simp only: sll_def shift_amount_nat push_bit_eq_mult)

lemma sll_of_int: "word_of_int (uint x * 2 ^ (unat y mod 32)) = sll x y"
  by (simp add: sll_mult)

lemma shifts_of_int:
  "word_of_int (uint x * 2 ^ (unat y mod 32)) = sll x y"
  "word_of_int (uint x div 2 ^ (unat y mod 32)) = srl x y"
  "word_of_int (sint x div 2 ^ (unat y mod 32)) = sra x y"
proof -
  show "word_of_int (uint x * 2 ^ (unat y mod 32)) = sll x y"
    by (rule sll_of_int)
  have "uint (srl x y) = uint x div 2 ^ (unat y mod 32)"
    by (simp only: srl_def shift_amount_nat uint_drop_bit)
  then show "word_of_int (uint x div 2 ^ (unat y mod 32)) = srl x y" by (metis word_of_int_uint)
  show "word_of_int (sint x div 2 ^ (unat y mod 32)) = sra x y"
    by (simp only: sint_sra[symmetric]) simp
qed

lemma alu_spec: "opr \<noteq> R_MULH \<Longrightarrow> opr \<noteq> R_MULHSU \<Longrightarrow> alu_module (alu_op opr) x y = rv_op_value opr x y"
  by (cases opr)
    (simp_all add: sll_mult shifts_of_int(2,3) compare_lt_def compare_ltu_def word_less_def mul_def mulhu_spec
      div32_def rem32_def divu_def remu_def sint_min[simplified] sint_minus_one uint_divu)

end
