(* ===== verification/Cpu.thy ===== *)
theory Cpu
  imports Isa
begin

text \<open>
  \<open>lib/include/core/cpu.hpp\<close> and \<open>lib/core/cpu.cpp\<close>: the CPU state, \<open>execute\<close>, \<open>handle_trap\<close> and
  \<open>step\<close>. The model is parametric in the memory interface. The members of \<open>CPU_module::Result\<close>
  that have no initialiser hold arbitrary values until they are assigned: a parameter \<open>junk\<close> of
  \<open>execute\<close> supplies them.
\<close>

unbundle bit_operations_syntax

section \<open>State and result\<close>

text \<open>\<open>CPU_module::Result\<close> derives from the decode result.\<close>

record cpu_result = decode_result +
  cr_pc :: u32
  cr_inst :: u32
  cr_trap :: "trap option"
  cr_alu_result :: u32
  cr_branch_result :: bool
  cr_csr_result :: u32
  cr_memory_load_value :: u32
  cr_writeback_value :: u32

record junk =
  jk_alu_result :: u32
  jk_branch_result :: bool
  jk_csr_result :: u32
  jk_memory_load_value :: u32
  jk_writeback_value :: u32

definition cpu_result_init :: "junk \<Rightarrow> cpu_result" where
  "cpu_result_init j =
     decode_result.extend decode_result_default
       \<lparr>cr_pc = 0, cr_inst = 0, cr_trap = None, cr_alu_result = jk_alu_result j,
        cr_branch_result = jk_branch_result j, cr_csr_result = jk_csr_result j,
        cr_memory_load_value = jk_memory_load_value j,
        cr_writeback_value = jk_writeback_value j\<rparr>"

text \<open>\<open>Result::operator=\<close>: the inherited part is replaced, the rest kept.\<close>

definition cr_assign :: "decode_result \<Rightarrow> cpu_result \<Rightarrow> cpu_result" where
  "cr_assign d r = decode_result.extend d (decode_result.more r)"

record cpu =
  cpu_pc :: u32
  cpu_waiting_for_interrupt :: bool
  cpu_inst_fetch :: fetch_cache
  cpu_registers :: register_file
  cpu_csr :: csr_module

definition cpu_init :: "u32 \<Rightarrow> cpu" where
  "cpu_init init_pc =
     \<lparr>cpu_pc = init_pc, cpu_waiting_for_interrupt = False, cpu_inst_fetch = fetch_cache_init,
      cpu_registers = register_file_init, cpu_csr = csr_init\<rparr>"

section \<open>Execution\<close>

definition timer_interrupt_pending :: "csr_module \<Rightarrow> bool" where
  "timer_interrupt_pending c \<longleftrightarrow>
     ms_mie (csr_mstatus c)
     \<and> (let interrupt = csr_mip c AND csr_mie c
        in interrupt \<noteq> 0 \<and> interrupt AND push_bit 7 1 \<noteq> 0)"

text \<open>The writeback value; with no source the member keeps what it held.\<close>

fun writeback_value :: "register_source \<Rightarrow> u32 \<Rightarrow> cpu_result \<Rightarrow> u32" where
  "writeback_value Src_None pc r = cr_writeback_value r"
| "writeback_value Src_Pc_plus_4 pc r = pc + 4"
| "writeback_value Src_Alu pc r = cr_alu_result r"
| "writeback_value Src_Memory pc r = cr_memory_load_value r"
| "writeback_value Src_Csr pc r = cr_csr_result r"

text \<open>The end of \<open>execute\<close>: writeback and the next \<open>pc\<close>.\<close>

definition execute_commit :: "cpu_result \<Rightarrow> cpu \<Rightarrow> cpu_result \<times> cpu" where
  "execute_commit result s =
     (let result = result\<lparr>cr_writeback_value :=
            writeback_value (dr_writeback_source result) (cpu_pc s) result\<rparr>;
          s = (if \<not> bs_eq_int (dr_dest_register result) 0
               then s\<lparr>cpu_registers :=
                      set_register (dr_dest_register result) (cr_writeback_value result) (cpu_registers s)\<rparr>
               else s);
          csr = cpu_csr s;
          s = (if dr_mret result then
                 s\<lparr>cpu_pc := csr_mepc csr,
                   cpu_csr := csr\<lparr>csr_mstatus := (csr_mstatus csr)
                     \<lparr>ms_mie := ms_mpie (csr_mstatus csr), ms_mpie := False\<rparr>\<rparr>\<rparr>
               else if cr_branch_result result then s\<lparr>cpu_pc := cr_alu_result result\<rparr>
               else s\<lparr>cpu_pc := cpu_pc s + 4\<rparr>)
      in (result, s))"

text \<open>
  From the arithmetic on. The CSR access comes before the memory access and is not undone when
  the latter traps.
\<close>

definition execute_decoded ::
  "'m memory_interface \<Rightarrow> cpu_result \<Rightarrow> cpu \<Rightarrow> 'm \<Rightarrow> (exn + cpu_result) \<times> cpu \<times> 'm"
where
  "execute_decoded I result s m =
     (let result = result\<lparr>
            cr_alu_result := alu_module (dr_alu_opcode result) (dr_alu_num1 result) (dr_alu_num2 result)\<rparr>;
          result = result\<lparr>
            cr_branch_result :=
              branch_module (dr_branch_opcode result) (dr_branch_num1 result) (dr_branch_num2 result)\<rparr>;
          (csr_result, csr) = csr_access (dr_csr_access_info result) (cpu_csr s);
          s = s\<lparr>cpu_csr := csr\<rparr>
      in case csr_result of
           Inl _ \<Rightarrow> (Inr (result\<lparr>cr_trap := Some Illegal_instruction\<rparr>), s, m)
         | Inr v \<Rightarrow>
             let result = result\<lparr>cr_csr_result := v\<rparr>;
                 (memory_result, m) =
                   load_store I (dr_memory_opcode result) (dr_memory_funct result)
                     (cr_alu_result result) (dr_memory_store_value result) m
             in case memory_result of
                  Throw x \<Rightarrow> (Inl x, s, m)
                | Unexpected t \<Rightarrow> (Inr (result\<lparr>cr_trap := Some t\<rparr>), s, m)
                | Value v \<Rightarrow>
                    let (result, s) = execute_commit (result\<lparr>cr_memory_load_value := v\<rparr>) s
                    in (Inr result, s, m))"

definition execute ::
  "'m memory_interface \<Rightarrow> junk \<Rightarrow> cpu \<Rightarrow> 'm \<Rightarrow> (exn + cpu_result) \<times> cpu \<times> 'm"
where
  "execute I j s m =
     (let result = (cpu_result_init j)\<lparr>cr_pc := cpu_pc s\<rparr>;
          (fetch_result, cache, m) = inst_fetch I (cpu_pc s) (cpu_inst_fetch s, m);
          s = s\<lparr>cpu_inst_fetch := cache\<rparr>
      in case fetch_result of
           Throw x \<Rightarrow> (Inl x, s, m)
         | Unexpected t \<Rightarrow> (Inr (result\<lparr>cr_trap := Some t\<rparr>), s, m)
         | Value w \<Rightarrow>
             let result = result\<lparr>cr_inst := w\<rparr>
             in case inst_decode (cpu_registers s) w (cpu_pc s) of
                  Inl t \<Rightarrow> (Inr (result\<lparr>cr_trap := Some t\<rparr>), s, m)
                | Inr d \<Rightarrow>
                    let result = cr_assign d result
                    in if dr_ecall result then
                         (Inr (result\<lparr>cr_trap := Some Env_call_from_M_mode\<rparr>), s, m)
                       else if timer_interrupt_pending (cpu_csr s) then
                         (Inr (result\<lparr>cr_trap := Some Machine_timer_interrupt\<rparr>), s, m)
                       else execute_decoded I result s m)"

section \<open>Traps\<close>

fun trap_value :: "trap \<Rightarrow> cpu_result \<Rightarrow> u32" where
  "trap_value Inst_address_misaligned r = cr_alu_result r"
| "trap_value Inst_access_fault r = cr_alu_result r"
| "trap_value Inst_page_fault r = cr_alu_result r"
| "trap_value Load_access_fault r = cr_alu_result r"
| "trap_value Store_access_fault r = cr_alu_result r"
| "trap_value Load_address_misaligned r = cr_alu_result r"
| "trap_value Store_address_misaligned r = cr_alu_result r"
| "trap_value Load_page_fault r = cr_alu_result r"
| "trap_value Store_page_fault r = cr_alu_result r"
| "trap_value Illegal_instruction r = cr_inst r"
| "trap_value _ r = 0"

definition mtvec_vectored :: "2 word" where
  "mtvec_vectored = 1"

definition trap_vector :: "trap \<Rightarrow> mtvec \<Rightarrow> u32" where
  "trap_vector t v =
     (let base = push_bit 2 (ucast (mtvec_base_upper30 v)) :: u32
      in if is_interrupt t \<and> mtvec_mode v = mtvec_vectored
         then base + 4 * (trap_code t AND 0x7fffffff)
         else base)"

definition handle_trap :: "cpu_result \<Rightarrow> cpu \<Rightarrow> cpu" where
  "handle_trap result s =
     (case cr_trap result of
        None \<Rightarrow> s
      | Some t \<Rightarrow>
          let csr = cpu_csr s;
              st = csr_mstatus csr;
              st = st\<lparr>ms_mpie := ms_mie st\<rparr>;
              st = st\<lparr>ms_mie := False\<rparr>;
              st = st\<lparr>ms_mpp := priviledge_code Machine\<rparr>;
              csr = csr\<lparr>csr_mstatus := st, csr_mepc := cpu_pc s, csr_mcause := mcause_of (trap_code t),
                        csr_mtval := trap_value t result\<rparr>
          in s\<lparr>cpu_csr := csr, cpu_pc := trap_vector t (csr_mtvec csr)\<rparr>)"

definition cpu_step ::
  "'m memory_interface \<Rightarrow> junk \<Rightarrow> cpu \<Rightarrow> 'm \<Rightarrow> (exn + cpu_result) \<times> cpu \<times> 'm"
where
  "cpu_step I j s m =
     (case execute I j s m of
        (Inl x, s, m) \<Rightarrow> (Inl x, s, m)
      | (Inr result, s, m) \<Rightarrow>
          let s = handle_trap result s;
              s = s\<lparr>cpu_csr := csr_tick (cpu_csr s)\<rparr>
          in (Inr result, s, m))"

section \<open>Precise traps\<close>

lemma cr_assign_simps [simp]:
  "cr_trap (cr_assign d r) = cr_trap r" "cr_inst (cr_assign d r) = cr_inst r"
  "cr_pc (cr_assign d r) = cr_pc r" "dr_dest_register (cr_assign d r) = dr_dest_register d"
  "dr_memory_opcode (cr_assign d r) = dr_memory_opcode d"
  "dr_memory_funct (cr_assign d r) = dr_memory_funct d"
  "dr_memory_store_value (cr_assign d r) = dr_memory_store_value d"
  "dr_csr_access_info (cr_assign d r) = dr_csr_access_info d"
  "dr_alu_opcode (cr_assign d r) = dr_alu_opcode d" "dr_alu_num1 (cr_assign d r) = dr_alu_num1 d"
  "dr_alu_num2 (cr_assign d r) = dr_alu_num2 d"
  "dr_branch_opcode (cr_assign d r) = dr_branch_opcode d"
  "dr_branch_num1 (cr_assign d r) = dr_branch_num1 d"
  "dr_branch_num2 (cr_assign d r) = dr_branch_num2 d"
  "dr_ecall (cr_assign d r) = dr_ecall d" "dr_mret (cr_assign d r) = dr_mret d"
  "dr_writeback_source (cr_assign d r) = dr_writeback_source d"
  by (cases r; simp add: cr_assign_def decode_result.defs)+

lemma cpu_result_init_trap [simp]: "cr_trap (cpu_result_init j) = None"
  by (simp add: cpu_result_init_def decode_result.defs)

lemma execute_commit_trap [simp]: "cr_trap (fst (execute_commit r s)) = cr_trap r"
  by (simp add: execute_commit_def Let_def)

lemma csr_access_none:
  "ai_write_mode info = Wm_None \<Longrightarrow> \<not> ai_read info \<Longrightarrow> csr_access info c = (Inr 0, c)"
  by (simp add: csr_access_def csr_write_pair_def)

lemma load_store_none [simp]: "load_store I Ls_None f a x m = (Value 0, m)"
  by (simp add: load_store_def Let_def)

text \<open>The four ways the second half of \<open>execute\<close> ends.\<close>

definition computed :: "cpu_result \<Rightarrow> cpu_result" where
  "computed r = r\<lparr>
     cr_alu_result := alu_module (dr_alu_opcode r) (dr_alu_num1 r) (dr_alu_num2 r),
     cr_branch_result := branch_module (dr_branch_opcode r) (dr_branch_num1 r) (dr_branch_num2 r)\<rparr>"

definition request :: "'m memory_interface \<Rightarrow> cpu_result \<Rightarrow> 'm \<Rightarrow> (u32, trap) expected \<times> 'm" where
  "request I r = load_store I (dr_memory_opcode r) (dr_memory_funct r) (cr_alu_result (computed r))
     (dr_memory_store_value r)"

lemma execute_decoded_cases:
  assumes "execute_decoded I r s m = (R, s', m')"
  obtains
    (csr_trap) e where "csr_access (dr_csr_access_info r) (cpu_csr s) = (Inl e, cpu_csr s)"
      "R = Inr ((computed r)\<lparr>cr_trap := Some Illegal_instruction\<rparr>)" "s' = s" "m' = m"
  | (throw) v c x where "csr_access (dr_csr_access_info r) (cpu_csr s) = (Inr v, c)"
      "request I r m = (Throw x, m')" "R = Inl x" "s' = s\<lparr>cpu_csr := c\<rparr>"
  | (mem_trap) v c t where "csr_access (dr_csr_access_info r) (cpu_csr s) = (Inr v, c)"
      "request I r m = (Unexpected t, m')"
      "R = Inr ((computed r)\<lparr>cr_csr_result := v, cr_trap := Some t\<rparr>)" "s' = s\<lparr>cpu_csr := c\<rparr>"
  | (committed) v c w r' where "csr_access (dr_csr_access_info r) (cpu_csr s) = (Inr v, c)"
      "request I r m = (Value w, m')" "R = Inr r'" "cr_trap r' = cr_trap r"
      "execute_commit ((computed r)\<lparr>cr_csr_result := v, cr_memory_load_value := w\<rparr>)
         (s\<lparr>cpu_csr := c\<rparr>) = (r', s')"
proof -
  obtain v c where c: "csr_access (dr_csr_access_info r) (cpu_csr s) = (v, c)" by fastforce
  show thesis
  proof (cases v)
    case (Inl e)
    moreover from this c csr_access_error have "c = cpu_csr s" by blast
    ultimately show thesis using assms c
      by (intro csr_trap[of e]) (simp_all add: execute_decoded_def computed_def Let_def)
  next
    case (Inr cv)
    obtain q n where q: "request I r m = (q, n)" by fastforce
    show thesis
    proof (cases q)
      case (Value w)
      obtain r' t where rt: "execute_commit
          ((computed r)\<lparr>cr_csr_result := cv, cr_memory_load_value := w\<rparr>) (s\<lparr>cpu_csr := c\<rparr>) = (r', t)"
        by fastforce
      have "cr_trap r' = cr_trap (fst (execute_commit
          ((computed r)\<lparr>cr_csr_result := cv, cr_memory_load_value := w\<rparr>) (s\<lparr>cpu_csr := c\<rparr>)))"
        by (simp only: rt fst_conv)
      then have "cr_trap r' = cr_trap r" by (simp add: computed_def)
      with assms c Inr q Value rt show thesis
        by (intro committed[of cv c w r']) (simp_all add: execute_decoded_def computed_def request_def Let_def)
    next
      case (Unexpected t)
      with assms c Inr q show thesis
        by (intro mem_trap[of cv c t]) (simp_all add: execute_decoded_def computed_def request_def Let_def)
    next
      case (Throw x)
      with assms c Inr q show thesis
        by (intro throw[of cv c x]) (simp_all add: execute_decoded_def computed_def request_def Let_def)
    qed
  qed
qed

text \<open>And the ways \<open>execute\<close> ends.\<close>

definition fetched :: "junk \<Rightarrow> cpu \<Rightarrow> u32 \<Rightarrow> decode_result \<Rightarrow> cpu_result" where
  "fetched j s w d = cr_assign d ((cpu_result_init j)\<lparr>cr_pc := cpu_pc s, cr_inst := w\<rparr>)"

lemma fetched_simps [simp]:
  "cr_trap (fetched j s w d) = None" "dr_csr_access_info (fetched j s w d) = dr_csr_access_info d"
  "dr_memory_opcode (fetched j s w d) = dr_memory_opcode d"
  "dr_memory_funct (fetched j s w d) = dr_memory_funct d"
  "dr_dest_register (fetched j s w d) = dr_dest_register d"
  by (simp_all add: fetched_def)

lemma execute_cases:
  assumes "execute I j s m = (R, s', m')"
  obtains
    (fetch_throw) c x where "inst_fetch I (cpu_pc s) (cpu_inst_fetch s, m) = (Throw x, c, m')"
      "R = Inl x" "s' = s\<lparr>cpu_inst_fetch := c\<rparr>"
  | (early_trap) q c r t where "inst_fetch I (cpu_pc s) (cpu_inst_fetch s, m) = (q, c, m')"
      "R = Inr r" "cr_trap r = Some t" "s' = s\<lparr>cpu_inst_fetch := c\<rparr>"
  | (decoded) c w d n where "inst_fetch I (cpu_pc s) (cpu_inst_fetch s, m) = (Value w, c, n)"
      "inst_decode (cpu_registers s) w (cpu_pc s) = Inr d" "decode_ok d"
      "execute_decoded I (fetched j s w d) (s\<lparr>cpu_inst_fetch := c\<rparr>) n = (R, s', m')"
proof -
  obtain q c n where q: "inst_fetch I (cpu_pc s) (cpu_inst_fetch s, m) = (q, c, n)"
    by (cases "inst_fetch I (cpu_pc s) (cpu_inst_fetch s, m)") auto
  show thesis
  proof (cases q)
    case (Value w)
    show thesis
    proof (cases "inst_decode (cpu_registers s) w (cpu_pc s)")
      case (Inl t)
      with assms q Value show thesis by (intro early_trap[where t = t]) (auto simp: execute_def Let_def)
    next
      case (Inr d)
      consider "dr_ecall d" | "\<not> dr_ecall d" "timer_interrupt_pending (cpu_csr s)"
        | "\<not> dr_ecall d" "\<not> timer_interrupt_pending (cpu_csr s)" by blast
      then show thesis
      proof cases
        case 3
        with assms q Value Inr inst_decode_ok[OF Inr] show thesis
          by (intro decoded[of w c n d]) (simp_all add: execute_def Let_def fetched_def)
      next
        case 1
        with assms q Value Inr show thesis
          by (intro early_trap[where t = Env_call_from_M_mode]) (auto simp: execute_def Let_def)
      next
        case 2
        with assms q Value Inr show thesis
          by (intro early_trap[where t = Machine_timer_interrupt]) (auto simp: execute_def Let_def)
      qed
    qed
  next
    case (Unexpected t)
    with assms q show thesis by (intro early_trap[where t = t]) (auto simp: execute_def Let_def)
  next
    case (Throw x)
    with assms q show thesis by (intro fetch_throw) (auto simp: execute_def Let_def)
  qed
qed

text \<open>
  A trap is precise: the program counter, the registers and the CSRs are as before the
  instruction. Only the fetch cache may have been filled.
\<close>

lemma execute_trap_precise:
  assumes "execute I j s m = (Inr r, s', m')" "cr_trap r = Some t"
  shows "\<exists>c. s' = s\<lparr>cpu_inst_fetch := c\<rparr>"
  using assms(1)
proof (cases rule: execute_cases)
  case (decoded c w d n)
  from decoded(4) show ?thesis
  proof (cases rule: execute_decoded_cases)
    case (mem_trap v c' t)
    have "dr_memory_opcode d \<noteq> Ls_None"
      using mem_trap(2) by (auto simp: request_def)
    then have "c' = cpu_csr s"
      using mem_trap(1) decoded(3) by (simp add: decode_ok_def csr_access_none)
    then show ?thesis using mem_trap(4) by auto
  qed (use assms(2) in auto)
qed (use assms(2) in auto)

section \<open>Invariants\<close>

definition cpu_inv :: "cpu \<Rightarrow> bool" where
  "cpu_inv s \<longleftrightarrow> register_file_inv (cpu_registers s) \<and> csr_inv (cpu_csr s)"

lemma cpu_init_inv: "cpu_inv (cpu_init pc)"
  by (simp add: cpu_inv_def cpu_init_def register_file_init_inv csr_init_inv)

lemma csr_inv_mstatus [simp]:
  "mstatus_legal (st\<lparr>ms_mie := a\<rparr>) = mstatus_legal st"
  "mstatus_legal (st\<lparr>ms_mpie := a\<rparr>) = mstatus_legal st"
  "mstatus_legal (st\<lparr>ms_mpp := p\<rparr>) = mstatus_legal st"
  by (cases st; auto simp: mstatus_legal_def force_legal_def)+

lemma set_register_inv:
  "register_file_inv rf \<Longrightarrow> bs_inv i \<Longrightarrow> register_file_inv (set_register i v rf)"
  by (rule regs.put_inv)

lemma execute_commit_inv:
  "cpu_inv s \<Longrightarrow> bs_inv (dr_dest_register r) \<Longrightarrow> execute_commit r s = (r', s') \<Longrightarrow> cpu_inv s'"
  by (auto simp: execute_commit_def Let_def cpu_inv_def csr_inv_def set_register_inv)

lemma execute_inv:
  assumes "cpu_inv s" "execute I j s m = (R, s', m')"
  shows "cpu_inv s'"
  using assms(2)
proof (cases rule: execute_cases)
  case (decoded c w d n)
  have acc: "csr_access info (cpu_csr s) = (v, c') \<Longrightarrow> csr_inv c'" for info v c'
    using assms(1) csr_access_inv[of "cpu_csr s" info] by (auto simp: cpu_inv_def)
  have dest: "bs_inv (dr_dest_register d)" using decoded(3) by (simp add: decode_ok_def)
  from decoded(4) show ?thesis
  proof (cases rule: execute_decoded_cases)
    case (committed v c' w r')
    show ?thesis
      by (rule execute_commit_inv[OF _ _ committed(5)])
        (use assms(1) acc[OF committed(1)[simplified]] dest in \<open>simp_all add: cpu_inv_def computed_def\<close>)
  qed (use assms(1) acc in \<open>auto simp: cpu_inv_def\<close>)
qed (use assms(1) in \<open>auto simp: cpu_inv_def\<close>)

lemma handle_trap_inv: "cpu_inv s \<Longrightarrow> cpu_inv (handle_trap r s)"
  by (auto simp: handle_trap_def cpu_inv_def csr_inv_def Let_def split: option.splits)

lemma cpu_step_inv: "cpu_inv s \<Longrightarrow> cpu_step I j s m = (R, s', m') \<Longrightarrow> cpu_inv s'"
  using execute_inv[of s I j m] handle_trap_inv
  by (fastforce simp: cpu_step_def cpu_inv_def csr_tick_inv Let_def split: prod.splits sum.splits)

section \<open>Over a device\<close>

context memory_device
begin

text \<open>The only exception that leaves \<open>execute\<close> is that of a fetch from a device without pages.\<close>

lemma execute_throws:
  assumes "inv m"
  shows "(\<exists>x. fst (execute I j s m) = Inl x) \<longleftrightarrow> throws (fst (inst_fetch I (cpu_pc s) (cpu_inst_fetch s, m)))"
proof -
  obtain R s' m' where e: "execute I j s m = (R, s', m')" by (cases "execute I j s m") auto
  from e show ?thesis
  proof (cases rule: execute_cases)
    case (fetch_throw c x)
    then show ?thesis by (simp add: e)
  next
    case (early_trap q c r t)
    have "\<not> throws q"
      using e early_trap by (auto simp: execute_def Let_def throws_def)
    with early_trap show ?thesis by (simp add: e)
  next
    case (decoded c w d n)
    have n: "inv n" by (rule inst_fetch_inv[OF assms decoded(1)])
    have "\<not> throws (fst (request I (fetched j s w d) n))"
      unfolding request_def by (rule load_store_returns[OF n]) (use decoded(3) in \<open>simp add: decode_ok_def\<close>)
    with decoded(4) have "\<nexists>x. R = Inl x"
      by (cases rule: execute_decoded_cases) auto
    then show ?thesis using decoded(1) by (auto simp: e)
  qed
qed

lemma execute_device_inv:
  assumes "inv m" "execute I j s m = (R, s', m')"
  shows "inv m'"
  using assms(2)
proof (cases rule: execute_cases)
  case (decoded c w d n)
  have n: "inv n" by (rule inst_fetch_inv[OF assms(1) decoded(1)])
  have "inv (snd (request I (fetched j s w d) n))"
    unfolding request_def by (rule load_store_inv[OF n])
  with decoded(4) n show ?thesis by (cases rule: execute_decoded_cases) auto
qed (use inst_fetch_inv[OF assms(1)] in blast)+

end

context word_memory
begin

lemma load_store_trap_view:
  assumes "inv m" "load_store I opc f a x m = (Unexpected t, m')"
  shows "view m' = view m"
proof (cases opc)
  case Ls_Store
  define p n where "p d k = fst (mi_write I m (ucast (a AND 0xfffffffc)) d k)"
    and "n d k = snd (mi_write I m (ucast (a AND 0xfffffffc)) d k)" for d k
  then have p: "mi_write I m (ucast (a AND 0xfffffffc)) d k = (p d k, n d k)" for d k by simp
  have "p d k = Unexpected e \<Longrightarrow> view (n d k) = view m" for d k e
    using write_view[OF assms(1), of "ucast (a AND 0xfffffffc)" d k]
      write_value[OF assms(1), of "ucast (a AND 0xfffffffc)" _ d k]
    by (auto simp: p view_write_def split: option.splits bool.splits)
  then show ?thesis using assms(2) Ls_Store
    by (auto simp: load_store_def Let_def p split: if_splits option.splits expected.splits)
qed (use assms load_view[of m f a x] in auto)

text \<open>A trap leaves the memory contents alone too.\<close>

lemma execute_trap_view:
  assumes "inv m" "execute I j s m = (Inr r, s', m')" "cr_trap r = Some t"
  shows "view m' = view m"
  using assms(2)
proof (cases rule: execute_cases)
  case (early_trap q c r t)
  then show ?thesis using inst_fetch_view[OF assms(1)] by blast
next
  case (decoded c w d n)
  have n: "inv n" "view n = view m"
    using inst_fetch_inv[OF assms(1) decoded(1)] inst_fetch_view[OF assms(1) decoded(1)] by auto
  from decoded(4) show ?thesis
  proof (cases rule: execute_decoded_cases)
    case (mem_trap v c' t)
    then show ?thesis using load_store_trap_view[OF n(1)] n(2) by (simp add: request_def)
  qed (use n assms(3) in auto)
qed (use assms(3) in auto)

end

section \<open>Entering and leaving a trap handler\<close>

lemma handle_trap_frame:
  "cpu_registers (handle_trap r s) = cpu_registers s"
  "cpu_inst_fetch (handle_trap r s) = cpu_inst_fetch s"
  by (auto simp: handle_trap_def Let_def split: option.splits)

lemma handle_trap_state:
  assumes "cr_trap r = Some t"
  shows "csr_mepc (cpu_csr (handle_trap r s)) = cpu_pc s"
    and "mcause_word (csr_mcause (cpu_csr (handle_trap r s))) = trap_code t"
    and "ms_mpie (csr_mstatus (cpu_csr (handle_trap r s))) = ms_mie (csr_mstatus (cpu_csr s))"
    and "\<not> ms_mie (csr_mstatus (cpu_csr (handle_trap r s)))"
    and "cpu_pc (handle_trap r s) = trap_vector t (csr_mtvec (cpu_csr s))"
  using assms by (simp_all add: handle_trap_def Let_def)

lemma no_interrupt_in_handler:
  "cr_trap r = Some t \<Longrightarrow> \<not> timer_interrupt_pending (cpu_csr (handle_trap r s))"
  by (simp add: timer_interrupt_pending_def handle_trap_state)

lemma trap_vector_aligned: "trap_vector t v AND 0x3 = 0"
proof -
  have sh: "(0x3 :: u32) = mask 2" by (simp add: mask_eq_exp_minus_1)
  have "push_bit 2 w + 4 * k = push_bit 2 (w + k)" for w k :: u32
    by (simp add: push_bit_eq_mult algebra_simps)
  moreover have "push_bit 2 w AND (0x3 :: u32) = 0" for w
    by (rule bit_word_eqI) (auto simp: sh bit_simps)
  ultimately show ?thesis by (simp add: trap_vector_def Let_def)
qed

end
