(* ===== verification/IsaStep.thy ===== *)
theory IsaStep
  imports Cpu
begin

text \<open>
  The abstract machine of the RISC-V manuals and the refinement of the CPU to it. A state of the
  abstract machine is the program counter, the registers by number, the CSRs and a byte-addressed
  memory; \<open>isa_exec\<close> executes one instruction. \<open>arch_of\<close> abstracts a CPU and a memory view to such
  a state. \<open>isa_conforms\<close> marks the instructions where \<open>lib/core\<close> and the manual agree; those it
  excludes are the deviations, each shown by a theorem of its own.
\<close>

unbundle bit_operations_syntax

declare ls_size.simps [simp del]

section \<open>The abstract machine\<close>

record arch =
  a_pc :: u32
  a_x :: "reg \<Rightarrow> u32"
  a_csr :: csr_module
  a_mem :: "u32 \<Rightarrow> (bool \<times> u8) option"

definition isa_write :: "reg \<Rightarrow> u32 \<Rightarrow> arch \<Rightarrow> arch" where
  "isa_write rd v a = a\<lparr>a_x := (if rd = 0 then a_x a else (a_x a)(rd := v))\<rparr>"

definition isa_jump :: "u32 \<Rightarrow> arch \<Rightarrow> arch" where
  "isa_jump pc a = a\<lparr>a_pc := pc\<rparr>"

abbreviation isa_next :: "arch \<Rightarrow> arch" where
  "isa_next a \<equiv> isa_jump (a_pc a + 4) a"

fun branch_taken :: "rv_branch \<Rightarrow> u32 \<Rightarrow> u32 \<Rightarrow> bool" where
  "branch_taken BEQ x y = (x = y)"
| "branch_taken BNE x y = (x \<noteq> y)"
| "branch_taken BLT x y = (sint x < sint y)"
| "branch_taken BGE x y = (sint x \<ge> sint y)"
| "branch_taken BLTU x y = (uint x < uint y)"
| "branch_taken BGEU x y = (uint x \<ge> uint y)"

definition isa_load :: "rv_load \<Rightarrow> u32 \<Rightarrow> arch \<Rightarrow> u32" where
  "isa_load l addr a = extend_load (load_funct l) (\<lambda>j. snd (the (a_mem a (addr + of_nat j))))"

definition isa_store :: "rv_store \<Rightarrow> u32 \<Rightarrow> u32 \<Rightarrow> arch \<Rightarrow> arch" where
  "isa_store st addr v a = a\<lparr>a_mem := (\<lambda>b.
     if unat addr \<le> unat b \<and> unat b < unat addr + ls_size (store_funct st)
     then Some (True, word_byte (unat b - unat addr) v) else a_mem a b)\<rparr>"

fun operand_value :: "rv_operand \<Rightarrow> arch \<Rightarrow> u32" where
  "operand_value (Rs r) a = a_x a r"
| "operand_value (Uimm u) a = ucast u"

definition csr_readonly_address :: "12 word \<Rightarrow> bool" where
  "csr_readonly_address ad \<longleftrightarrow> bit ad 10 \<and> bit ad 11"

text \<open>A CSR instruction: the old value, and the new state; unimplemented fields of \<open>mstatus\<close> stay 0.\<close>

definition isa_csr :: "rv_csr \<Rightarrow> rv_operand \<Rightarrow> 12 word \<Rightarrow> u32 \<Rightarrow> csr_module \<Rightarrow> trap + (u32 \<times> csr_module)" where
  "isa_csr c src ad v csr =
     (let writes = (c = CSRRW \<or> operand_field src \<noteq> 0)
      in case csr_slot_of (ucast ad) of
           None \<Rightarrow> Inl Illegal_instruction
         | Some sl \<Rightarrow>
             if writes \<and> csr_readonly_address ad then Inl Illegal_instruction
             else if \<not> writes then Inr (csr_get sl csr, csr)
             else let csr' = csr_put sl (csr_rmw (csr_mode c) v (csr_get sl csr)) csr
                  in Inr (csr_get sl csr, csr'\<lparr>csr_mstatus := force_legal (csr_mstatus csr')\<rparr>))"

fun isa_exec :: "rv_instr \<Rightarrow> arch \<Rightarrow> trap + arch" where
  "isa_exec (LUI rd imm) a = Inr (isa_next (isa_write rd (push_bit 12 (ucast imm)) a))"
| "isa_exec (AUIPC rd imm) a = Inr (isa_next (isa_write rd (a_pc a + push_bit 12 (ucast imm)) a))"
| "isa_exec (JAL rd off) a =
     Inr (isa_jump (a_pc a + scast (off AND NOT 1)) (isa_write rd (a_pc a + 4) a))"
| "isa_exec (JALR rd rs1 imm) a =
     Inr (isa_jump ((a_x a rs1 + scast imm) AND NOT 1) (isa_write rd (a_pc a + 4) a))"
| "isa_exec (BRANCH b rs1 rs2 off) a =
     Inr (if branch_taken b (a_x a rs1) (a_x a rs2)
          then isa_jump (a_pc a + scast (off AND NOT 1)) a else isa_next a)"
| "isa_exec (LOAD l rd rs1 imm) a =
     (let addr = a_x a rs1 + scast imm
      in if unat addr mod ls_size (load_funct l) \<noteq> 0 then Inl Load_address_misaligned
         else Inr (isa_next (isa_write rd (isa_load l addr a) a)))"
| "isa_exec (STORE st rs1 rs2 imm) a =
     (let addr = a_x a rs1 + scast imm
      in if unat addr mod ls_size (store_funct st) \<noteq> 0 then Inl Store_address_misaligned
         else Inr (isa_next (isa_store st addr (a_x a rs2) a)))"
| "isa_exec (OPI opi rd rs1 imm) a =
     Inr (isa_next (isa_write rd (rv_op_value (opi_op opi) (a_x a rs1) (scast imm)) a))"
| "isa_exec (SHIFT sh rd rs1 shamt) a =
     Inr (isa_next (isa_write rd (rv_op_value (shift_op sh) (a_x a rs1) (ucast shamt)) a))"
| "isa_exec (OPR opr rd rs1 rs2) a =
     Inr (isa_next (isa_write rd (rv_op_value opr (a_x a rs1) (a_x a rs2)) a))"
| "isa_exec FENCE_I a = Inr (isa_next a)"
| "isa_exec ECALL a = Inl Env_call_from_M_mode"
| "isa_exec MRET a =
     Inr (isa_jump (csr_mepc (a_csr a))
       (a\<lparr>a_csr := (a_csr a)\<lparr>csr_mstatus := (csr_mstatus (a_csr a))
         \<lparr>ms_mie := ms_mpie (csr_mstatus (a_csr a)), ms_mpie := True\<rparr>\<rparr>\<rparr>))"
| "isa_exec (CSR c rd src ad) a =
     (case isa_csr c src ad (operand_value src a) (a_csr a) of
        Inl t \<Rightarrow> Inl t
      | Inr (v, csr) \<Rightarrow> Inr (isa_next (isa_write rd v (a\<lparr>a_csr := csr\<rparr>))))"

text \<open>
  Where the code follows the manual: not \<open>MULH\<close>, \<open>MULHSU\<close> on negative operands; no odd
  \<open>JALR\<close> target; not \<open>MRET\<close>; CSR immediates below 16; \<open>CSRRW\<close> with a nonzero source field; no
  write to \<open>mstatus\<close> (its old value is not returned); a set or clear of a read-only CSR by a
  register that holds 0.
\<close>

fun isa_conforms :: "rv_instr \<Rightarrow> arch \<Rightarrow> bool" where
  "isa_conforms (OPR R_MULH rd rs1 rs2) a = (sint (a_x a rs1) \<ge> 0 \<and> sint (a_x a rs2) \<ge> 0)"
| "isa_conforms (OPR R_MULHSU rd rs1 rs2) a = (sint (a_x a rs1) \<ge> 0)"
| "isa_conforms (JALR rd rs1 imm) a = even (a_x a rs1 + scast imm)"
| "isa_conforms MRET a = False"
| "isa_conforms (CSR c rd src ad) a =
     (unat (operand_field src) < (case src of Rs _ \<Rightarrow> 32 | Uimm _ \<Rightarrow> 16)
      \<and> (c = CSRRW \<longrightarrow> operand_field src \<noteq> 0)
      \<and> (operand_field src \<noteq> 0 \<longrightarrow> csr_slot_of (ucast ad) \<notin> {Some Mstatus_low, Some Mstatus_high})
      \<and> (operand_field src \<noteq> 0 \<and> c \<noteq> CSRRW \<and> csr_readonly_address ad \<longrightarrow> operand_value src a \<noteq> 0))"
| "isa_conforms _ a = True"

text \<open>The accesses to memory proper: what a device register returns is not the manual's business.\<close>

fun isa_accessible :: "rv_instr \<Rightarrow> arch \<Rightarrow> bool" where
  "isa_accessible (LOAD l rd rs1 imm) a =
     (unat (a_x a rs1 + scast imm) mod ls_size (load_funct l) = 0 \<longrightarrow> a_mem a (a_x a rs1 + scast imm) \<noteq> None)"
| "isa_accessible (STORE st rs1 rs2 imm) a =
     (unat (a_x a rs1 + scast imm) mod ls_size (store_funct st) = 0 \<longrightarrow>
        (\<exists>v. a_mem a (a_x a rs1 + scast imm) = Some (True, v)))"
| "isa_accessible _ a = True"

definition arch_of :: "cpu \<Rightarrow> mem_view \<Rightarrow> arch" where
  "arch_of s w = \<lparr>a_pc = cpu_pc s, a_x = xreg (cpu_registers s), a_csr = cpu_csr s, a_mem = byte_at w\<rparr>"

lemma arch_of_simps [simp]:
  "a_pc (arch_of s w) = cpu_pc s" "a_x (arch_of s w) = xreg (cpu_registers s)"
  "a_csr (arch_of s w) = cpu_csr s" "a_mem (arch_of s w) = byte_at w"
  "arch_of (s\<lparr>cpu_inst_fetch := c\<rparr>) w = arch_of s w"
  by (simp_all add: arch_of_def)

section \<open>Registers\<close>

lemma reg_bits_word: "bs_word (reg_bits r) = r"
  by (simp add: reg_bits_def)

lemma reg_bits_simps [simp]:
  "bs_inv (reg_bits r)" "bs_nat (reg_bits r) = unat r" "bs_eq_int (reg_bits r) 0 \<longleftrightarrow> r = 0"
  "reg_bits r = reg_bits q \<longleftrightarrow> r = q"
proof -
  show "reg_bits r = reg_bits q \<longleftrightarrow> r = q"
    by (metis reg_bits_word)
qed (simp_all add: reg_bits_def)


lemma xreg_set: "register_file_inv rf \<Longrightarrow>
    xreg (set_register (reg_bits rd) v rf) r = (if r = rd \<and> rd \<noteq> 0 then v else xreg rf r)"
  using regs.get_put[of rf "reg_bits rd" "reg_bits r" v] by (auto simp: xreg_def)

lemma default_dest: "dr_dest_register decode_result_default = reg_bits 0"
  by (simp add: decode_result_default_def reg_bits_def bs_lit_def)

section \<open>The second half of \<open>execute\<close> on a decoded instruction\<close>

lemma execute_encoded:
  assumes "inst_fetch I (cpu_pc s) (cpu_inst_fetch s, m) = (Value (rv_encode i), c, n)"
    and "\<not> timer_interrupt_pending (cpu_csr s)" "i \<noteq> ECALL"
  shows "execute I j s m = execute_decoded I
    (fetched j s (rv_encode i) (rv_decoded (cpu_registers s) (cpu_pc s) i)) (s\<lparr>cpu_inst_fetch := c\<rparr>) n"
proof -
  have "\<not> dr_ecall (rv_decoded rf pc i)" for rf pc
    using assms(3) by (cases i) (auto simp: decode_result_default_def)
  then show ?thesis
    using assms(1,2) by (simp add: execute_def Let_def decode_encode fetched_def)
qed

text \<open>An instruction with neither a memory nor a CSR access goes straight to writeback.\<close>

definition plain :: "decode_result \<Rightarrow> bool" where
  "plain d \<longleftrightarrow> dr_memory_opcode d = Ls_None \<and> dr_csr_access_info d = csr_access_info_default"

lemma computed_simps [simp]:
  "dr_writeback_source (computed r) = dr_writeback_source r"
  "dr_dest_register (computed r) = dr_dest_register r" "dr_mret (computed r) = dr_mret r"
  "cr_alu_result (computed r) = alu_module (dr_alu_opcode r) (dr_alu_num1 r) (dr_alu_num2 r)"
  "cr_branch_result (computed r) = branch_module (dr_branch_opcode r) (dr_branch_num1 r) (dr_branch_num2 r)"
  by (simp_all add: computed_def)

lemma fetched_fields [simp]:
  "dr_writeback_source (fetched j s w d) = dr_writeback_source d"
  "dr_mret (fetched j s w d) = dr_mret d"
  "dr_alu_opcode (fetched j s w d) = dr_alu_opcode d" "dr_alu_num1 (fetched j s w d) = dr_alu_num1 d"
  "dr_alu_num2 (fetched j s w d) = dr_alu_num2 d"
  "dr_branch_opcode (fetched j s w d) = dr_branch_opcode d"
  "dr_branch_num1 (fetched j s w d) = dr_branch_num1 d"
  "dr_branch_num2 (fetched j s w d) = dr_branch_num2 d"
  "dr_memory_store_value (fetched j s w d) = dr_memory_store_value d"
  by (simp_all add: fetched_def)

text \<open>The state a committed instruction leaves, in the abstract machine.\<close>

lemma arch_of_commit:
  assumes "execute_commit r s = (r', s')" "cpu_inv s" "dr_dest_register r = reg_bits rd" "\<not> dr_mret r"
  shows "arch_of s' w =
    isa_jump (if cr_branch_result r then cr_alu_result r else cpu_pc s + 4)
      (isa_write rd (writeback_value (dr_writeback_source r) (cpu_pc s) r) (arch_of s w))"
proof -
  have rf: "register_file_inv (cpu_registers s)" using assms(2) by (simp add: cpu_inv_def)
  have x: "xreg (set_register (reg_bits rd) v (cpu_registers s)) =
      (if rd = 0 then xreg (cpu_registers s) else (xreg (cpu_registers s))(rd := v))" for v
    by (rule ext) (simp add: xreg_set[OF rf])
  show ?thesis
    using assms(1,3,4)
    by (auto simp: execute_commit_def Let_def arch_of_def isa_write_def isa_jump_def x split: if_splits)
qed

definition refines :: "(exn + cpu_result) \<times> cpu \<times> 'm \<Rightarrow> ('m \<Rightarrow> mem_view) \<Rightarrow> arch \<Rightarrow> trap + arch \<Rightarrow> bool" where
  "refines out view a spec \<longleftrightarrow>
     (case out of
        (Inr r, s', m') \<Rightarrow>
          (case spec of
             Inr a' \<Rightarrow> cr_trap r = None \<and> arch_of s' (view m') = a'
           | Inl t \<Rightarrow> cr_trap r = Some t \<and> arch_of s' (view m') = a)
      | (Inl _, _) \<Rightarrow> False)"

lemma refines_commit:
  assumes "csr_access (dr_csr_access_info r) (cpu_csr s) = (Inr v, c)" "request I r m = (Value w, m')"
    and "cpu_inv (s\<lparr>cpu_csr := c\<rparr>)" "dr_dest_register r = reg_bits rd" "\<not> dr_mret r" "cr_trap r = None"
    and spec: "spec = Inr (isa_jump (if cr_branch_result (computed r) then cr_alu_result (computed r) else cpu_pc s + 4)
      (isa_write rd (writeback_value (dr_writeback_source r) (cpu_pc s)
         ((computed r)\<lparr>cr_csr_result := v, cr_memory_load_value := w\<rparr>)) (arch_of (s\<lparr>cpu_csr := c\<rparr>) (view m'))))"
  shows "refines (execute_decoded I r s m) view a spec"
proof -
  let ?r = "(computed r)\<lparr>cr_csr_result := v, cr_memory_load_value := w\<rparr>"
  obtain r' s' where e: "execute_commit ?r (s\<lparr>cpu_csr := c\<rparr>) = (r', s')" by fastforce
  have "execute_decoded I r s m = (Inr r', s', m')"
    using assms(1,2) e by (simp add: execute_decoded_def request_def computed_def Let_def)
  moreover have "cr_trap r' = cr_trap (fst (execute_commit ?r (s\<lparr>cpu_csr := c\<rparr>)))" by (simp only: e fst_conv)
  then have "cr_trap r' = None" using assms(6) by (simp add: computed_def)
  moreover have "arch_of s' (view m') =
      isa_jump (if cr_branch_result ?r then cr_alu_result ?r else cpu_pc (s\<lparr>cpu_csr := c\<rparr>) + 4)
        (isa_write rd (writeback_value (dr_writeback_source ?r) (cpu_pc (s\<lparr>cpu_csr := c\<rparr>)) ?r)
          (arch_of (s\<lparr>cpu_csr := c\<rparr>) (view m')))"
    by (rule arch_of_commit[OF e assms(3)]) (use assms(4,5) in simp_all)
  ultimately show ?thesis using spec by (simp add: refines_def)
qed

lemma refines_plain:
  assumes "plain d" "cpu_inv s" "dr_dest_register d = reg_bits rd" "\<not> dr_mret d"
    and "cpu_registers s = cpu_registers s0" "cpu_pc s = cpu_pc s0" "view n = w0"
    and "spec = Inr (isa_jump
        (if branch_module (dr_branch_opcode d) (dr_branch_num1 d) (dr_branch_num2 d)
         then alu_module (dr_alu_opcode d) (dr_alu_num1 d) (dr_alu_num2 d) else cpu_pc s + 4)
      (isa_write rd (writeback_value (dr_writeback_source d) (cpu_pc s)
         ((computed (fetched j s0 w d))\<lparr>cr_csr_result := 0, cr_memory_load_value := 0\<rparr>)) (arch_of s w0)))"
  shows "refines (execute_decoded I (fetched j s0 w d) s n) view a spec"
proof (rule refines_commit[where v = 0 and w = 0 and c = "cpu_csr s" and rd = rd and m' = n])
  show "csr_access (dr_csr_access_info (fetched j s0 w d)) (cpu_csr s) = (Inr 0, cpu_csr s)"
    using assms(1) by (simp add: plain_def csr_access_none csr_access_info_default_def)
  show "request I (fetched j s0 w d) n = (Value 0, n)"
    using assms(1) by (simp add: plain_def request_def)
qed (use assms in simp_all)

section \<open>Arithmetic instructions and jumps\<close>

lemma isa_field_simps [simp]:
  "a_pc (isa_write rd v a) = a_pc a" "isa_write 0 v a = a"
  by (simp_all add: isa_write_def)

lemma shift_immediate: "unat (scast (word_cat f shamt :: 12 word) :: u32) mod 32 = unat shamt"
  for f :: "7 word" and shamt :: "5 word"
proof -
  have "(scast (word_cat f shamt :: 12 word) :: u32) AND 0b11111 = ucast shamt"
  proof (rule bit_word_eqI)
    fix i assume "i < LENGTH(32)"
    have m: "(0b11111 :: u32) = mask 5" by (simp add: mask_eq_exp_minus_1)
    have "i < 5 \<Longrightarrow> min i 11 = i" by simp
    then show "bit ((scast (word_cat f shamt :: 12 word) :: u32) AND 0b11111) i = bit (ucast shamt :: u32) i"
      using \<open>i < LENGTH(32)\<close> by (cases "i < 5") (simp_all only: m, auto simp: bit_simps bit_signed_iff dest: bit_imp_le_length)
  qed
  then have "unat ((scast (word_cat f shamt :: 12 word) :: u32) AND 0b11111) = unat (ucast shamt :: u32)" by simp
  then show ?thesis by (simp only: shift_amount_nat unat_ucast_up) simp
qed

lemma shift_spec:
  "alu_module (alu_op (shift_op sh)) x (scast (word_cat f shamt :: 12 word)) =
     rv_op_value (shift_op sh) x (ucast shamt)" for f :: "7 word" and shamt :: "5 word"
proof -
  have "unat shamt < 2 ^ LENGTH(5)" by (rule unsigned_less)
  then have "unat shamt mod 32 = unat shamt" by simp
  then have "alu_module (alu_op (shift_op sh)) x (scast (word_cat f shamt :: 12 word)) =
      alu_module (alu_op (shift_op sh)) x (ucast shamt)"
    by (cases sh) (simp_all add: sll_def srl_def sra_def shift_amount_nat shift_immediate)
  also have "\<dots> = rv_op_value (shift_op sh) x (ucast shamt)"
    by (rule alu_spec) (cases sh; simp)+
  finally show ?thesis .
qed

lemma opi_spec: "alu_module (alu_op (opi_op opi)) x y = rv_op_value (opi_op opi) x y"
  by (rule alu_spec) (cases opi; simp)+

lemma opr_spec:
  "isa_conforms (OPR opr rd rs1 rs2) a \<Longrightarrow>
     alu_module (alu_op opr) (a_x a rs1) (a_x a rs2) = rv_op_value opr (a_x a rs1) (a_x a rs2)"
  by (cases "opr = R_MULH \<or> opr = R_MULHSU")
    (auto simp: mulh_deviation mulhsu_deviation alu_spec)

lemma branch_spec: "branch_module (branch_op b) x y = branch_taken b x y"
  by (cases b) (auto simp: compare_eq_def compare_lt_def compare_ltu_def word_less_def)

lemma even_and_not_one: "even w \<Longrightarrow> w AND NOT 1 = w" for w :: "'a::len word"
  by (rule bit_word_eqI) (auto simp: bit_simps bit_1_iff dest: bit_imp_le_length simp flip: bit_0)

lemma access_aligned:
  "is_load_funct f \<or> is_store_funct f \<Longrightarrow> is_aligned a f \<longleftrightarrow> unat a mod ls_size f = 0"
  by (cases f) (auto simp: is_load_funct_def is_store_funct_def and_low_zero ls_size.simps)

lemma funct_kinds [simp]: "is_load_funct (load_funct l)" "is_store_funct (store_funct st)"
  by (cases l; simp add: is_load_funct_def) (cases st; simp add: is_store_funct_def)

section \<open>CSR instructions\<close>

definition csr_info :: "rv_csr \<Rightarrow> reg \<Rightarrow> rv_operand \<Rightarrow> 12 word \<Rightarrow> u32 \<Rightarrow> csr_access_info" where
  "csr_info c rd src ad v =
     \<lparr>ai_write_mode = (if operand_field src = 0 then Wm_None else csr_mode c), ai_address = bs_lit ad,
      ai_write_value = v, ai_read = (c \<noteq> CSRRW \<or> rd \<noteq> 0)\<rparr>"

lemma uimm_small: "unat u < 16 \<Longrightarrow> (scast u :: u32) = ucast u" for u :: "5 word"
proof -
  assume u: "unat u < 16"
  have "\<not> bit (unat u) 4" using u by (simp add: bit_iff_odd)
  then have hi: "\<not> bit u 4" by (simp add: bit_unsigned_iff)
  show ?thesis
  proof (rule bit_word_eqI)
    fix i assume "i < LENGTH(32)"
    have "i < 4 \<Longrightarrow> min i 4 = i" "\<not> i < 4 \<Longrightarrow> min i 4 = 4" by auto
    moreover have "\<not> i < 4 \<Longrightarrow> \<not> bit u i" using hi by (cases "i = 4") (auto dest: bit_imp_le_length)
    ultimately show "bit (scast u :: u32) i = bit (ucast u :: u32) i"
      using \<open>i < LENGTH(32)\<close> hi by (cases "i < 4") (auto simp: bit_signed_iff bit_simps)
  qed
qed

lemma ucast_address: "ucast (ucast ad :: u64) = (ucast ad :: u16)" for ad :: "12 word"
  by (rule bit_word_eqI) (auto simp: bit_simps)

lemma csr_info_simps [simp]:
  "ucast (bs_value (ai_address (csr_info c rd src ad v))) = (ucast ad :: u16)"
  "csr_addr_readonly (ai_address (csr_info c rd src ad v)) = csr_readonly_address ad"
  "ai_write_value (csr_info c rd src ad v) = v"
  "ai_write_mode (csr_info c rd src ad v) = (if operand_field src = 0 then Wm_None else csr_mode c)"
  "ai_read (csr_info c rd src ad v) = (c \<noteq> CSRRW \<or> rd \<noteq> 0)"
  by (simp_all add: csr_info_def bs_value_lit csr_addr_readonly_def csr_readonly_address_def bit_bs_lit
      ucast_address bit_simps)

text \<open>A conforming instruction asks for the write it makes.\<close>

lemma csr_info_mask:
  assumes "isa_conforms (CSR c rd src ad) a" "v = operand_value src a"
  shows "csr_readonly_address ad \<Longrightarrow>
    snd (csr_write_pair (csr_info c rd src ad v)) \<noteq> 0 \<longleftrightarrow> operand_field src \<noteq> 0"
  using assms by (cases c) (auto simp: csr_write_pair_def)

lemma csr_conforms_error:
  assumes conf: "isa_conforms (CSR c rd src ad) a"
    and "isa_csr c src ad (operand_value src a) csr = Inl t"
  shows "\<exists>e. csr_access (csr_info c rd src ad (operand_value src a)) csr = (Inl e, csr) \<and> t = Illegal_instruction"
proof -
  let ?info = "csr_info c rd src ad (operand_value src a)"
  have rw: "c = CSRRW \<longrightarrow> operand_field src \<noteq> 0" using conf by simp
  consider "csr_slot_of (ucast ad) = None"
    | "csr_readonly_address ad" "operand_field src \<noteq> 0"
    using assms(2) rw by (auto simp: isa_csr_def Let_def split: option.splits if_splits)
  then show ?thesis
  proof cases
    case 1
    have "ai_read ?info \<or> ai_write_mode ?info \<noteq> Wm_None" using rw by (cases c) auto
    with 1 assms(2) show ?thesis
      by (auto simp: csr_access_def isa_csr_def Let_def split: prod.splits)
  next
    case 2
    then have "snd (csr_write_pair ?info) \<noteq> 0" using csr_info_mask[OF conf refl] by simp
    with 2 assms(2) show ?thesis
      by (auto simp: csr_access_def bs_slice_11_10 isa_csr_def Let_def split: prod.splits option.splits)
  qed
qed

lemma csr_conforms_ok:
  assumes conf: "isa_conforms (CSR c rd src ad) a" and inv: "csr_inv csr"
    and ok: "isa_csr c src ad (operand_value src a) csr = Inr (old, csr')"
  shows "csr_access (csr_info c rd src ad (operand_value src a)) csr = (Inr old, csr')"
proof -
  let ?info = "csr_info c rd src ad (operand_value src a)"
  have rw: "c = CSRRW \<longrightarrow> operand_field src \<noteq> 0" using conf by simp
  have mst: "force_legal (csr_mstatus csr) = csr_mstatus csr" using inv by (simp add: csr_inv_def mstatus_legal_def)
  have legal: "csr\<lparr>csr_mstatus := force_legal (csr_mstatus csr)\<rparr> = csr" by (simp add: mst)
  obtain sl where sl: "csr_slot_of (ucast ad) = Some sl" and old: "old = csr_get sl csr"
    and ro: "\<not> (csr_readonly_address ad \<and> operand_field src \<noteq> 0)"
    using ok rw by (auto simp: isa_csr_def Let_def split: option.splits if_splits)
  have "csr_readonly_address ad \<Longrightarrow> snd (csr_write_pair ?info) = 0"
    using csr_info_mask[OF conf refl] ro by blast
  then have reach: "csr_reachable_slot ?info sl"
    using sl rw by (cases c) (auto simp: csr_reachable_slot_def)
  show ?thesis
  proof (cases "operand_field src = 0")
    case True
    then have "csr' = csr" using ok rw sl by (simp add: isa_csr_def)
    moreover have "csr_access ?info csr = (Inr (csr_get sl csr), csr)"
    proof (cases "sl = Mstatus_low \<or> sl = Mstatus_high")
      case m: True
      from csr_access_mstatus[OF reach this, of csr] True show ?thesis
        by (simp add: legal del: csr_get.simps csr_put.simps)
    next
      case False
      with csr_access_plain[OF reach, of csr] True show ?thesis
        by (simp del: csr_get.simps csr_put.simps)
    qed
    ultimately show ?thesis by (simp add: old)
  next
    case False
    then have plain: "sl \<noteq> Mstatus_low" "sl \<noteq> Mstatus_high" using conf sl by auto
    let ?new = "csr_put sl (csr_rmw (csr_mode c) (operand_value src a) (csr_get sl csr)) csr"
    have "?new\<lparr>csr_mstatus := force_legal (csr_mstatus ?new)\<rparr> = ?new"
      by (simp add: csr_put_mstatus[OF plain] mst flip: csr_put_mstatus[OF plain, of _ csr])
    then have "csr' = ?new" using ok sl False ro by (auto simp: isa_csr_def Let_def)
    with csr_access_plain[OF reach plain, of csr] False show ?thesis
      by (simp add: old)
  qed
qed

section \<open>The refinement\<close>

context word_memory
begin

lemma refines_plain_instr:
  assumes "inst_fetch I (cpu_pc s) (cpu_inst_fetch s, m) = (Value (rv_encode i), c, n)"
    and "\<not> timer_interrupt_pending (cpu_csr s)" "cpu_inv s" "view n = view m"
    and "isa_conforms i (arch_of s (view m))"
    and "\<nexists>l rd rs1 imm. i = LOAD l rd rs1 imm" "\<nexists>st rs1 rs2 imm. i = STORE st rs1 rs2 imm"
      "\<nexists>cs rd src ad. i = CSR cs rd src ad" "i \<noteq> ECALL" "i \<noteq> MRET"
  shows "refines (execute I j s m) view (arch_of s (view m)) (isa_exec i (arch_of s (view m)))"
proof -
  let ?d = "rv_decoded (cpu_registers s) (cpu_pc s) i"
  have d: "plain ?d" "\<not> dr_mret ?d"
    using assms(6-) by (cases i; simp add: plain_def decode_result_default_def)+
  obtain rd where rd: "dr_dest_register ?d = reg_bits rd"
    and spec: "isa_exec i (arch_of s (view m)) = Inr (isa_jump
        (if branch_module (dr_branch_opcode ?d) (dr_branch_num1 ?d) (dr_branch_num2 ?d)
         then alu_module (dr_alu_opcode ?d) (dr_alu_num1 ?d) (dr_alu_num2 ?d) else cpu_pc s + 4)
      (isa_write rd (writeback_value (dr_writeback_source ?d) (cpu_pc s)
         ((computed (fetched j s (rv_encode i) ?d))\<lparr>cr_csr_result := 0, cr_memory_load_value := 0\<rparr>))
        (arch_of s (view m))))"
  proof (cases i)
    case (OPR opr rd rs1 rs2)
    then show thesis using opr_spec[of opr rd rs1 rs2 "arch_of s (view m)"] assms(5)
      by (intro that[of rd]) (simp_all add: decode_result_default_def)
  next
    case (JALR rd rs1 imm)
    then show thesis using assms(5) even_and_not_one[of "xreg (cpu_registers s) rs1 + scast imm"]
      by (intro that[of rd]) (simp_all add: decode_result_default_def compare_eq_def)
  next
    case (BRANCH b rs1 rs2 off)
    then show thesis
      by (intro that[of 0]) (simp_all add: default_dest branch_spec, simp add: decode_result_default_def)
  next
    case FENCE_I
    then show thesis
      by (intro that[of 0]) (simp_all add: default_dest, simp add: decode_result_default_def)
  qed (use that assms(6-) in \<open>auto simp: decode_result_default_def compare_eq_def opi_spec shift_spec\<close>)
  show ?thesis
    unfolding execute_encoded[OF assms(1,2,9)]
    by (rule refines_plain[OF d(1) _ rd d(2), where ?w0.0 = "view m"])
      (use assms(3,4) spec in \<open>simp_all add: cpu_inv_def\<close>)
qed

lemma refines_ecall:
  assumes "inst_fetch I (cpu_pc s) (cpu_inst_fetch s, m) = (Value (rv_encode ECALL), c, n)" "view n = view m"
  shows "refines (execute I j s m) view (arch_of s (view m)) (isa_exec ECALL (arch_of s (view m)))"
  using assms by (simp add: execute_def Let_def decode_encode refines_def decode_result_default_def
      del: rv_encode.simps)

lemma load_not_ecall: "LOAD l rd rs1 imm \<noteq> ECALL" "STORE st rs1 rs2 imm \<noteq> ECALL" "CSR cs rd src ad \<noteq> ECALL"
  by simp_all

lemma refines_load:
  assumes "inst_fetch I (cpu_pc s) (cpu_inst_fetch s, m) = (Value (rv_encode (LOAD l rd rs1 imm)), c, n)"
    and "\<not> timer_interrupt_pending (cpu_csr s)" "cpu_inv s" "inv n" "view n = view m"
    and acc: "isa_accessible (LOAD l rd rs1 imm) (arch_of s (view m))"
  shows "refines (execute I j s m) view (arch_of s (view m)) (isa_exec (LOAD l rd rs1 imm) (arch_of s (view m)))"
proof -
  let ?i = "LOAD l rd rs1 imm"
  let ?d = "rv_decoded (cpu_registers s) (cpu_pc s) ?i"
  let ?r = "fetched j s (rv_encode ?i) ?d"
  let ?s = "s\<lparr>cpu_inst_fetch := c\<rparr>"
  define addr where "addr = xreg (cpu_registers s) rs1 + scast imm"
  have q: "request I ?r n = load_store I Ls_Load (load_funct l) addr (dr_memory_store_value ?r) n"
    by (simp add: request_def addr_def decode_result_default_def)
  have csr: "csr_access (dr_csr_access_info ?r) (cpu_csr s) = (Inr 0, cpu_csr s)"
    by (simp add: csr_access_none decode_result_default_def csr_access_info_default_def)
  have al: "is_aligned addr (load_funct l) \<longleftrightarrow> unat addr mod ls_size (load_funct l) = 0"
    by (rule access_aligned) simp
  show ?thesis
  proof (cases "is_aligned addr (load_funct l)")
    case True
    with acc al obtain p v where v: "view n (ucast (addr AND 0xfffffffc)) = Some (p, v)"
      by (auto simp: addr_def byte_at_def assms(5))
    obtain n' where n': "load_store I Ls_Load (load_funct l) addr (dr_memory_store_value ?r) n
        = (Value (isa_load l addr (arch_of s (view m))), n')"
      using load_bytes[OF assms(4) True _ v] assms(5) by (metis arch_of_simps(4) funct_kinds(1) isa_load_def prod.collapse)
    have w: "view n' = view m"
      using load_view[OF assms(4), of "load_funct l" addr "dr_memory_store_value ?r"] n' assms(5) by simp
    show ?thesis
      unfolding execute_encoded[OF assms(1,2) load_not_ecall(1)]
      by (rule refines_commit[where v = 0 and c = "cpu_csr s" and rd = rd and m' = n'
            and w = "isa_load l addr (arch_of s (view m))"])
        (use csr q n' w assms(3) True al in
          \<open>simp_all add: cpu_inv_def decode_result_default_def addr_def\<close>)
  next
    case False
    then have "load_store I Ls_Load (load_funct l) addr (dr_memory_store_value ?r) n = (Unexpected Load_address_misaligned, n)"
      by (simp add: load_store_def Let_def)
    then have "execute_decoded I ?r ?s n = (Inr ((computed ?r)\<lparr>cr_csr_result := 0, cr_trap := Some Load_address_misaligned\<rparr>), ?s, n)"
      using csr q by (simp add: execute_decoded_def Let_def request_def computed_def)
    moreover have "execute I j s m = execute_decoded I ?r ?s n"
      by (rule execute_encoded[OF assms(1,2)]) simp
    ultimately show ?thesis using False al assms(5)
      by (simp add: refines_def addr_def)
  qed
qed

lemma refines_store:
  assumes "inst_fetch I (cpu_pc s) (cpu_inst_fetch s, m) = (Value (rv_encode (STORE st rs1 rs2 imm)), c, n)"
    and "\<not> timer_interrupt_pending (cpu_csr s)" "cpu_inv s" "inv n" "view n = view m"
    and acc: "isa_accessible (STORE st rs1 rs2 imm) (arch_of s (view m))"
  shows "refines (execute I j s m) view (arch_of s (view m)) (isa_exec (STORE st rs1 rs2 imm) (arch_of s (view m)))"
proof -
  let ?i = "STORE st rs1 rs2 imm"
  let ?d = "rv_decoded (cpu_registers s) (cpu_pc s) ?i"
  let ?r = "fetched j s (rv_encode ?i) ?d"
  let ?s = "s\<lparr>cpu_inst_fetch := c\<rparr>"
  let ?a = "arch_of s (view m)"
  define addr where "addr = xreg (cpu_registers s) rs1 + scast imm"
  define v where "v = xreg (cpu_registers s) rs2"
  have q: "request I ?r n = load_store I Ls_Store (store_funct st) addr v n"
    by (simp add: request_def addr_def v_def decode_result_default_def)
  have csr: "csr_access (dr_csr_access_info ?r) (cpu_csr s) = (Inr 0, cpu_csr s)"
    by (simp add: csr_access_none decode_result_default_def csr_access_info_default_def)
  have al: "is_aligned addr (store_funct st) \<longleftrightarrow> unat addr mod ls_size (store_funct st) = 0"
    by (rule access_aligned) simp
  show ?thesis
  proof (cases "is_aligned addr (store_funct st)")
    case True
    with acc al obtain u where u: "view n (ucast (addr AND 0xfffffffc)) = Some (True, u)"
      by (auto simp: addr_def byte_at_def assms(5))
    obtain n' where n': "load_store I Ls_Store (store_funct st) addr v n = (Value 0, n')"
      using store_ok[OF assms(4) True _ u] by (metis funct_kinds(2) prod.collapse)
    have "byte_at (view n') = a_mem (isa_store st addr v ?a)"
      by (rule ext) (use store_bytes[OF assms(4) True _ u, of v] n' assms(5) in
        \<open>simp add: isa_store_def\<close>)
    then have "arch_of ?s (view n') = isa_store st addr v ?a"
      by (simp add: arch_of_def isa_store_def)
    moreover have "isa_exec ?i ?a = Inr (isa_jump (cpu_pc s + 4) (isa_store st addr v ?a))"
      using True al by (simp add: addr_def v_def Let_def isa_store_def isa_jump_def)
    moreover have "dr_branch_opcode ?d = Br_None" "\<not> dr_mret ?d"
      by (simp_all add: decode_result_default_def)
    ultimately show ?thesis
      unfolding execute_encoded[OF assms(1,2) load_not_ecall(2)]
      by (intro refines_commit[where v = 0 and c = "cpu_csr s" and rd = 0 and m' = n' and w = 0])
        (use csr q n' assms(3) in \<open>simp_all add: cpu_inv_def default_dest del: isa_exec.simps\<close>)
  next
    case False
    then have "load_store I Ls_Store (store_funct st) addr v n = (Unexpected Store_address_misaligned, n)"
      by (simp add: load_store_def Let_def)
    then have "execute_decoded I ?r ?s n = (Inr ((computed ?r)\<lparr>cr_csr_result := 0, cr_trap := Some Store_address_misaligned\<rparr>), ?s, n)"
      using csr q by (simp add: execute_decoded_def Let_def request_def computed_def)
    moreover have "execute I j s m = execute_decoded I ?r ?s n"
      by (rule execute_encoded[OF assms(1,2)]) simp
    ultimately show ?thesis using False al assms(5)
      by (simp add: refines_def addr_def)
  qed
qed

lemma refines_csr:
  assumes "inst_fetch I (cpu_pc s) (cpu_inst_fetch s, m) = (Value (rv_encode (CSR c rd src ad)), cache, n)"
    and "\<not> timer_interrupt_pending (cpu_csr s)" "cpu_inv s" "view n = view m"
    and conf: "isa_conforms (CSR c rd src ad) (arch_of s (view m))"
  shows "refines (execute I j s m) view (arch_of s (view m)) (isa_exec (CSR c rd src ad) (arch_of s (view m)))"
proof -
  let ?i = "CSR c rd src ad"
  let ?d = "rv_decoded (cpu_registers s) (cpu_pc s) ?i"
  let ?r = "fetched j s (rv_encode ?i) ?d"
  let ?s = "s\<lparr>cpu_inst_fetch := cache\<rparr>"
  let ?a = "arch_of s (view m)"
  have v: "csr_operand (cpu_registers s) src = operand_value src ?a"
    using conf uimm_small by (cases src) auto
  have info: "dr_csr_access_info ?r = csr_info c rd src ad (operand_value src ?a)"
    by (simp add: csr_info_def v)
  have q: "request I ?r n = (Value 0, n)"
    by (simp add: request_def decode_result_default_def)
  have inv: "csr_inv (cpu_csr s)" using assms(3) by (simp add: cpu_inv_def)
  show ?thesis
  proof (cases "isa_csr c src ad (operand_value src ?a) (cpu_csr s)")
    case (Inl t)
    from csr_conforms_error[OF conf[unfolded arch_of_simps] Inl[unfolded arch_of_simps]] obtain e where
      acc: "csr_access (dr_csr_access_info ?r) (cpu_csr s) = (Inl e, cpu_csr s)" and t: "t = Illegal_instruction"
      unfolding info by auto
    have "execute_decoded I ?r ?s n = (Inr ((computed ?r)\<lparr>cr_trap := Some Illegal_instruction\<rparr>), ?s, n)"
      using acc by (simp add: execute_decoded_def Let_def computed_def)
    then show ?thesis
      unfolding execute_encoded[OF assms(1,2) load_not_ecall(3)]
      using Inl t assms(4) by (simp add: refines_def)
  next
    case (Inr p)
    obtain old csr' where p: "p = (old, csr')" by (cases p)
    from csr_conforms_ok[OF conf[unfolded arch_of_simps] inv Inr[unfolded p arch_of_simps]]
    have acc: "csr_access (dr_csr_access_info ?r) (cpu_csr s) = (Inr old, csr')" unfolding info .
    have "csr_inv csr'" using csr_access_inv[OF inv, of "dr_csr_access_info ?r"] acc by simp
    moreover have "isa_exec ?i ?a = Inr (isa_jump (cpu_pc s + 4) (isa_write rd old (?a\<lparr>a_csr := csr'\<rparr>)))"
      using Inr p by simp
    moreover have "?a\<lparr>a_csr := csr'\<rparr> = arch_of (?s\<lparr>cpu_csr := csr'\<rparr>) (view n)"
      using assms(4) by (simp add: arch_of_def)
    moreover have "dr_branch_opcode ?d = Br_None" "\<not> dr_mret ?d"
      by (simp_all add: decode_result_default_def)
    ultimately show ?thesis
      unfolding execute_encoded[OF assms(1,2) load_not_ecall(3)]
      by (intro refines_commit[where v = old and c = csr' and rd = rd and m' = n and w = 0])
        (use acc q assms(3) in \<open>simp_all add: cpu_inv_def del: isa_exec.simps\<close>)
  qed
qed

text \<open>
  The CPU implements the manual: fetched an instruction of the manual and with no interrupt
  pending, \<open>execute\<close> ends in the state, or with the trap, the manual gives.
\<close>

lemma execute_refines:
  assumes f: "inst_fetch I (cpu_pc s) (cpu_inst_fetch s, m) = (Value (rv_encode i), c, n)"
    and "\<not> timer_interrupt_pending (cpu_csr s)" "cpu_inv s" "inv m"
    and "isa_conforms i (arch_of s (view m))" "isa_accessible i (arch_of s (view m))"
  shows "refines (execute I j s m) view (arch_of s (view m)) (isa_exec i (arch_of s (view m)))"
proof -
  have n: "inv n" "view n = view m"
    using inst_fetch_inv[OF assms(4) f] inst_fetch_view[OF assms(4) f] by auto
  show ?thesis
  proof (cases i)
    case (LOAD l rd rs1 imm)
    show ?thesis using refines_load[OF f[unfolded LOAD] assms(2,3) n assms(6)[unfolded LOAD]] by (simp only: LOAD)
  next
    case (STORE st rs1 rs2 imm)
    show ?thesis using refines_store[OF f[unfolded STORE] assms(2,3) n assms(6)[unfolded STORE]] by (simp only: STORE)
  next
    case (CSR cs rd src ad)
    show ?thesis using refines_csr[OF f[unfolded CSR] assms(2,3) n(2) assms(5)[unfolded CSR]] by (simp only: CSR)
  next
    case ECALL
    show ?thesis using refines_ecall[OF f[unfolded ECALL] n(2)] by (simp only: ECALL)
  qed (use refines_plain_instr[OF f assms(2,3) n(2) assms(5)] assms(5) in simp_all)
qed

end

section \<open>Deviations from the manual\<close>

text \<open>
  What \<open>MRET\<close> and \<open>FENCE.I\<close> do. \<open>MRET\<close> clears \<open>mpie\<close> where the manual sets it; \<open>FENCE.I\<close> keeps
  the fetch cache, for \<open>execute\<close> never looks at \<open>fencei\<close>.
\<close>

lemma execute_mret:
  assumes "inst_fetch I (cpu_pc s) (cpu_inst_fetch s, m) = (Value (rv_encode MRET), c, n)"
    and "\<not> timer_interrupt_pending (cpu_csr s)"
  shows "\<exists>r. execute I j s m =
    (Inr r,
     s\<lparr>cpu_inst_fetch := c, cpu_pc := csr_mepc (cpu_csr s),
       cpu_csr := (cpu_csr s)\<lparr>csr_mstatus := (csr_mstatus (cpu_csr s))
         \<lparr>ms_mie := ms_mpie (csr_mstatus (cpu_csr s)), ms_mpie := False\<rparr>\<rparr>\<rparr>, n)
    \<and> cr_trap r = None"
proof -
  have "MRET \<noteq> ECALL" by simp
  have csr: "csr_access csr_access_info_default k = (Inr 0, k)" for k
    by (simp add: csr_access_none csr_access_info_default_def)
  have zero: "bs_eq_int (bs_of 0 :: 5 bitset) 0" by (simp add: bs_eq_int_def bs_of_def)
  have "computed (fetched j s w d) = (fetched j s w d)\<lparr>
      cr_alu_result := alu_module (dr_alu_opcode d) (dr_alu_num1 d) (dr_alu_num2 d),
      cr_branch_result := branch_module (dr_branch_opcode d) (dr_branch_num1 d) (dr_branch_num2 d)\<rparr>" for w d
    by (simp add: computed_def)
  show ?thesis
    unfolding execute_encoded[OF assms \<open>MRET \<noteq> ECALL\<close>]
    by (simp add: execute_decoded_def execute_commit_def Let_def decode_result_default_def csr zero)
qed

lemma execute_fence_i:
  assumes "inst_fetch I (cpu_pc s) (cpu_inst_fetch s, m) = (Value (rv_encode FENCE_I), c, n)"
    and "\<not> timer_interrupt_pending (cpu_csr s)"
  shows "\<exists>r. execute I j s m = (Inr r, s\<lparr>cpu_inst_fetch := c, cpu_pc := cpu_pc s + 4\<rparr>, n) \<and> cr_trap r = None"
proof -
  have "FENCE_I \<noteq> ECALL" by simp
  have csr: "csr_access csr_access_info_default k = (Inr 0, k)" for k
    by (simp add: csr_access_none csr_access_info_default_def)
  have zero: "bs_eq_int (bs_of 0 :: 5 bitset) 0" by (simp add: bs_eq_int_def bs_of_def)
  show ?thesis
    unfolding execute_encoded[OF assms \<open>FENCE_I \<noteq> ECALL\<close>]
    by (simp add: execute_decoded_def execute_commit_def Let_def decode_result_default_def csr zero)
qed

lemma fetch_hit:
  "pc AND 0x3 = 0 \<Longrightarrow> cache_hit c pc \<Longrightarrow>
     inst_fetch I pc (c, m) = (Value (ce_data (c (cache_idx pc)) (word_index pc)), c, m)"
  by (simp add: inst_fetch_def)

section \<open>Read-only memory\<close>

context word_memory
begin

lemma view_write_readonly: "w a = Some (False, v) \<Longrightarrow> view_write b d k w a = Some (False, v)"
  by (auto simp: view_write_def split: option.splits bool.splits)

lemma load_store_readonly:
  "inv m \<Longrightarrow> view m a = Some (False, v) \<Longrightarrow> view (snd (load_store I opc f addr x m)) a = Some (False, v)"
  using load_view[of m f addr x] view_write_readonly[of "view m" a v]
  by (cases opc)
    (auto simp: load_store_def Let_def write_view[symmetric] split: option.splits prod.splits expected.splits
      dest!: arg_cong[of _ _ snd] simp flip: write_view)

lemma execute_readonly:
  assumes "inv m" "view m a = Some (False, v)" "execute I j s m = (R, s', m')"
  shows "view m' a = Some (False, v)"
  using assms(3)
proof (cases rule: execute_cases)
  case (decoded c w d n)
  have n: "inv n" "view n = view m"
    using inst_fetch_inv[OF assms(1) decoded(1)] inst_fetch_view[OF assms(1) decoded(1)] by auto
  have "view (snd (request I (fetched j s w d) n)) a = Some (False, v)"
    unfolding request_def by (rule load_store_readonly[OF n(1)]) (simp add: n(2) assms(2))
  with decoded(4) n assms(2) show ?thesis by (cases rule: execute_decoded_cases) auto
qed (use inst_fetch_view[OF assms(1)] assms(2) in auto)

end

end
