(* ===== verification/Accessor.thy ===== *)
theory Accessor
  imports Cpu
begin

text \<open>
  \<open>lib/include/gdb-stub/accessor.hpp\<close> and \<open>lib/gdb-stub/accessor.cpp\<close>: the debugger's access to
  bytes of memory and to registers by the numbers of the protocol: 0 to 31 the general-purpose
  registers, 32 the program counter, from 128 the CSRs. The accessor interprets \<open>register_bank\<close> on the
  registers that hold what is written to them.
\<close>

unbundle bit_operations_syntax

section \<open>Memory\<close>

definition memory_accessor_read :: "'m memory_interface \<Rightarrow> u32 \<Rightarrow> 'm \<Rightarrow> (u8, unit) expected \<times> 'm" where
  "memory_accessor_read memory address m =
     (case mi_read memory m (ucast (address AND NOT 0x3)) of
        (Value w, m) \<Rightarrow> (Value (bytes_of_u32 w ! unat (address AND 0x3)), m)
      | (Unexpected _, m) \<Rightarrow> (Unexpected (), m)
      | (Throw x, m) \<Rightarrow> (Throw x, m))"

definition memory_accessor_write :: "'m memory_interface \<Rightarrow> u32 \<Rightarrow> u8 \<Rightarrow> 'm \<Rightarrow> (exn + bool) \<times> 'm" where
  "memory_accessor_write memory address v m =
     (let aligned_addr = address AND NOT 0x3;
          byte_enable = bs_of (push_bit (unat (address AND 0x3)) 1) :: 4 bitset;
          write_data = push_bit (unat ((address AND 0x3) * 8)) (ucast v)
      in case mi_write memory m (ucast aligned_addr) write_data byte_enable of
           (Value _, m) \<Rightarrow> (Inr True, m)
         | (Unexpected _, m) \<Rightarrow> (Inr False, m)
         | (Throw x, m) \<Rightarrow> (Inl x, m))"

section \<open>Registers\<close>

definition cpu_register_read :: "u32 \<Rightarrow> cpu \<Rightarrow> u32 option \<times> cpu" where
  "cpu_register_read reg_num s =
     (if reg_num < 32 then (Some (get_register (bs_of (ucast reg_num)) (cpu_registers s)), s)
      else if reg_num = 32 then (Some (cpu_pc s), s)
      else if 128 \<le> reg_num
      then (case csr_access
                   \<lparr>ai_write_mode = Wm_None, ai_address = bs_of (ucast (reg_num - 128)), ai_write_value = 0,
                    ai_read = True\<rparr> (cpu_csr s) of
              (Inr v, c) \<Rightarrow> (Some v, s\<lparr>cpu_csr := c\<rparr>)
            | (Inl _, c) \<Rightarrow> (None, s\<lparr>cpu_csr := c\<rparr>))
      else (None, s))"

definition cpu_register_write :: "u32 \<Rightarrow> u32 \<Rightarrow> cpu \<Rightarrow> bool \<times> cpu" where
  "cpu_register_write reg_num v s =
     (if reg_num < 32
      then (True, s\<lparr>cpu_registers := set_register (bs_of (ucast reg_num)) v (cpu_registers s)\<rparr>)
      else if reg_num = 32 then (True, s\<lparr>cpu_pc := v\<rparr>)
      else if 128 \<le> reg_num
      then (case csr_access
                   \<lparr>ai_write_mode = Wm_Overwrite, ai_address = bs_of (ucast (reg_num - 128)), ai_write_value = v,
                    ai_read = True\<rparr> (cpu_csr s) of
              (Inr _, c) \<Rightarrow> (True, s\<lparr>cpu_csr := c\<rparr>)
            | (Inl _, c) \<Rightarrow> (False, s\<lparr>cpu_csr := c\<rparr>))
      else (False, s))"

section \<open>The accessor as a bank of registers\<close>

definition reg_get :: "u32 \<Rightarrow> cpu \<Rightarrow> u32" where
  "reg_get n s = the (fst (cpu_register_read n s))"

definition reg_put :: "u32 \<Rightarrow> u32 \<Rightarrow> cpu \<Rightarrow> cpu" where
  "reg_put n v s = snd (cpu_register_write n v s)"

text \<open>The slot of a CSR number, and the numbers whose register keeps every bit written to it.\<close>

definition csr_number :: "u32 \<Rightarrow> csr_slot option" where
  "csr_number n = (if 128 \<le> n \<and> n < 128 + 4096 then csr_slot_of (ucast (n - 128)) else None)"

definition reg_valid :: "u32 \<Rightarrow> bool" where
  "reg_valid n \<longleftrightarrow> n \<le> 32 \<or> csr_number n \<notin> {None, Some Mstatus_low, Some Mstatus_high}"

definition reg_writable :: "u32 \<Rightarrow> bool" where
  "reg_writable n \<longleftrightarrow> n \<noteq> 0 \<and> csr_number n \<notin> Some ` {Mvendorid, Marchid, Mimpid, Mhartid, Mconfigptr}"

fun slot_address :: "csr_slot \<Rightarrow> u16" where
  "slot_address Mscratch = 0x340"
| "slot_address Misa = 0x301"
| "slot_address Mvendorid = 0xF11"
| "slot_address Marchid = 0xF12"
| "slot_address Mimpid = 0xF13"
| "slot_address Mhartid = 0xF14"
| "slot_address Mconfigptr = 0xF15"
| "slot_address Mcycles_low = 0xB00"
| "slot_address Mcycles_high = 0xB80"
| "slot_address Minstret_low = 0xB02"
| "slot_address Minstret_high = 0xB82"
| "slot_address Mepc = 0x341"
| "slot_address Mcause = 0x342"
| "slot_address Mtval = 0x343"
| "slot_address Mip = 0x344"
| "slot_address Mie = 0x304"
| "slot_address Mtvec = 0x305"
| "slot_address Mstatus_low = 0x300"
| "slot_address Mstatus_high = 0x310"

lemma csr_slot_address: "csr_slot_of a = Some s \<Longrightarrow> a = slot_address s"
  by (auto simp: csr_slot_of_def split: if_splits)

lemma csr_slot_of_inj: "csr_slot_of a = Some s \<Longrightarrow> csr_slot_of b = Some s \<Longrightarrow> a = b"
  using csr_slot_address by blast

lemma csr_value:
  fixes n :: u32
  assumes "128 \<le> n" "n < 4224"
  shows "ucast (bs_value (bs_of (ucast (n - 128)) :: 12 bitset)) = (ucast (n - 128) :: u16)"
proof -
  have "n - 128 < 4096" using assms by (simp add: word_less_nat_alt word_le_nat_alt unat_sub)
  then have "(ucast (n - 128) :: u64) < 4096" by (simp add: word_less_nat_alt unat_ucast_up)
  then have "(ucast (n - 128) :: u64) AND bs_mask 12 = ucast (n - 128)"
    by (simp add: bs_mask_eq less_mask_eq)
  moreover have "ucast (ucast (n - 128) :: u64) = (ucast (n - 128) :: u16)"
    by (rule bit_word_eqI) (auto simp: bit_simps)
  ultimately show ?thesis by (simp add: bs_of_def)
qed

lemma csr_address:
  fixes n :: u32
  assumes "csr_number n = Some sl"
  defines "a \<equiv> bs_of (ucast (n - 128)) :: 12 bitset"
  shows "csr_slot_of (ucast (bs_value a)) = Some sl" "bs_inv a" "128 \<le> n"
proof -
  have n: "128 \<le> n" "n < 4224" using assms(1) by (simp_all add: csr_number_def split: if_splits)
  then show "csr_slot_of (ucast (bs_value a)) = Some sl"
    using assms(1) by (simp add: a_def csr_value csr_number_def)
  show "bs_inv a" by (simp add: a_def bs_inv_of)
  show "128 \<le> n" by (rule n(1))
qed

lemma csr_number_readonly:
  "csr_number n = Some sl \<Longrightarrow>
     csr_addr_readonly (bs_of (ucast (n - 128)) :: 12 bitset) \<longleftrightarrow> sl \<in> {Mvendorid, Marchid, Mimpid, Mhartid, Mconfigptr}"
  using csr_slot_readonly[OF csr_address(1)] by blast

lemma high_number: "csr_number n = Some sl \<Longrightarrow> \<not> n < 32 \<and> n \<noteq> 32 \<and> 128 \<le> n"
  using csr_address(3)[of n sl] by (auto simp: word_le_nat_alt word_less_nat_alt)

text \<open>What the accessor does, register by register.\<close>

lemma accessor_gpr:
  assumes "n < 32"
  shows "cpu_register_read n s = (Some (get_register (bs_of (ucast n)) (cpu_registers s)), s)"
    "cpu_register_write n v s = (True, s\<lparr>cpu_registers := set_register (bs_of (ucast n)) v (cpu_registers s)\<rparr>)"
  using assms by (simp_all add: cpu_register_read_def cpu_register_write_def)

lemma accessor_pc:
  "cpu_register_read 32 s = (Some (cpu_pc s), s)" "cpu_register_write 32 v s = (True, s\<lparr>cpu_pc := v\<rparr>)"
  by (simp_all add: cpu_register_read_def cpu_register_write_def)

text \<open>The numbers below 4224 that the accessor reads.\<close>

lemma accessor_serves:
  assumes "n < 4224"
  shows "fst (cpu_register_read n s) \<noteq> None \<longleftrightarrow> n \<le> 32 \<or> csr_number n \<noteq> None"
proof -
  have "n \<le> 32 \<longleftrightarrow> n < 32 \<or> n = 32" by (auto simp: order.order_iff_strict)
  moreover have "\<not> 128 \<le> n" if "n \<le> 32" using that by (auto dest: order_trans)
  ultimately show ?thesis using assms csr_value[of n]
    by (auto simp: cpu_register_read_def csr_number_def csr_access_def csr_write_pair_def csr_write_def Let_def
        split: option.splits)
qed

lemma accessor_csr_read:
  assumes "csr_number n = Some sl" "sl \<noteq> Mstatus_low" "sl \<noteq> Mstatus_high"
  shows "cpu_register_read n s = (Some (csr_get sl (cpu_csr s)), s)"
proof -
  let ?i = "\<lparr>ai_write_mode = Wm_None, ai_address = bs_of (ucast (n - 128)), ai_write_value = 0, ai_read = True\<rparr>"
  have "csr_reachable_slot ?i sl"
    using csr_address(1)[OF assms(1)] by (simp add: csr_reachable_slot_def csr_write_pair_def)
  then have "csr_access ?i (cpu_csr s) = (Inr (csr_get sl (cpu_csr s)), cpu_csr s)"
    using csr_access_plain[of ?i sl] assms(2,3) by simp
  then show ?thesis using high_number[OF assms(1)] by (simp add: cpu_register_read_def)
qed

lemma accessor_csr_write:
  assumes "csr_number n = Some sl" "sl \<noteq> Mstatus_low" "sl \<noteq> Mstatus_high"
  shows "cpu_register_write n v s =
    (if sl \<in> {Mvendorid, Marchid, Mimpid, Mhartid, Mconfigptr} then (False, s)
     else (True, s\<lparr>cpu_csr := csr_put sl v (cpu_csr s)\<rparr>))"
proof -
  let ?i = "\<lparr>ai_write_mode = Wm_Overwrite, ai_address = bs_of (ucast (n - 128)), ai_write_value = v, ai_read = True\<rparr>"
  note hi = high_number[OF assms(1)] and ro = csr_number_readonly[OF assms(1)]
  show ?thesis
  proof (cases "sl \<in> {Mvendorid, Marchid, Mimpid, Mhartid, Mconfigptr}")
    case True
    then have "csr_access ?i (cpu_csr s) = (Inl Write_readonly, cpu_csr s)"
      using ro by (simp add: csr_access_def csr_write_pair_def bs_slice_11_10)
    then show ?thesis using hi True by (auto simp: cpu_register_write_def)
  next
    case False
    then have "csr_reachable_slot ?i sl"
      using csr_address(1)[OF assms(1)] ro by (simp add: csr_reachable_slot_def)
    then have "csr_access ?i (cpu_csr s) = (Inr (csr_get sl (cpu_csr s)), csr_put sl v (cpu_csr s))"
      using csr_access_plain[of ?i sl] assms(2,3) by simp
    then show ?thesis using hi False by (auto simp: cpu_register_write_def)
  qed
qed

lemma cpu_register_write_inv: "cpu_inv s \<Longrightarrow> cpu_inv (snd (cpu_register_write n v s))"
  using csr_access_inv[of "cpu_csr s"]
  by (auto simp: cpu_register_write_def cpu_inv_def set_register_inv bs_inv_of Let_def split: prod.splits sum.splits)
    (metis snd_conv)+

lemma cpu_register_read_inv: "cpu_inv s \<Longrightarrow> cpu_inv (snd (cpu_register_read n s))"
  using csr_access_inv[of "cpu_csr s"]
  by (auto simp: cpu_register_read_def cpu_inv_def Let_def split: prod.splits sum.splits) (metis snd_conv)+

lemma small_number:
  assumes "n \<le> (32 :: u32)"
  shows "csr_number n = None"
  using assms by (auto simp: csr_number_def dest: order_trans)

lemma gpr_index:
  assumes "m < (32 :: u32)"
  shows "bs_nat (bs_of (ucast m) :: 5 bitset) = unat m" "bs_inv (bs_of (ucast m) :: 5 bitset)"
proof -
  have "(ucast m :: u64) < 32" using assms by (simp add: word_less_nat_alt unat_ucast_up)
  then have "(ucast m :: u64) AND bs_mask 5 = ucast m"
    by (simp add: bs_mask_eq less_mask_eq)
  then show "bs_nat (bs_of (ucast m) :: 5 bitset) = unat m" by (simp add: bs_nat_def bs_of_def unat_ucast_up)
  show "bs_inv (bs_of (ucast m) :: 5 bitset)" by (simp add: bs_inv_of)
qed

text \<open>Three kinds of valid numbers.\<close>

lemma reg_valid_cases:
  assumes "reg_valid n"
  obtains (gpr) "n < 32" "\<And>s. reg_get n s = get_register (bs_of (ucast n)) (cpu_registers s)"
      "\<And>v s. reg_put n v s = s\<lparr>cpu_registers := set_register (bs_of (ucast n)) v (cpu_registers s)\<rparr>"
    | (pc) "n = 32" "\<And>s. reg_get n s = cpu_pc s" "\<And>v s. reg_put n v s = s\<lparr>cpu_pc := v\<rparr>"
    | (csr) sl where "csr_number n = Some sl" "\<And>s. reg_get n s = csr_get sl (cpu_csr s)"
      "\<And>v s. reg_put n v s = (if reg_writable n then s\<lparr>cpu_csr := csr_put sl v (cpu_csr s)\<rparr> else s)"
proof -
  consider "n < 32" | "n = 32" | sl where "csr_number n = Some sl" "sl \<noteq> Mstatus_low" "sl \<noteq> Mstatus_high"
    using assms by (fastforce simp: reg_valid_def)
  then show thesis
  proof cases
    case 1
    then show thesis by (intro gpr) (simp_all add: reg_get_def reg_put_def accessor_gpr)
  next
    case 2
    then show thesis by (intro pc) (simp_all add: reg_get_def reg_put_def accessor_pc)
  next
    case 3
    have "n \<noteq> 0" using high_number[OF 3(1)] by auto
    with 3 show thesis
      by (intro csr[OF 3(1)]) (auto simp: reg_get_def reg_put_def accessor_csr_read accessor_csr_write reg_writable_def)
  qed
qed

interpretation debug_regs: register_bank reg_get reg_put reg_valid reg_writable cpu_inv
proof
  fix s :: cpu and i j v
  assume inv: "cpu_inv s" and i: "reg_valid i"
  then have rf: "register_file_inv (cpu_registers s)" by (simp add: cpu_inv_def)
  show "cpu_inv (reg_put i v s)" using inv by (simp add: reg_put_def cpu_register_write_inv)
  show "reg_get i (reg_put i v s) = v" if w: "reg_writable i"
    using i
  proof (cases rule: reg_valid_cases)
    case gpr
    have "i \<noteq> 0" using w by (simp add: reg_writable_def)
    then have "\<not> bs_eq_int (bs_of (ucast i) :: 5 bitset) 0"
      using gpr_index[OF gpr(1)] by (simp add: bs_eq_int_zero unat_eq_0)
    then show ?thesis using regs.get_put_same[OF rf gpr_index(2)[OF gpr(1)]] by (simp add: gpr)
  qed (use w csrs.get_put_same in simp_all)
  show "reg_get i (reg_put i v s) = reg_get i s" if w: "\<not> reg_writable i"
    using i
  proof (cases rule: reg_valid_cases)
    case gpr
    then have "i = 0" using w small_number[of i] by (auto simp: reg_writable_def)
    moreover have "bs_eq_int (bs_of 0 :: 5 bitset) 0" by (simp add: bs_eq_int_def bs_of_def)
    ultimately show ?thesis using gpr by (simp add: set_register_def)
  next
    case pc
    then show ?thesis using w small_number[of 32] by (auto simp: reg_writable_def)
  qed (use w in auto)
  show "reg_get j (reg_put i v s) = reg_get j s" if j: "reg_valid j" and ne: "i \<noteq> j"
    using i
  proof (cases rule: reg_valid_cases)
    case g: gpr
    show ?thesis using j
    proof (cases rule: reg_valid_cases)
      case gpr
      have "(bs_of (ucast i) :: 5 bitset) \<noteq> bs_of (ucast j)"
        using ne gpr_index(1)[OF g(1)] gpr_index(1)[OF gpr(1)] by (metis word_unat_eq_iff)
      then show ?thesis
        using regs.get_put_other[OF rf gpr_index(2)[OF g(1)] gpr_index(2)[OF gpr(1)]] g gpr by simp
    qed (simp_all add: g)
  next
    case p: pc
    show ?thesis using j by (cases rule: reg_valid_cases) (use ne p in simp_all)
  next
    case c: (csr sl)
    show ?thesis using j
    proof (cases rule: reg_valid_cases)
      case (csr sl')
      have "sl \<noteq> sl'"
      proof
        assume "sl = sl'"
        then have "(ucast (i - 128) :: u16) = ucast (j - 128)" "128 \<le> i" "i < 4224" "128 \<le> j" "j < 4224"
          using c(1) csr(1) by (auto simp: csr_number_def split: if_splits intro: csr_slot_of_inj)
        moreover have "unat (ucast (k - 128) :: u16) = unat k - 128" if "128 \<le> k" "k < 4224" for k :: u32
          using that by (simp add: unsigned_ucast_eq take_bit_nat_eq_self word_le_nat_alt word_less_nat_alt unat_sub)
        ultimately have "unat i - 128 = unat j - 128" "128 \<le> unat i" "128 \<le> unat j"
          by (metis, simp_all add: word_le_nat_alt)
        then show False using ne by (simp add: word_unat_eq_iff)
      qed
      then show ?thesis using c csr by (simp add: csrs.get_put_other)
    qed (simp_all add: c)
  qed
qed

end
