(* ===== verification/DebugMemory.thy ===== *)
theory DebugMemory
  imports Accessor
begin

text \<open>
  The memory loops of \<open>handle_mem_read\<close> and \<open>handle_mem_write\<close> in \<open>main/src/emulator-debug.cpp\<close>, over
  any memory interface. A read takes the addresses word by word, a write byte by byte, and passes the
  address of the byte to the device. The lemmas hold for every \<open>word_memory\<close>.
\<close>

unbundle bit_operations_syntax

section \<open>The loops\<close>

text \<open>\<open>std::views::iota | take\<close> on a \<open>u32\<close>, which wraps around, and \<open>std::views::chunk_by\<close>.\<close>

definition iota :: "u32 \<Rightarrow> nat \<Rightarrow> u32 list" where
  "iota a n = map (\<lambda>i. a + of_nat i) [0..<n]"

fun chunk_by :: "('a \<Rightarrow> 'a \<Rightarrow> bool) \<Rightarrow> 'a list \<Rightarrow> 'a list list" where
  "chunk_by p [] = []"
| "chunk_by p (x # xs) =
     (case chunk_by p xs of
        [] \<Rightarrow> [[x]]
      | c # cs \<Rightarrow> if p x (hd c) then (x # c) # cs else [x] # c # cs)"

definition same_word :: "u32 \<Rightarrow> u32 \<Rightarrow> bool" where
  "same_word prev next \<longleftrightarrow> prev mod 4 \<noteq> 3 \<or> next mod 4 \<noteq> 0"

fun mem_read_chunks :: "'m memory_interface \<Rightarrow> u32 list list \<Rightarrow> 'm \<Rightarrow> (exn + u8 list) \<times> 'm" where
  "mem_read_chunks memory [] m = (Inr [], m)"
| "mem_read_chunks memory (addr_range # ranges) m =
     (case mi_read memory m (ucast (hd addr_range)) of
        (Value w, m) \<Rightarrow>
          (case mem_read_chunks memory ranges m of
             (Inr data, m) \<Rightarrow> (Inr (map (\<lambda>addr. bytes_of_u32 w ! unat (addr mod 4)) addr_range @ data), m)
           | (Inl x, m) \<Rightarrow> (Inl x, m))
      | (Unexpected _, m) \<Rightarrow> (Inr [], m)
      | (Throw x, m) \<Rightarrow> (Inl x, m))"

definition mem_read_bytes :: "'m memory_interface \<Rightarrow> u32 \<Rightarrow> nat \<Rightarrow> 'm \<Rightarrow> (exn + u8 list) \<times> 'm" where
  "mem_read_bytes memory address n m = mem_read_chunks memory (chunk_by same_word (iota address n)) m"

fun mem_write_loop :: "'m memory_interface \<Rightarrow> (u32 \<times> u8) list \<Rightarrow> 'm \<Rightarrow> (exn + bool) \<times> 'm" where
  "mem_write_loop memory [] m = (Inr True, m)"
| "mem_write_loop memory ((addr, b) # ws) m =
     (case mi_write memory m (ucast addr) (push_bit (unat (addr mod 4 * 8)) (ucast b))
             (bs_of (push_bit (unat (addr mod 4)) 1)) of
        (Value _, m) \<Rightarrow> mem_write_loop memory ws m
      | (Unexpected _, m) \<Rightarrow> (Inr False, m)
      | (Throw x, m) \<Rightarrow> (Inl x, m))"

definition mem_write_bytes :: "'m memory_interface \<Rightarrow> u32 \<Rightarrow> u8 list \<Rightarrow> 'm \<Rightarrow> (exn + bool) \<times> 'm" where
  "mem_write_bytes memory address data m = mem_write_loop memory (zip (iota address (length data)) data) m"

section \<open>Chunks are words\<close>

lemma iota_simps [simp]: "iota a 0 = []" "iota a (Suc n) = a # iota (a + 1) n" "length (iota a n) = n"
  by (simp_all add: iota_def map_upt_Suc add.assoc del: upt_Suc)

lemma iota_add: "iota a (j + k) = iota a j @ iota (a + of_nat j) k"
  by (induction j arbitrary: a) (simp_all add: algebra_simps)

lemma unat_mod_4: "unat (a mod 4) = unat a mod 4" for a :: u32
  by (simp add: unat_mod)

lemma unat_succ_mod_4: "unat (a + 1) mod 4 = (unat a + 1) mod 4" for a :: u32
  by (simp add: unat_word_ariths mod_mod_cancel)

lemma same_word_succ: "same_word a (a + 1) \<longleftrightarrow> unat a mod 4 \<noteq> 3"
proof -
  have "same_word a (a + 1) \<longleftrightarrow> unat a mod 4 \<noteq> 3 \<or> unat (a + 1) mod 4 \<noteq> 0"
    by (simp add: same_word_def word_unat_eq_iff unat_mod_4)
  moreover have "unat (a + 1) mod 4 = 0" if "unat a mod 4 = 3"
    using that unat_succ_mod_4[of a] by presburger
  ultimately show ?thesis by auto
qed

lemma min_succ: "r < 3 \<Longrightarrow> min (Suc n) (4 - r) = Suc (min n (3 - r))" for r n :: nat
  by linarith

lemma chunk_by_iota:
  assumes "0 < n"
  shows "chunk_by same_word (iota a n) =
    (let k = min n (4 - unat a mod 4) in iota a k # chunk_by same_word (iota (a + of_nat k) (n - k)))"
  using assms unfolding Let_def
proof (induction n arbitrary: a)
  case (Suc n)
  show ?case
  proof (cases "n = 0")
    case True
    have "min 1 (4 - unat a mod 4) = 1" using mod_less_divisor[of 4 "unat a"] by simp
    with True show ?thesis by simp
  next
    case False
    let ?k = "min n (4 - unat (a + 1) mod 4)"
    have k: "0 < ?k" using False mod_less_divisor[of 4 "unat (a + 1)"] by simp
    then have hd: "iota (a + 1) ?k \<noteq> [] \<and> hd (iota (a + 1) ?k) = a + 1" by (cases ?k) auto
    note IH = Suc.IH[of "a + 1"] False
    show ?thesis
    proof (cases "unat a mod 4 = 3")
      case True
      then have "min (Suc n) (4 - unat a mod 4) = 1" by simp
      moreover have "\<not> same_word a (a + 1)" using True same_word_succ by blast
      ultimately show ?thesis using IH hd by simp
    next
      case False
      then have "(unat a + 1) mod 4 = unat a mod 4 + 1" by (simp add: mod_Suc)
      moreover have "unat a mod 4 < 3" using False mod_less_divisor[of 4 "unat a"] by linarith
      ultimately have "min (Suc n) (4 - unat a mod 4) = Suc ?k"
        using unat_succ_mod_4[of a] min_succ[of "unat a mod 4" n] by simp
      moreover have "same_word a (a + 1)" using False same_word_succ by blast
      ultimately show ?thesis using IH hd by (simp add: algebra_simps)
    qed
  qed
qed simp

lemma word_byte_nth: "j < 4 \<Longrightarrow> bytes_of_u32 w ! j = word_byte j w"
  by (auto simp: bytes_of_u32_def word_byte_def less_Suc_eq numeral_eq_Suc)

lemma mem_read_bytes_step:
  assumes "0 < n" "unat a mod 4 = 0"
  shows "mem_read_bytes I a n m =
    (case mi_read I m (ucast a) of
       (Value w, m') \<Rightarrow>
         (case mem_read_bytes I (a + 4) (n - 4) m' of
            (Inr data, m'') \<Rightarrow> (Inr (map (\<lambda>j. word_byte j w) [0..<min n 4] @ data), m'')
          | (Inl x, m'') \<Rightarrow> (Inl x, m''))
     | (Unexpected _, m') \<Rightarrow> (Inr [], m')
     | (Throw x, m') \<Rightarrow> (Inl x, m'))"
proof -
  let ?k = "min n 4"
  have c: "chunk_by same_word (iota a n) = iota a ?k # chunk_by same_word (iota (a + of_nat ?k) (n - ?k))"
    using chunk_by_iota[OF assms(1), of a] assms(2) by (simp add: Let_def)
  have rest: "iota (a + of_nat ?k) (n - ?k) = iota (a + 4) (n - 4)"
    using assms(1) by (cases "n \<le> 4") (simp_all add: min_def)
  have "unat (a + of_nat j) mod 4 = j" if "j < 4" for j
  proof -
    have "unat (a + of_nat j) mod 4 = (unat a + unat (of_nat j :: u32)) mod 4"
      by (simp add: unat_word_ariths mod_mod_cancel)
    moreover have "unat (of_nat j :: u32) = j" using that by (simp add: unsigned_of_nat take_bit_nat_eq_self)
    ultimately show ?thesis using assms(2) that by (simp add: mod_add_eq[symmetric] del: mod_add_eq)
  qed
  then have bytes: "map (\<lambda>addr. bytes_of_u32 w ! unat (addr mod 4)) (iota a ?k) = map (\<lambda>j. word_byte j w) [0..<?k]" for w
    by (auto simp: iota_def unat_mod_4 word_byte_nth)
  have "hd (iota a ?k) = a" using assms(1) by (cases ?k) auto
  then show ?thesis
    by (simp add: mem_read_bytes_def c rest bytes cong: prod.case_cong expected.case_cong sum.case_cong)
qed

section \<open>What the debugger reads and writes\<close>

context memory_device
begin

lemma debugger_memory_inv:
  assumes "inv m"
  shows "inv (snd (mem_read_chunks I rs m))" "inv (snd (mem_write_loop I ws m))"
    "inv (snd (memory_accessor_read I a m))"
proof -
  have r: "mi_read I k b = (x, k') \<Longrightarrow> inv k \<Longrightarrow> inv k'" for k b x k' using read_inv[of k b] by auto
  have w: "mi_write I k b d e = (x, k') \<Longrightarrow> inv k \<Longrightarrow> inv k'" for k b d e x k' using write_inv[of k b d e] by auto
  show "inv (snd (mem_read_chunks I rs m))" using assms
    by (induction rs arbitrary: m) (fastforce split: prod.splits expected.splits sum.splits dest: r)+
  show "inv (snd (mem_write_loop I ws m))" using assms
    by (induction ws arbitrary: m) (fastforce split: prod.splits expected.splits dest: w)+
  show "inv (snd (memory_accessor_read I a m))" using assms
    by (auto simp: memory_accessor_read_def split: prod.splits expected.splits dest: r)
qed

end

context word_memory
begin

text \<open>The accessor reads the byte of memory at the address.\<close>

lemma accessor_reads:
  assumes "inv m" "byte_at (view m) a = Some (p, b)"
  shows "fst (memory_accessor_read I a m) = Value b"
proof -
  have n: "NOT 0x3 = (0xfffffffc :: u32)" by simp
  from assms(2) obtain w where w: "view m (ucast (a AND 0xfffffffc)) = Some (p, w)" "b = word_byte (unat a mod 4) w"
    by (auto simp: byte_at_def)
  obtain m' where "mi_read I m (ucast (a AND 0xfffffffc)) = (Value w, m')"
    using read_value[OF assms(1) w(1)] by (metis prod.collapse)
  then show ?thesis using w(2) word_byte_nth[of "unat a mod 4" w]
    unfolding memory_accessor_read_def n by (simp add: unat_and3)
qed

text \<open>A read from an aligned address returns the bytes there, and changes no memory.\<close>

lemma debugger_reads:
  assumes "inv m" "unat a mod 4 = 0" "\<forall>j < n. byte_at (view m) (a + of_nat j) \<noteq> None"
  shows "\<exists>m'. mem_read_bytes I a n m =
      (Inr (map (\<lambda>j. snd (the (byte_at (view m) (a + of_nat j)))) [0..<n]), m') \<and> inv m' \<and> view m' = view m"
  using assms
proof (induction n arbitrary: a m rule: less_induct)
  case (less n)
  show ?case
  proof (cases "n = 0")
    case True
    then show ?thesis using less.prems by (simp add: mem_read_bytes_def)
  next
    case False
    have al: "a AND 0xfffffffc = a" using less.prems(2) by (simp add: word_unat_eq_iff unat_align) (metis mult_div_mod_eq add_0_right)
    have "byte_at (view m) (a + of_nat 0) \<noteq> None" using False less.prems(3) by blast
    then obtain p w where v: "view m (ucast a) = Some (p, w)" by (auto simp: byte_at_def al)
    obtain m1 where r: "mi_read I m (ucast a) = (Value w, m1)"
      using read_value[OF less.prems(1) v] by (metis prod.collapse)
    have m1: "inv m1" "view m1 = view m"
      using read_inv[OF less.prems(1), of "ucast a"] read_view[OF less.prems(1), of "ucast a"] r by simp_all
    have b: "byte_at (view m) (a + of_nat j) = Some (p, word_byte j w)" if "j < 4" for j
    proof -
      have "is_aligned a Load_word" using less.prems(2) by (simp add: word_unat_eq_iff unat_and3)
      then show ?thesis
        using byte_at_access[of a Load_word j "view m" p w] v al less.prems(2) that by (simp add: ls_size.simps)
    qed
    have al4: "unat (a + 4) mod 4 = 0"
      using less.prems(2) by (simp add: unat_word_ariths mod_mod_cancel)
    have rest: "\<forall>j < n - 4. byte_at (view m1) (a + 4 + of_nat j) \<noteq> None"
    proof (intro allI impI)
      fix j assume "j < n - 4"
      then have "byte_at (view m) (a + of_nat (j + 4)) \<noteq> None" using less.prems(3) by (auto simp del: of_nat_add)
      then show "byte_at (view m1) (a + 4 + of_nat j) \<noteq> None" using m1 by (simp add: algebra_simps)
    qed
    have "n - 4 < n" using False by simp
    from less.IH[OF this m1(1) al4 rest] obtain m2 where
      m2: "mem_read_bytes I (a + 4) (n - 4) m1 = (Inr (map (\<lambda>j. snd (the (byte_at (view m1) (a + 4 + of_nat j)))) [0..<n - 4]), m2)"
        "inv m2" "view m2 = view m1" by blast
    have "map (\<lambda>j. snd (the (byte_at (view m) (a + of_nat j)))) [0..<n] =
        map (\<lambda>j. word_byte j w) [0..<min n 4] @ map (\<lambda>j. snd (the (byte_at (view m1) (a + 4 + of_nat j)))) [0..<n - 4]"
      (is "_ = ?r")
    proof (rule nth_equalityI)
      show "map (\<lambda>j. snd (the (byte_at (view m) (a + of_nat j)))) [0..<n] ! i = ?r ! i"
        if "i < length (map (\<lambda>j. snd (the (byte_at (view m) (a + of_nat j)))) [0..<n])" for i
        using that b m1(2) by (cases "i < 4") (auto simp: nth_append algebra_simps)
    qed auto
    then show ?thesis
      using mem_read_bytes_step[OF _ less.prems(2), of n I m] False r m1 m2 by simp
  qed
qed

end

end
