(* ===== verification/BlockMemory.thy ===== *)
theory BlockMemory
  imports Memory
begin

text \<open>
  \<open>lib/include/device/block-memory.hpp\<close> and \<open>lib/device/block-memory.cpp\<close>: the lazily allocated
  block memory. The vector \<open>storage\<close> is its length and a function from indices to pages, a page a
  function from word indices. What the random engine generates for the successive fills of each
  page is a field of the state, read from and advanced by \<open>fill_page\<close>. Dereferencing a page the
  vector does not hold is undefined.
\<close>

unbundle bit_operations_syntax

datatype fill_policy = Fill_None | Fill_Zero | Fill_One | Fill_Random | Fill_Cdcdcdcd

type_synonym page = "nat \<Rightarrow> u32"

record block_memory =
  bm_write_lock :: bool
  bm_actual_size_bytes :: u64
  bm_fill_policy :: fill_policy
  bm_page_count :: nat
  bm_storage :: "nat \<Rightarrow> page option"
  bm_random :: "nat \<Rightarrow> nat \<Rightarrow> page"

definition page_size_bytes :: u64 where
  "page_size_bytes = 64 * 1024"

definition block_memory_new :: "u64 \<Rightarrow> fill_policy \<Rightarrow> (nat \<Rightarrow> nat \<Rightarrow> page) \<Rightarrow> block_memory" where
  "block_memory_new size_bytes mode random =
     \<lparr>bm_write_lock = False, bm_actual_size_bytes = size_bytes, bm_fill_policy = mode,
      bm_page_count = unat ((size_bytes + page_size_bytes - 1) div page_size_bytes),
      bm_storage = (\<lambda>_. None), bm_random = random\<rparr>"

text \<open>\<open>make_unique\<close> value-initialises the array: a new page is zero before it is filled.\<close>

definition fill_page :: "fill_policy \<Rightarrow> page \<Rightarrow> page \<Rightarrow> page" where
  "fill_page policy random page =
     (case policy of
        Fill_None \<Rightarrow> page
      | Fill_Zero \<Rightarrow> (\<lambda>_. 0)
      | Fill_One \<Rightarrow> (\<lambda>_. NOT 0)
      | Fill_Random \<Rightarrow> random
      | Fill_Cdcdcdcd \<Rightarrow> (\<lambda>_. ucast (0xCDCDCDCDCDCDCDCD :: u64)))"

definition new_page :: "block_memory \<Rightarrow> nat \<Rightarrow> page" where
  "new_page bm i = fill_page (bm_fill_policy bm) (bm_random bm i 0) (\<lambda>_. 0)"

definition touch_page :: "nat \<Rightarrow> block_memory \<Rightarrow> block_memory" where
  "touch_page i bm =
     (if i \<ge> bm_page_count bm then bm
      else if bm_storage bm i \<noteq> None then bm
      else bm\<lparr>bm_storage := (bm_storage bm)(i \<mapsto> new_page bm i),
              bm_random := (bm_random bm)(i := (\<lambda>n. bm_random bm i (Suc n)))\<rparr>)"

text \<open>\<open>*storage[page_index]\<close>\<close>

definition deref_page :: "nat \<Rightarrow> block_memory \<Rightarrow> page option" where
  "deref_page i bm = (if i < bm_page_count bm then bm_storage bm i else None)"

definition bad_page :: exn where
  "bad_page = Undefined_behaviour ''storage[page_index]''"

definition block_read :: "block_memory \<Rightarrow> u64 \<Rightarrow> (u32, mem_error) expected \<times> block_memory" where
  "block_read bm address =
     (if address \<ge> bm_actual_size_bytes bm then (Unexpected Out_of_range, bm)
      else if address AND 0x3 \<noteq> 0 then (Unexpected Unaligned, bm)
      else if bm_actual_size_bytes bm < 4 then (Unexpected Out_of_range, bm)
      else
        let page_index = unat (address div page_size_bytes);
            page_offset_word = unat (address mod page_size_bytes div 4);
            bm = touch_page page_index bm
        in case deref_page page_index bm of
             None \<Rightarrow> (Throw bad_page, bm)
           | Some page \<Rightarrow> (Value (page page_offset_word), bm))"

definition block_read_page :: "block_memory \<Rightarrow> u64 \<Rightarrow> (page, mem_error) expected \<times> block_memory" where
  "block_read_page bm address =
     (if address AND 0x00000FFF \<noteq> 0 then (Unexpected Unaligned, bm)
      else if address + 1024 * 4 > bm_actual_size_bytes bm then (Unexpected Out_of_range, bm)
      else
        let page_index = unat (address div page_size_bytes);
            page_offset_word = unat (address mod page_size_bytes div 4);
            bm = touch_page page_index bm
        in case deref_page page_index bm of
             None \<Rightarrow> (Throw bad_page, bm)
           | Some page \<Rightarrow> (Value (\<lambda>i. page (page_offset_word + i)), bm))"

text \<open>The four byte assignments, on the little-endian bytes of the word.\<close>

definition write_bytes :: "4 bitset \<Rightarrow> u32 \<Rightarrow> u32 \<Rightarrow> u32" where
  "write_bytes k data old =
     u32_of_bytes
       (if bs_bool (bs_take_bit 0 k) then ucast data else ucast old)
       (if bs_bool (bs_take_bit 1 k) then ucast (drop_bit 8 data) else ucast (drop_bit 8 old))
       (if bs_bool (bs_take_bit 2 k) then ucast (drop_bit 16 data) else ucast (drop_bit 16 old))
       (if bs_bool (bs_take_bit 3 k) then ucast (drop_bit 24 data) else ucast (drop_bit 24 old))"

definition block_write ::
  "block_memory \<Rightarrow> u64 \<Rightarrow> u32 \<Rightarrow> 4 bitset \<Rightarrow> (unit, mem_error) expected \<times> block_memory"
where
  "block_write bm address data k =
     (let size = bm_actual_size_bytes bm in
      if address \<ge> size then (Unexpected Out_of_range, bm)
      else if bm_write_lock bm then (Unexpected Access_fault, bm)
      else if bs_eq_int k 0 then (Value (), bm)
      else if address AND 0x3 \<noteq> 0 then (Unexpected Unaligned, bm)
      else if size < 4 \<and> (bs_bool (bs_take_bit 3 k)
                           \<or> size < 3 \<and> bs_bool (bs_take_bit 2 k)
                           \<or> size < 2 \<and> bs_bool (bs_take_bit 1 k)
                           \<or> size < 1 \<and> bs_bool (bs_take_bit 0 k))
      then (Unexpected Out_of_range, bm)
      else
        let page_index = unat (address div page_size_bytes);
            page_offset = unat (address mod page_size_bytes);
            bm = touch_page page_index bm
        in case deref_page page_index bm of
             None \<Rightarrow> (Throw bad_page, bm)
           | Some page \<Rightarrow>
               (Value (),
                bm\<lparr>bm_storage := (bm_storage bm)(page_index \<mapsto>
                    page(page_offset div 4 := write_bytes k data (page (page_offset div 4))))\<rparr>))"

definition block_size :: "block_memory \<Rightarrow> u64" where
  "block_size bm = bm_actual_size_bytes bm"

definition block_lock :: "block_memory \<Rightarrow> block_memory" where
  "block_lock bm = bm\<lparr>bm_write_lock := True\<rparr>"

definition block_unlock :: "block_memory \<Rightarrow> block_memory" where
  "block_unlock bm = bm\<lparr>bm_write_lock := False\<rparr>"

definition used_space :: "block_memory \<Rightarrow> nat" where
  "used_space bm =
     length (filter (\<lambda>i. bm_storage bm i \<noteq> None) [0..<bm_page_count bm]) * unat page_size_bytes"

definition reset_content :: "block_memory \<Rightarrow> block_memory" where
  "reset_content bm = bm\<lparr>bm_storage := (\<lambda>_. None)\<rparr>"

text \<open>Copying a chunk of at most a page to the start of a page, byte by byte.\<close>

definition copy_chunk :: "u8 list \<Rightarrow> page \<Rightarrow> page" where
  "copy_chunk chunk page = (\<lambda>w.
     let byte = \<lambda>j. if 4 * w + j < length chunk then chunk ! (4 * w + j) else ucast (drop_bit (8 * j) (page w))
     in u32_of_bytes (byte 0) (byte 1) (byte 2) (byte 3))"

text \<open>The loop over the chunks of \<open>page_size_bytes\<close> bytes; \<open>None\<close> is the undefined dereference.\<close>

function fill_chunks :: "nat \<Rightarrow> u8 list \<Rightarrow> block_memory \<Rightarrow> block_memory option" where
  "fill_chunks page_idx data bm =
     (if data = [] then Some bm
      else
        let bm = touch_page page_idx bm
        in case deref_page page_idx bm of
             None \<Rightarrow> None
           | Some page \<Rightarrow>
               fill_chunks (page_idx + 1) (drop (unat page_size_bytes) data)
                 (bm\<lparr>bm_storage := (bm_storage bm)(page_idx \<mapsto>
                     copy_chunk (take (unat page_size_bytes) data) page)\<rparr>))"
  by pat_completeness auto

lemma unat_page_size [simp]: "unat page_size_bytes = 65536"
  by (simp add: page_size_bytes_def)

termination fill_chunks
  by (relation "measure (\<lambda>(_, data, _). length data)") auto

declare fill_chunks.simps [simp del]

definition fill_data :: "u8 list \<Rightarrow> block_memory \<Rightarrow> (exn + bool) \<times> block_memory" where
  "fill_data data bm =
     (if length data > unat (block_size bm) then (Inr False, bm)
      else case fill_chunks 0 data bm of
             None \<Rightarrow> (Inl bad_page, bm)
           | Some bm \<Rightarrow> (Inr True, bm))"

definition block_interface :: "block_memory memory_interface" where
  "block_interface =
     \<lparr>mi_read = block_read, mi_read_page = block_read_page, mi_write = block_write, mi_size = block_size\<rparr>"

section \<open>The memory it implements\<close>

text \<open>The pages the vector needs, and no others.\<close>

definition block_inv :: "block_memory \<Rightarrow> bool" where
  "block_inv bm \<longleftrightarrow>
     unat (bm_actual_size_bytes bm) + 65535 < 2 ^ 64
     \<and> bm_page_count bm = (unat (bm_actual_size_bytes bm) + 65535) div 65536"

text \<open>The content of a page, allocated or not yet.\<close>

definition page_content :: "block_memory \<Rightarrow> nat \<Rightarrow> page" where
  "page_content bm i = (case bm_storage bm i of Some p \<Rightarrow> p | None \<Rightarrow> new_page bm i)"

definition block_view :: "block_memory \<Rightarrow> mem_view" where
  "block_view bm a =
     (if a < bm_actual_size_bytes bm \<and> a AND 0x3 = 0 \<and> 4 \<le> bm_actual_size_bytes bm
      then Some (\<not> bm_write_lock bm, page_content bm (unat a div 65536) (unat a mod 65536 div 4))
      else None)"

lemma block_memory_new_inv:
  "unat sz + 65535 < 2 ^ 64 \<Longrightarrow> block_inv (block_memory_new sz mode random)"
proof -
  assume a: "unat sz + 65535 < 2 ^ 64"
  have "sz + page_size_bytes - 1 = sz + 65535" by (simp add: page_size_bytes_def)
  moreover have "unat (sz + 65535) = unat sz + 65535"
    using a by (simp add: unat_word_ariths)
  ultimately have "unat ((sz + page_size_bytes - 1) div page_size_bytes) = (unat sz + 65535) div 65536"
    by (simp only: unat_div_distrib unat_page_size)
  with a show ?thesis by (simp add: block_inv_def block_memory_new_def)
qed

lemma touch_page_fields [simp]:
  "bm_write_lock (touch_page i bm) = bm_write_lock bm"
  "bm_actual_size_bytes (touch_page i bm) = bm_actual_size_bytes bm"
  "bm_fill_policy (touch_page i bm) = bm_fill_policy bm"
  "bm_page_count (touch_page i bm) = bm_page_count bm"
  by (simp_all add: touch_page_def)

text \<open>Allocating a page does not change what the memory holds.\<close>

lemma page_content_touch [simp]: "page_content (touch_page i bm) = page_content bm"
  by (rule ext) (auto simp: touch_page_def page_content_def new_page_def split: option.splits)

lemma page_content_store:
  "page_content (b\<lparr>bm_storage := (bm_storage b)(i \<mapsto> p)\<rparr>) = (page_content b)(i := p)"
  by (rule ext) (auto simp: page_content_def new_page_def split: option.splits)

lemma block_view_touch [simp]: "block_view (touch_page i bm) = block_view bm"
  by (rule ext) (simp add: block_view_def)

lemma block_inv_touch [simp]: "block_inv (touch_page i bm) = block_inv bm"
  by (simp add: block_inv_def)

lemma deref_touch:
  "i < bm_page_count bm \<Longrightarrow> deref_page i (touch_page i bm) = Some (page_content bm i)"
  by (auto simp: deref_page_def touch_page_def page_content_def)

lemma deref_touch_none: "bm_page_count bm \<le> i \<Longrightarrow> deref_page i (touch_page i bm) = None"
  by (simp add: deref_page_def)

lemma page_in_range:
  "block_inv bm \<Longrightarrow> a < bm_actual_size_bytes bm \<Longrightarrow> unat a div 65536 < bm_page_count bm"
proof -
  assume "block_inv bm" "a < bm_actual_size_bytes bm"
  then have "unat a < unat (bm_actual_size_bytes bm)"
    and c: "bm_page_count bm = (unat (bm_actual_size_bytes bm) + 65535) div 65536"
    by (simp_all add: word_less_nat_alt block_inv_def)
  then have "unat a + 65536 \<le> unat (bm_actual_size_bytes bm) + 65535" by simp
  then have "(unat a + 65536) div 65536 \<le> bm_page_count bm" unfolding c by (rule div_le_mono)
  then show ?thesis by simp
qed

lemma write_bytes_merge: "write_bytes k d v = merge_word k d v"
proof (rule word_bytes_eqI)
  fix j :: nat assume "j < 4"
  then have "j = 0 \<or> j = 1 \<or> j = 2 \<or> j = 3" by auto
  then show "word_byte j (write_bytes k d v) = word_byte j (merge_word k d v)"
    by (elim disjE)
      (simp_all add: word_byte_merge write_bytes_def word_byte_u32_of_bytes,
       simp_all add: word_byte_def)
qed

text \<open>Reads, writes and page reads against the view.\<close>

lemma block_offsets:
  "unat (a div page_size_bytes) = unat a div 65536"
  "unat (a mod page_size_bytes) = unat a mod 65536"
  "unat (a mod page_size_bytes div 4) = unat a mod 65536 div 4"
  by (simp_all add: unat_div_distrib unat_mod_distrib)

lemma block_read_view: "block_view (snd (block_read bm a)) = block_view bm"
  by (simp add: block_read_def Let_def split: option.split)

lemma block_read_page_view: "block_view (snd (block_read_page bm a)) = block_view bm"
  by (simp add: block_read_page_def Let_def split: option.split)

lemma block_read_value:
  "block_inv bm \<Longrightarrow> block_view bm a = Some (p, v) \<Longrightarrow> fst (block_read bm a) = Value v"
  by (auto simp: block_read_def block_view_def Let_def block_offsets deref_touch page_in_range
      split: if_splits)

lemma block_read_returns: "block_inv bm \<Longrightarrow> \<not> throws (fst (block_read bm a))"
  by (auto simp: block_read_def Let_def block_offsets deref_touch page_in_range)

lemma block_read_inv: "block_inv bm \<Longrightarrow> block_inv (snd (block_read bm a))"
  by (simp add: block_read_def Let_def split: option.split)

lemma block_read_page_inv: "block_inv bm \<Longrightarrow> block_inv (snd (block_read_page bm a))"
  by (simp add: block_read_page_def Let_def split: option.split)

lemma block_write_inv: "block_inv bm \<Longrightarrow> block_inv (snd (block_write bm a d k))"
proof -
  assume "block_inv bm"
  moreover have "block_inv (b\<lparr>bm_storage := st\<rparr>) = block_inv b" for b :: block_memory and st
    by (simp add: block_inv_def)
  ultimately show ?thesis by (simp add: block_write_def Let_def split: option.split)
qed

lemma block_write_returns: "block_inv bm \<Longrightarrow> \<not> throws (fst (block_write bm a d k))"
  by (auto simp: block_write_def Let_def block_offsets deref_touch page_in_range)

lemma block_write_supported: "fst (block_write bm a d k) \<noteq> Unexpected Not_supported"
  by (auto simp: block_write_def Let_def split: option.split)

lemma block_write_value:
  "block_inv bm \<Longrightarrow> block_view bm a = Some (True, v) \<Longrightarrow> fst (block_write bm a d k) = Value ()"
  by (auto simp: block_write_def block_view_def Let_def block_offsets deref_touch page_in_range
      split: if_splits)

lemma merge_word_none: "bs_eq_int k 0 \<Longrightarrow> merge_word k d v = v"
proof -
  assume "bs_eq_int k 0"
  then have "bs_value k = 0" by (simp add: bs_eq_int_def)
  then show ?thesis by (intro bit_word_eqI) (simp add: bit_merge_word)
qed

text \<open>Two word addresses that fall on the same word of the same page are equal.\<close>

lemma same_word:
  "unat a div 65536 = unat b div 65536 \<Longrightarrow> unat a mod 65536 div 4 = unat b mod 65536 div 4 \<Longrightarrow>
     a AND 0x3 = 0 \<Longrightarrow> b AND 0x3 = 0 \<Longrightarrow> a = b" for a b :: u64
proof -
  assume d: "unat a div 65536 = unat b div 65536" "unat a mod 65536 div 4 = unat b mod 65536 div 4"
    and al: "a AND 0x3 = 0" "b AND 0x3 = 0"
  have e: "unat (x AND 0x3) = unat x mod 4" for x :: u64
    using and_low[of "0x3" 2 x] by (simp add: mask_eq_exp_minus_1)
  have m: "unat a mod 4 = 0" "unat b mod 4 = 0"
    using e[of a] e[of b] by (simp_all only: al unat_0)
  then have "unat a mod 65536 mod 4 = 0" "unat b mod 65536 mod 4 = 0" by (simp_all add: mod_mod_cancel)
  with d have "unat a mod 65536 = unat b mod 65536" by (metis div_mult_mod_eq)
  with d have "unat a = unat b" by (metis div_mult_mod_eq)
  then show "a = b" by (simp only: word_unat_eq_iff)
qed

lemma block_write_view:
  assumes inv: "block_inv bm"
  shows "block_view (snd (block_write bm a d k)) = view_write a d k (block_view bm)"
proof (cases "block_view bm a")
  case None
  then have n: "\<not> a < bm_actual_size_bytes bm \<or> a AND 0x3 \<noteq> 0 \<or> bm_actual_size_bytes bm < 4"
    by (auto simp: block_view_def split: if_splits)
  have tiny: "bm_actual_size_bytes b < 4 \<Longrightarrow> block_view b = (\<lambda>_. None)" for b :: block_memory
    by (auto simp: block_view_def fun_eq_iff)
  have sz: "bm_actual_size_bytes (snd (block_write bm a d k)) = bm_actual_size_bytes bm"
    by (simp add: block_write_def Let_def split: option.split)
  show ?thesis
  proof (cases "bm_actual_size_bytes bm < 4")
    case True
    then show ?thesis using tiny[of bm] tiny[of "snd (block_write bm a d k)"] sz
      by (simp add: view_write_def)
  next
    case False
    with n None show ?thesis by (auto simp: block_write_def view_write_def Let_def)
  qed
next
  case (Some c)
  obtain p v where c: "c = (p, v)" by (cases c)
  show ?thesis
  proof (cases p)
    case False
    with Some c have "bm_write_lock bm" "a < bm_actual_size_bytes bm" by (auto simp: block_view_def split: if_splits)
    with Some c False show ?thesis by (simp add: block_write_def view_write_def Let_def)
  next
    case True
    with Some c have a: "\<not> bm_write_lock bm" "a < bm_actual_size_bytes bm" "a AND 0x3 = 0" "4 \<le> bm_actual_size_bytes bm"
      and v: "v = page_content bm (unat a div 65536) (unat a mod 65536 div 4)"
      by (auto simp: block_view_def split: if_splits)
    show ?thesis
    proof (cases "bs_eq_int k 0")
      case z: True
      then show ?thesis using a Some c True
        by (auto simp: block_write_def view_write_def merge_word_none Let_def)
    next
      case nz: False
      let ?i = "unat a div 65536" let ?o = "unat a mod 65536 div 4"
      let ?bm = "(touch_page ?i bm)\<lparr>bm_storage := (bm_storage (touch_page ?i bm))(?i \<mapsto>
          (page_content bm ?i)(?o := merge_word k d v))\<rparr>"
      have "\<not> bm_actual_size_bytes bm < 4" "\<not> bm_actual_size_bytes bm \<le> a" using a by (simp_all add: not_less not_le)
      then have "snd (block_write bm a d k) = ?bm"
        using a nz by (simp add: block_write_def Let_def block_offsets deref_touch page_in_range[OF inv] write_bytes_merge v)
      moreover have pc: "page_content ?bm = (page_content bm)(?i := (page_content bm ?i)(?o := merge_word k d v))"
        by (simp only: page_content_store page_content_touch)
      have "block_view ?bm = view_write a d k (block_view bm)"
      proof
        fix b
        show "block_view ?bm b = view_write a d k (block_view bm) b"
        proof (cases "b = a")
          case t: True
          show ?thesis unfolding t using a Some c True pc
            by (simp add: block_view_def view_write_def)
        next
          case f: False
          then have "b AND 0x3 = 0 \<Longrightarrow> unat b div 65536 = ?i \<Longrightarrow> unat b mod 65536 div 4 \<noteq> ?o"
            using same_word[of b a] a(3) by auto
          then show ?thesis using a Some c True pc f
            by (auto simp: block_view_def view_write_def)
        qed
      qed
      ultimately show ?thesis by simp
    qed
  qed
qed

lemma page_word_split:
  fixes n k :: nat
  assumes "n mod 4096 = 0" "k < 4096"
  shows "(n + k) div 65536 = n div 65536" "(n + k) mod 65536 = n mod 65536 + k"
proof -
  define r where "r = n mod 65536"
  have "r mod 4096 = 0" using assms(1) by (simp add: r_def mod_mod_cancel)
  then obtain q where q: "r = 4096 * q" by (metis mod_0_imp_dvd dvdE)
  have "r < 65536" by (simp add: r_def)
  with q have "q \<le> 15" by simp
  with q assms(2) have lt: "r + k < 65536" by simp
  have n: "n + k = (r + k) + (n div 65536) * 65536" by (simp add: r_def)
  show "(n + k) div 65536 = n div 65536" unfolding n using lt by simp
  have "(n + k) mod 65536 = (r + k) mod 65536" by (simp add: r_def mod_simps)
  then show "(n + k) mod 65536 = n mod 65536 + k" using lt by (simp add: r_def)
qed

lemma block_page_bound:
  assumes "block_inv bm" "unat a div 65536 < bm_page_count bm"
  shows "unat a + 65536 < 2 ^ 64"
proof -
  have c: "bm_page_count bm * 65536 \<le> unat (bm_actual_size_bytes bm) + 65535"
    using assms(1) by (simp add: block_inv_def)
  have "unat (bm_actual_size_bytes bm) + 65535 < 2 ^ 64" using assms(1) by (simp add: block_inv_def)
  with c have "bm_page_count bm * 65536 < 2 ^ 64" by linarith
  then have "bm_page_count bm < 281474976710656" by simp
  then have "unat a div 65536 + 2 \<le> 281474976710656" using assms(2) by linarith
  then have "(unat a div 65536 + 2) * 65536 \<le> 281474976710656 * 65536" by (rule mult_le_mono1)
  moreover have "unat a < (unat a div 65536 + 1) * 65536" by (simp add: dividend_less_div_times)
  ultimately show ?thesis by simp
qed

lemma block_page_value:
  assumes inv: "block_inv bm" and al: "a AND 0xfff = 0" and f: "fst (block_read_page bm a) = Value f" and i: "i < 1024"
  shows "\<exists>p. block_view bm (a + 4 * of_nat i) = Some (p, f i)"
proof -
  have e: "unat (a AND 0xfff) = unat a mod 4096"
    using and_low[of "0xfff" 12 a] by (simp add: mask_eq_exp_minus_1)
  then have m: "unat a mod 4096 = 0" by (simp only: al unat_0)
  have le: "a + 4096 \<le> bm_actual_size_bytes bm"
    and d: "deref_page (unat a div 65536) (touch_page (unat a div 65536) bm) \<noteq> None"
    using f al by (auto simp: block_read_page_def Let_def block_offsets not_le split: if_splits option.splits)
  have idx: "unat a div 65536 < bm_page_count bm" using d deref_touch_none by (metis not_le)
  have fi: "f i = page_content bm (unat a div 65536) (unat a mod 65536 div 4 + i)"
    using f al leD[OF le] by (auto simp: block_read_page_def Let_def block_offsets deref_touch[OF idx])
  have b: "unat a + 65536 < 18446744073709551616" using block_page_bound[OF inv idx] by simp
  have k: "unat (of_nat i :: u64) = i" using i by (simp add: unat_of_nat take_bit_nat_eq_self)
  have "unat (4 * of_nat i :: u64) = 4 * i" using i by (simp add: unat_word_ariths k)
  then have u: "unat (a + 4 * of_nat i) = unat a + 4 * i" using b i by (simp add: unat_word_ariths)
  have "unat (a + 4096) = unat a + 4096" using b by (simp add: unat_word_ariths)
  then have sz: "unat a + 4096 \<le> unat (bm_actual_size_bytes bm)" using le by (simp add: word_le_nat_alt)
  have "unat ((a + 4 * of_nat i) AND 0x3) = (unat a + 4 * i) mod 4"
    using and_low[of "0x3" 2 "a + 4 * of_nat i"] by (simp add: mask_eq_exp_minus_1 u)
  moreover have "unat a mod 4 = 0"
    using mod_mod_cancel[of 4 4096 "unat a"] m by simp
  ultimately have "unat ((a + 4 * of_nat i) AND 0x3) = 0" by (simp add: mod_simps)
  then have "(a + 4 * of_nat i) AND 0x3 = 0" by (simp only: unsigned_eq_0_iff)
  moreover have "a + 4 * of_nat i < bm_actual_size_bytes bm" "4 \<le> bm_actual_size_bytes bm"
    using sz i u by (simp_all add: word_less_nat_alt word_le_nat_alt)
  moreover have "(unat a mod 65536 + 4 * i) div 4 = unat a mod 65536 div 4 + i" by simp
  ultimately show ?thesis
    using page_word_split[OF m, of "4 * i"] i by (simp add: block_view_def u fi add.commute)
qed

lemma block_page_returns: "block_inv bm \<Longrightarrow> unat a < 2 ^ 32 \<Longrightarrow> \<not> throws (fst (block_read_page bm a))"
proof -
  assume inv: "block_inv bm" and a: "unat a < 2 ^ 32"
  have "a < bm_actual_size_bytes bm" if "\<not> a + 4096 > bm_actual_size_bytes bm"
  proof -
    have "unat (a + 4096) = unat a + 4096" using a by (simp add: unat_word_ariths)
    then show ?thesis using that by (simp add: word_less_nat_alt)
  qed
  then show ?thesis
    by (auto simp: block_read_page_def Let_def block_offsets deref_touch page_in_range[OF inv])
qed

interpretation block: word_memory block_interface block_inv block_view
  by unfold_locales
    (auto simp: block_interface_def block_read_inv block_read_page_inv block_write_inv block_read_returns
      block_page_returns block_write_returns block_write_supported block_read_view block_read_page_view
      block_write_view block_read_value block_write_value block_page_value)

section \<open>Initial contents\<close>

text \<open>The byte at a flat address.\<close>

definition block_byte :: "block_memory \<Rightarrow> nat \<Rightarrow> u8" where
  "block_byte bm n = word_byte (n mod 4) (page_content bm (n div 65536) (n mod 65536 div 4))"

lemma word_byte_copy_chunk:
  "j < 4 \<Longrightarrow> word_byte j (copy_chunk chunk page w) =
     (if 4 * w + j < length chunk then chunk ! (4 * w + j) else word_byte j (page w))"
proof -
  assume j: "j < 4"
  then have "j = 0 \<or> j = 1 \<or> j = 2 \<or> j = 3" by auto
  then show ?thesis
    by (elim disjE) (simp_all add: copy_chunk_def word_byte_u32_of_bytes, simp_all add: word_byte_def)
qed

lemma block_byte_touch [simp]: "block_byte (touch_page i bm) = block_byte bm"
  by (rule ext) (simp add: block_byte_def)

lemma block_byte_store:
  "block_byte (b\<lparr>bm_storage := (bm_storage b)(i \<mapsto> copy_chunk chunk (page_content b i))\<rparr>) n =
     (if n div 65536 = i \<and> n mod 65536 < length chunk then chunk ! (n mod 65536) else block_byte b n)"
proof -
  have "n mod 65536 mod 4 = n mod 4" by (simp add: mod_mod_cancel)
  then have "4 * (n mod 65536 div 4) + n mod 4 = n mod 65536"
    by (metis mult_div_mod_eq)
  then show ?thesis
    by (simp add: block_byte_def page_content_store word_byte_copy_chunk)
qed

lemma deref_touch_content: "deref_page i (touch_page i bm) = Some p \<Longrightarrow> p = page_content bm i \<and> i < bm_page_count bm"
  by (cases "i < bm_page_count bm") (auto simp: deref_touch deref_touch_none not_less)

lemma fill_chunks_fields:
  "fill_chunks i data bm = Some bm' \<Longrightarrow>
     bm_actual_size_bytes bm' = bm_actual_size_bytes bm \<and> bm_page_count bm' = bm_page_count bm
     \<and> bm_write_lock bm' = bm_write_lock bm \<and> bm_fill_policy bm' = bm_fill_policy bm"
proof (induction i data bm rule: fill_chunks.induct)
  case (1 i data bm)
  show ?case
  proof (cases "data = []")
    case False
    with 1(2) obtain p where p: "deref_page i (touch_page i bm) = Some p"
      by (auto simp: fill_chunks.simps[of i] Let_def split: option.splits)
    from 1(1)[OF False refl p] 1(2) False p show ?thesis
      by (simp add: fill_chunks.simps[of i] Let_def)
  qed (use 1(2) in \<open>simp add: fill_chunks.simps\<close>)
qed

lemma fill_chunks_bytes:
  "fill_chunks i data bm = Some bm' \<Longrightarrow>
     block_byte bm' n =
       (if i * 65536 \<le> n \<and> n < i * 65536 + length data then data ! (n - i * 65536) else block_byte bm n)"
proof (induction i data bm rule: fill_chunks.induct)
  case (1 i data bm)
  show ?case
  proof (cases "data = []")
    case False
    with 1(2) obtain p where p: "deref_page i (touch_page i bm) = Some p"
      by (auto simp: fill_chunks.simps[of i] Let_def split: option.splits)
    let ?b = "touch_page i bm"
    let ?c = "take 65536 data"
    let ?bm = "?b\<lparr>bm_storage := (bm_storage ?b)(i \<mapsto> copy_chunk ?c (page_content ?b i))\<rparr>"
    have pc: "p = page_content ?b i" using deref_touch_content[OF p] by simp
    have "fill_chunks (i + 1) (drop 65536 data) ?bm = Some bm'"
      using 1(2) False p pc by (simp add: fill_chunks.simps[of i] Let_def)
    then have IH: "block_byte bm' n =
        (if (i + 1) * 65536 \<le> n \<and> n < (i + 1) * 65536 + length (drop 65536 data)
         then drop 65536 data ! (n - (i + 1) * 65536) else block_byte ?bm n)"
      using 1(1)[OF False refl p] pc by simp
    have st: "block_byte ?bm n =
        (if n div 65536 = i \<and> n mod 65536 < length ?c then ?c ! (n mod 65536) else block_byte bm n)"
      by (subst block_byte_store) simp
    have idx: "n div 65536 = i \<longleftrightarrow> i * 65536 \<le> n \<and> n < (i + 1) * 65536"
      by (auto simp: dividend_less_div_times intro!: div_nat_eqI)
    have md: "n div 65536 = i \<Longrightarrow> n mod 65536 = n - i * 65536"
      by (auto simp: minus_div_mult_eq_mod)
    show ?thesis
    proof (cases "n < (i + 1) * 65536")
      case True
      then show ?thesis using IH st idx md by auto
    next
      case f: False
      then have "drop 65536 data ! (n - (i + 1) * 65536) = data ! (n - i * 65536)"
        if "n < (i + 1) * 65536 + length (drop 65536 data)"
        using that by (simp add: nth_drop)
      then show ?thesis using IH st idx f by auto
    qed
  qed (use 1(2) in \<open>auto simp: fill_chunks.simps\<close>)
qed

lemma fill_chunks_total:
  "i * 65536 + length data \<le> bm_page_count bm * 65536 \<Longrightarrow> \<exists>bm'. fill_chunks i data bm = Some bm'"
proof (induction i data bm rule: fill_chunks.induct)
  case (1 i data bm)
  show ?case
  proof (cases "data = []")
    case False
    then have "i * 65536 < bm_page_count bm * 65536" using 1(2) by (cases data) auto
    then have d: "deref_page i (touch_page i bm) = Some (page_content bm i)" by (simp add: deref_touch)
    have "(i + 1) * 65536 + length (drop (unat page_size_bytes) data) \<le> bm_page_count bm * 65536"
      using 1(2) \<open>i * 65536 < bm_page_count bm * 65536\<close> by (cases "length data \<le> 65536") auto
    from 1(1)[OF False refl d] this False d show ?thesis
      by (simp add: fill_chunks.simps[of i] Let_def)
  qed (simp add: fill_chunks.simps)
qed

text \<open>
  \<open>fill_data\<close> succeeds exactly when the data fits, and then the memory starts with the data and is
  otherwise as it was.
\<close>

lemma fill_data_ok:
  assumes "block_inv bm" "length data \<le> unat (bm_actual_size_bytes bm)"
  obtains bm' where "fill_data data bm = (Inr True, bm')" "block_inv bm'"
    "bm_actual_size_bytes bm' = bm_actual_size_bytes bm" "bm_write_lock bm' = bm_write_lock bm"
    "\<And>n. block_byte bm' n = (if n < length data then data ! n else block_byte bm n)"
proof -
  have "unat (bm_actual_size_bytes bm) \<le> bm_page_count bm * 65536"
    using assms(1) by (simp add: block_inv_def)
  then obtain bm' where f: "fill_chunks 0 data bm = Some bm'"
    using fill_chunks_total[of 0 data bm] assms(2) by auto
  show thesis
  proof (rule that)
    show "fill_data data bm = (Inr True, bm')"
      using assms(2) f by (simp add: fill_data_def block_size_def)
    show "block_inv bm'" using fill_chunks_fields[OF f] assms(1) by (simp add: block_inv_def)
    show "block_byte bm' n = (if n < length data then data ! n else block_byte bm n)" for n
      using fill_chunks_bytes[OF f, of n] by simp
  qed (use fill_chunks_fields[OF f] in simp_all)
qed

lemma fill_data_too_long:
  "length data > unat (bm_actual_size_bytes bm) \<Longrightarrow> fill_data data bm = (Inr False, bm)"
  by (simp add: fill_data_def block_size_def)

end
