(* ===== verification/Peripherals.thy ===== *)
theory Peripherals
  imports Memory
begin

text \<open>
  \<open>lib/include/device/periph\<close> and \<open>lib/device/peripheral\<close>: the base class of the peripherals, the
  clock with its 64-bit registers behind 32-bit accesses, and the UART. The warnings they print
  are left out; the character a UART write sends to the error stream is kept. The input stream of
  the UART is the list of characters still to come and its end-of-file flag; \<open>random()\<close> draws from
  a sequence that is part of the state.
\<close>

unbundle bit_operations_syntax

section \<open>The base class\<close>

definition periph_size :: "'m \<Rightarrow> u64" where
  "periph_size _ = 256"

definition periph_read_page :: "'m \<Rightarrow> u64 \<Rightarrow> (nat \<Rightarrow> u32, mem_error) expected \<times> 'm" where
  "periph_read_page m address = (Unexpected Not_supported, m)"

section \<open>The clock\<close>

record clock_reg =
  ckr_low :: u32
  ckr_high :: u32

definition get_64 :: "clock_reg \<Rightarrow> u64" where
  "get_64 r = push_bit 32 (ucast (ckr_high r)) OR ucast (ckr_low r)"

definition set_64 :: "u64 \<Rightarrow> clock_reg" where
  "set_64 v = \<lparr>ckr_low = ucast (v AND 0xFFFFFFFF), ckr_high = ucast (drop_bit 32 v AND 0xFFFFFFFF)\<rparr>"

record clock =
  ck_timer :: clock_reg
  ck_comp :: clock_reg
  ck_counter_templow :: "u32 option"
  ck_comp_templow :: "u32 option"

definition clock_init :: clock where
  "clock_init =
     \<lparr>ck_timer = \<lparr>ckr_low = 0, ckr_high = 0\<rparr>, ck_comp = \<lparr>ckr_low = 0, ckr_high = 0\<rparr>,
      ck_counter_templow = None, ck_comp_templow = None\<rparr>"

definition clock_write :: "clock \<Rightarrow> u64 \<Rightarrow> u32 \<Rightarrow> 4 bitset \<Rightarrow> (unit, mem_error) expected \<times> clock" where
  "clock_write c address data k =
     (if address AND 0x3 \<noteq> 0 then (Unexpected Unaligned, c)
      else
        let new_address = address div 4;
            timer = ck_timer c; comp = ck_comp c;
            pick = bs_choose_bits_u32 (bs_expand_byte_mask k) data
        in if new_address = 0 then
             (Value (), c\<lparr>ck_timer := timer\<lparr>ckr_low := pick (ckr_low timer)\<rparr>, ck_counter_templow := None\<rparr>)
           else if new_address = 1 then
             (Value (), c\<lparr>ck_timer := timer\<lparr>ckr_high := pick (ckr_high timer)\<rparr>, ck_counter_templow := None\<rparr>)
           else if new_address = 2 then
             (Value (), c\<lparr>ck_comp := comp\<lparr>ckr_low := pick (ckr_low comp)\<rparr>, ck_comp_templow := None\<rparr>)
           else if new_address = 3 then
             (Value (), c\<lparr>ck_comp := comp\<lparr>ckr_high := pick (ckr_high comp)\<rparr>, ck_comp_templow := None\<rparr>)
           else (Unexpected Access_fault, c))"

text \<open>
  Reading a high word latches the low word, and the next read of the low word returns the latch.
\<close>

definition clock_read :: "clock \<Rightarrow> u64 \<Rightarrow> (u32, mem_error) expected \<times> clock" where
  "clock_read c address =
     (if address AND 0x3 \<noteq> 0 then (Unexpected Unaligned, c)
      else
        let new_address = address div 4
        in if new_address = 0 then
             (case ck_counter_templow c of
                Some v \<Rightarrow> (Value v, c\<lparr>ck_counter_templow := None\<rparr>)
              | None \<Rightarrow> (Value (ckr_low (ck_timer c)), c))
           else if new_address = 1 then
             (Value (ckr_high (ck_timer c)), c\<lparr>ck_counter_templow := Some (ckr_low (ck_timer c))\<rparr>)
           else if new_address = 2 then
             (case ck_comp_templow c of
                Some v \<Rightarrow> (Value v, c\<lparr>ck_comp_templow := None\<rparr>)
              | None \<Rightarrow> (Value (ckr_low (ck_comp c)), c))
           else if new_address = 3 then
             (Value (ckr_high (ck_comp c)), c\<lparr>ck_comp_templow := Some (ckr_low (ck_comp c))\<rparr>)
           else (Unexpected Access_fault, c))"

text \<open>A tick, with the CPU's \<open>mip\<close>.\<close>

definition clock_tick :: "clock \<Rightarrow> u32 \<Rightarrow> clock \<times> u32" where
  "clock_tick c mip =
     (let c = c\<lparr>ck_timer := set_64 (get_64 (ck_timer c) + 1)\<rparr>
      in (c, if get_64 (ck_timer c) > get_64 (ck_comp c) then mip OR push_bit 7 1 else mip))"

definition clock_interface :: "clock memory_interface" where
  "clock_interface =
     \<lparr>mi_read = clock_read, mi_read_page = periph_read_page, mi_write = clock_write, mi_size = periph_size\<rparr>"

section \<open>The UART\<close>

record uart =
  ua_config_reg :: u32
  ua_input :: "u8 list"
  ua_eof :: bool
  ua_random :: "nat \<Rightarrow> nat"
  ua_output :: "u8 list"

definition uart_init :: "u8 list \<Rightarrow> (nat \<Rightarrow> nat) \<Rightarrow> uart" where
  "uart_init inp random =
     \<lparr>ua_config_reg = 0, ua_input = inp, ua_eof = False, ua_random = random, ua_output = []\<rparr>"

definition uart_write :: "uart \<Rightarrow> u64 \<Rightarrow> u32 \<Rightarrow> 4 bitset \<Rightarrow> (unit, mem_error) expected \<times> uart" where
  "uart_write u address data k =
     (if address AND 0x3 \<noteq> 0 then (Unexpected Unaligned, u)
      else
        let new_address = address div 4
        in if new_address = 0 then
             (Value (),
              if bs_bool (bs_and k (bs_of 0x1)) then u\<lparr>ua_output := ua_output u @ [ucast (data AND 0xff)]\<rparr> else u)
           else if new_address = 2 then
             (Value (),
              u\<lparr>ua_config_reg := bs_choose_bits_u32 (bs_expand_byte_mask k) data (ua_config_reg u)\<rparr>)
           else (Unexpected Access_fault, u))"

text \<open>\<open>istream::get\<close>: the next character, or \<open>EOF\<close> (-1) with the flag set.\<close>

definition stream_get :: "uart \<Rightarrow> u32 \<times> uart" where
  "stream_get u =
     (if ua_eof u then (-1, u)
      else case ua_input u of
             [] \<Rightarrow> (-1, u\<lparr>ua_eof := True\<rparr>)
           | b # bs \<Rightarrow> (ucast b, u\<lparr>ua_input := bs\<rparr>))"

definition uart_read :: "uart \<Rightarrow> u64 \<Rightarrow> (u32, mem_error) expected \<times> uart" where
  "uart_read u address =
     (if address AND 0x3 \<noteq> 0 then (Unexpected Unaligned, u)
      else
        let new_address = address div 4
        in if new_address = 1 then (let (v, u) = stream_get u in (Value v, u))
           else if new_address = 2 then (Value (ua_config_reg u), u)
           else if new_address = 3 then
             (if \<not> ua_eof u then
                (Value (0b10 OR (if ua_random u 0 mod 2 = 1 then 0b01 else 0b00)),
                 u\<lparr>ua_random := (\<lambda>n. ua_random u (Suc n))\<rparr>)
              else (Value (0b10 OR 0b00), u))
           else (Unexpected Access_fault, u))"

definition set_input_stream :: "u8 list \<Rightarrow> bool \<Rightarrow> uart \<Rightarrow> uart" where
  "set_input_stream inp eof u = u\<lparr>ua_input := inp, ua_eof := eof\<rparr>"

definition uart_interface :: "uart memory_interface" where
  "uart_interface =
     \<lparr>mi_read = uart_read, mi_read_page = periph_read_page, mi_write = uart_write, mi_size = periph_size\<rparr>"

section \<open>What they promise\<close>

interpretation clock_dev: memory_device clock_interface "\<lambda>_. True"
  by unfold_locales
    (auto simp: clock_interface_def clock_read_def clock_write_def periph_read_page_def Let_def
      split: option.splits)

interpretation uart_dev: memory_device uart_interface "\<lambda>_. True"
  by unfold_locales
    (auto simp: uart_interface_def uart_read_def uart_write_def periph_read_page_def Let_def
      split: prod.splits)

lemma get_set_64 [simp]: "get_64 (set_64 v) = v"
proof (rule bit_word_eqI)
  have ones: "(0xFFFFFFFF :: u64) = mask 32" by (simp add: mask_eq_exp_minus_1)
  fix n assume "n < LENGTH(64)"
  then show "bit (get_64 (set_64 v)) n = bit v n"
    by (cases "n < 32") (auto simp: get_64_def set_64_def ones bit_simps bit_word_leD)
qed

lemma set_get_64 [simp]: "set_64 (get_64 r) = r"
proof -
  have ones: "(0xFFFFFFFF :: u64) = mask 32" by (simp add: mask_eq_exp_minus_1)
  have "ckr_low (set_64 (get_64 r)) = ckr_low r" "ckr_high (set_64 (get_64 r)) = ckr_high r"
    by (rule bit_word_eqI; auto simp: get_64_def set_64_def ones bit_simps bit_word_leD)+
  then show ?thesis by (intro clock_reg.equality) simp_all
qed

text \<open>
  The latch makes a 64-bit read atomic: high word first, then any number of ticks, then the low
  word gives the counter as it was at the first read.
\<close>

fun clock_ticks :: "nat \<Rightarrow> clock \<Rightarrow> clock" where
  "clock_ticks 0 c = c"
| "clock_ticks (Suc n) c = clock_ticks n (fst (clock_tick c 0))"

lemma clock_ticks_templow [simp]: "ck_counter_templow (clock_ticks n c) = ck_counter_templow c"
  by (induction n arbitrary: c) (simp_all add: clock_tick_def Let_def)

lemma clock_tick_state: "fst (clock_tick c mip) = fst (clock_tick c 0)"
  by (simp add: clock_tick_def Let_def)

lemma clock_ticks_value: "get_64 (ck_timer (clock_ticks n c)) = get_64 (ck_timer c) + of_nat n"
  by (induction n arbitrary: c) (simp_all add: clock_tick_def Let_def algebra_simps)

lemma clock_atomic_read:
  assumes "clock_read c 4 = (Value hi, c1)" "clock_read (clock_ticks n c1) 0 = (Value lo, c2)"
  shows "push_bit 32 (ucast hi) OR ucast lo = get_64 (ck_timer c)"
  using assms by (auto simp: clock_read_def get_64_def split: option.splits)

text \<open>The interrupt is raised by a tick exactly when the counter has passed the compare value.\<close>

lemma clock_tick_interrupt:
  "clock_tick c mip = (c', mip') \<Longrightarrow>
     bit mip' 7 \<longleftrightarrow> bit mip 7 \<or> get_64 (ck_timer c) + 1 > get_64 (ck_comp c)"
  by (auto simp: clock_tick_def Let_def bit_simps split: if_splits)

end
