(* ===== verification/Platform.thy ===== *)
theory Platform
  imports IsaStep DebugMemory BlockMemory Peripherals
begin

text \<open>
  \<open>lib/device/interconnect.cpp\<close>, the dispatch of an address to a device, and \<open>main/src/platform.cpp\<close>,
  the memory map of the emulated platform: RAM, ROM, UART and clock. The reference to a device
  that \<open>get_memory\<close> returns is the name of the device; its interface works on the state of the
  whole memory through the field that holds it.
\<close>

unbundle bit_operations_syntax

section \<open>Interconnect\<close>

type_synonym ('m, 'd) memory_query = "'m \<Rightarrow> u64 \<Rightarrow> mem_error + ('d \<times> u64)"

definition interconnect_read ::
  "('m, 'd) memory_query \<Rightarrow> ('d \<Rightarrow> 'm memory_interface) \<Rightarrow> 'm \<Rightarrow> u64 \<Rightarrow> (u32, mem_error) expected \<times> 'm"
where
  "interconnect_read get_memory entry m address =
     (case get_memory m address of
        Inl e \<Rightarrow> (Unexpected e, m)
      | Inr (d, entry_address) \<Rightarrow> mi_read (entry d) m entry_address)"

definition interconnect_read_page ::
  "('m, 'd) memory_query \<Rightarrow> ('d \<Rightarrow> 'm memory_interface) \<Rightarrow> 'm \<Rightarrow> u64 \<Rightarrow> (nat \<Rightarrow> u32, mem_error) expected \<times> 'm"
where
  "interconnect_read_page get_memory entry m address =
     (case get_memory m address of
        Inl e \<Rightarrow> (Unexpected e, m)
      | Inr (d, entry_address) \<Rightarrow> mi_read_page (entry d) m entry_address)"

definition interconnect_write ::
  "('m, 'd) memory_query \<Rightarrow> ('d \<Rightarrow> 'm memory_interface) \<Rightarrow>
     'm \<Rightarrow> u64 \<Rightarrow> u32 \<Rightarrow> 4 bitset \<Rightarrow> (unit, mem_error) expected \<times> 'm"
where
  "interconnect_write get_memory entry m address data k =
     (case get_memory m address of
        Inl e \<Rightarrow> (Unexpected e, m)
      | Inr (d, entry_address) \<Rightarrow> mi_write (entry d) m entry_address data k)"

definition interconnect_size :: "'m \<Rightarrow> u64" where
  "interconnect_size _ = -1"

definition interconnect ::
  "('m, 'd) memory_query \<Rightarrow> ('d \<Rightarrow> 'm memory_interface) \<Rightarrow> 'm memory_interface"
where
  "interconnect get_memory entry =
     \<lparr>mi_read = interconnect_read get_memory entry,
      mi_read_page = interconnect_read_page get_memory entry,
      mi_write = interconnect_write get_memory entry,
      mi_size = interconnect_size\<rparr>"

text \<open>A device seen through the field of the state that holds it.\<close>

definition member_interface :: "('m \<Rightarrow> 's) \<Rightarrow> ('s \<Rightarrow> 'm \<Rightarrow> 'm) \<Rightarrow> 's memory_interface \<Rightarrow> 'm memory_interface" where
  "member_interface get put J =
     \<lparr>mi_read = (\<lambda>m a. let (r, s) = mi_read J (get m) a in (r, put s m)),
      mi_read_page = (\<lambda>m a. let (r, s) = mi_read_page J (get m) a in (r, put s m)),
      mi_write = (\<lambda>m a d k. let (r, s) = mi_write J (get m) a d k in (r, put s m)),
      mi_size = (\<lambda>m. mi_size J (get m))\<rparr>"

section \<open>The platform\<close>

record platform_memory =
  pm_rom :: block_memory
  pm_ram :: block_memory
  pm_uart :: uart
  pm_clock_periph :: clock

datatype device = Dev_ram | Dev_rom | Dev_uart | Dev_clock

definition rom_start :: u64 where "rom_start = 0x00100000"
definition ram_start :: u64 where "ram_start = 0x80000000"
definition uart_start :: u64 where "uart_start = 0x00010000"
definition clock_start :: u64 where "clock_start = 0x00011000"

definition get_memory :: "(platform_memory, device) memory_query" where
  "get_memory m address =
     (if address \<ge> ram_start \<and> address < ram_start + block_size (pm_ram m)
      then Inr (Dev_ram, address - ram_start)
      else if address \<ge> rom_start \<and> address < rom_start + block_size (pm_rom m)
      then Inr (Dev_rom, address - rom_start)
      else if address \<ge> uart_start \<and> address < uart_start + periph_size (pm_uart m)
      then Inr (Dev_uart, address - uart_start)
      else if address \<ge> clock_start \<and> address < clock_start + periph_size (pm_clock_periph m)
      then Inr (Dev_clock, address - clock_start)
      else Inl Out_of_range)"

fun platform_entry :: "device \<Rightarrow> platform_memory memory_interface" where
  "platform_entry Dev_ram = member_interface pm_ram (\<lambda>s m. m\<lparr>pm_ram := s\<rparr>) block_interface"
| "platform_entry Dev_rom = member_interface pm_rom (\<lambda>s m. m\<lparr>pm_rom := s\<rparr>) block_interface"
| "platform_entry Dev_uart = member_interface pm_uart (\<lambda>s m. m\<lparr>pm_uart := s\<rparr>) uart_interface"
| "platform_entry Dev_clock =
     member_interface pm_clock_periph (\<lambda>s m. m\<lparr>pm_clock_periph := s\<rparr>) clock_interface"

definition platform_interface :: "platform_memory memory_interface" where
  "platform_interface = interconnect get_memory platform_entry"

definition platform_new ::
  "u8 list \<Rightarrow> fill_policy \<Rightarrow> (nat \<Rightarrow> nat \<Rightarrow> page) \<Rightarrow> uart \<Rightarrow> exn + platform_memory"
where
  "platform_new rom_init_data policy random uart =
     (case fill_data rom_init_data (block_memory_new (128 * 1024) Fill_None random) of
        (Inl x, _) \<Rightarrow> Inl x
      | (Inr False, _) \<Rightarrow> Inl (Runtime_error ''ROM init data exceeds ROM size'')
      | (Inr True, rom) \<Rightarrow>
          Inr \<lparr>pm_rom = block_lock rom,
               pm_ram = block_memory_new (2 * 1024 * 1024 * 1024) policy random,
               pm_uart = uart, pm_clock_periph = clock_init\<rparr>)"

section \<open>The memory it implements\<close>

definition platform_inv :: "platform_memory \<Rightarrow> bool" where
  "platform_inv m \<longleftrightarrow>
     block_inv (pm_ram m) \<and> block_inv (pm_rom m)
     \<and> bm_actual_size_bytes (pm_ram m) = 0x80000000 \<and> bm_actual_size_bytes (pm_rom m) = 0x20000"

definition platform_view :: "platform_memory \<Rightarrow> mem_view" where
  "platform_view m a =
     (if a \<ge> ram_start then block_view (pm_ram m) (a - ram_start)
      else if a \<ge> rom_start then block_view (pm_rom m) (a - rom_start)
      else None)"

lemma block_view_outside: "bm_actual_size_bytes bm \<le> a \<Longrightarrow> block_view bm a = None"
  by (auto simp: block_view_def)

lemma get_memory_cases:
  assumes "platform_inv m"
  obtains "get_memory m a = Inr (Dev_ram, a - ram_start)" "ram_start \<le> a" "a - ram_start < 0x80000000"
    | "get_memory m a = Inr (Dev_rom, a - rom_start)" "rom_start \<le> a" "a < ram_start" "a - rom_start < 0x20000"
    | d off where "get_memory m a = Inr (d, off)" "d = Dev_uart \<or> d = Dev_clock" "a < rom_start"
    | "get_memory m a = Inl Out_of_range" "platform_view m a = None"
proof -
  note defs = get_memory_def ram_start_def rom_start_def uart_start_def clock_start_def block_size_def
    periph_size_def word_le_nat_alt word_less_nat_alt
  have sz: "bm_actual_size_bytes (pm_ram m) = 0x80000000" "bm_actual_size_bytes (pm_rom m) = 0x20000"
    using assms by (simp_all add: platform_inv_def)
  have sub: "unat (a - s) = unat a - unat s" if "s \<le> a" for s by (rule unat_sub[OF that])
  have ram: "ram_start \<le> a \<Longrightarrow> (a - ram_start < 0x80000000 \<longleftrightarrow> unat a < 0x100000000)"
    using sub[of ram_start] by (auto simp: defs)
  have rom: "rom_start \<le> a \<Longrightarrow> (a - rom_start < 0x20000 \<longleftrightarrow> unat a < 0x120000)"
    using sub[of rom_start] by (auto simp: defs)
  consider "ram_start \<le> a" "unat a < 0x100000000" | "ram_start \<le> a" "unat a \<ge> 0x100000000"
    | "rom_start \<le> a" "a < ram_start" "unat a < 0x120000" | "rom_start \<le> a" "a < ram_start" "unat a \<ge> 0x120000"
    | "a < rom_start" by (metis not_le)
  then show thesis
  proof cases
    case 1
    then show thesis using ram by (intro that(1)) (auto simp: defs sz)
  next
    case 2
    then have "platform_view m a = None"
      using ram by (auto simp: platform_view_def not_less intro!: block_view_outside simp: sz)
    with 2 show thesis by (intro that(4)) (auto simp: defs sz)
  next
    case 3
    then show thesis using rom by (intro that(2)) (auto simp: defs sz)
  next
    case 4
    then have "platform_view m a = None"
      using rom by (auto simp: platform_view_def not_less not_le intro!: block_view_outside simp: sz)
    with 4 show thesis by (intro that(4)) (auto simp: defs sz)
  next
    case 5
    then have n: "\<not> rom_start \<le> a" "\<not> ram_start \<le> a" by (auto simp: defs)
    then have "platform_view m a = None" by (simp add: platform_view_def)
    then show thesis using 5 n that(3,4)
      by (cases "get_memory m a") (auto simp: get_memory_def split: if_splits)
  qed
qed

text \<open>The view of one region under a write to the other, and to itself.\<close>

lemma minus_eq_iff: "(b - s = a - s) = (b = a)" for a b s :: u64
  by simp

lemma platform_view_frame:
  "platform_view (m\<lparr>pm_uart := u\<rparr>) = platform_view m"
  "platform_view (m\<lparr>pm_clock_periph := c\<rparr>) = platform_view m"
  by (simp_all add: platform_view_def fun_eq_iff)

lemma platform_view_ram:
  "ram_start \<le> a \<Longrightarrow> block_view r = view_write (a - ram_start) d k (block_view (pm_ram m)) \<Longrightarrow>
     platform_view (m\<lparr>pm_ram := r\<rparr>) = view_write a d k (platform_view m)"
  by (rule ext) (auto simp: platform_view_def view_write_def split: option.splits bool.splits if_splits)

lemma platform_view_rom:
  "rom_start \<le> a \<Longrightarrow> a < ram_start \<Longrightarrow> block_view r = view_write (a - rom_start) d k (block_view (pm_rom m)) \<Longrightarrow>
     platform_view (m\<lparr>pm_rom := r\<rparr>) = view_write a d k (platform_view m)"
  by (rule ext) (auto simp: platform_view_def view_write_def split: option.splits bool.splits if_splits)

lemma platform_view_none: "platform_view m a = None \<Longrightarrow> view_write a d k (platform_view m) = platform_view m"
  by (simp add: view_write_def)

lemma platform_view_same:
  "block_view r = block_view (pm_ram m) \<Longrightarrow> platform_view (m\<lparr>pm_ram := r\<rparr>) = platform_view m"
  "block_view r' = block_view (pm_rom m) \<Longrightarrow> platform_view (m\<lparr>pm_rom := r'\<rparr>) = platform_view m"
  by (simp_all add: platform_view_def fun_eq_iff)

lemma block_size_kept:
  "bm_actual_size_bytes (snd (block_read bm a)) = bm_actual_size_bytes bm"
  "bm_actual_size_bytes (snd (block_read_page bm a)) = bm_actual_size_bytes bm"
  "bm_actual_size_bytes (snd (block_write bm a d k)) = bm_actual_size_bytes bm"
  by (simp_all add: block_read_def block_read_page_def block_write_def Let_def split: option.splits)

lemmas platform_defs = platform_interface_def interconnect_def interconnect_read_def
  interconnect_read_page_def interconnect_write_def

lemma member_calls [simp]:
  "mi_read (member_interface g p J) m a = (fst (mi_read J (g m) a), p (snd (mi_read J (g m) a)) m)"
  "mi_read_page (member_interface g p J) m a =
     (fst (mi_read_page J (g m) a), p (snd (mi_read_page J (g m) a)) m)"
  "mi_write (member_interface g p J) m a d k =
     (fst (mi_write J (g m) a d k), p (snd (mi_write J (g m) a d k)) m)"
  by (simp_all add: member_interface_def Let_def case_prod_beta)

lemma block_calls [simp]:
  "mi_read block_interface = block_read" "mi_read_page block_interface = block_read_page"
  "mi_write block_interface = block_write"
  by (simp_all add: block_interface_def)

text \<open>Each call, by the region the address falls in.\<close>

lemma platform_calls_inv:
  assumes "platform_inv m"
  shows "platform_inv (snd (mi_read platform_interface m a))"
    and "platform_inv (snd (mi_read_page platform_interface m a))"
    and "platform_inv (snd (mi_write platform_interface m a d k))"
  by (rule get_memory_cases[OF assms, of a]; use assms in \<open>auto simp: platform_defs platform_inv_def
      block_read_inv block_read_page_inv block_write_inv block_size_kept\<close>)+

lemma periph_returns:
  "\<not> throws (fst (mi_read uart_interface u a))" "\<not> throws (fst (mi_read clock_interface c a))"
  "\<not> throws (fst (mi_write uart_interface u a d k))" "\<not> throws (fst (mi_write clock_interface c a d k))"
  by (auto simp: uart_interface_def clock_interface_def uart_read_def clock_read_def uart_write_def
      clock_write_def Let_def split: prod.splits option.splits)

lemma platform_returns:
  assumes "platform_inv m"
  shows "\<not> throws (fst (mi_read platform_interface m a))"
    and "unat a < 2 ^ 32 \<Longrightarrow> \<not> throws (fst (mi_read_page platform_interface m a))"
    and "\<not> throws (fst (mi_write platform_interface m a d k))"
    and "fst (mi_write platform_interface m a d k) \<noteq> Unexpected Not_supported"
proof -
  note b = assms[unfolded platform_inv_def]
  have off: "unat (a - ram_start) < 2 ^ 32" if "unat a < 2 ^ 32" "ram_start \<le> a"
    using that unat_sub[of ram_start a] by simp
  have off': "unat (a - rom_start) < 2 ^ 32" if "unat a < 2 ^ 32" "rom_start \<le> a"
    using that unat_sub[of rom_start a] by simp
  show "\<not> throws (fst (mi_read platform_interface m a))"
    by (rule get_memory_cases[OF assms, of a])
      (use b in \<open>auto simp: platform_defs block_read_returns periph_returns\<close>)
  show "\<not> throws (fst (mi_read_page platform_interface m a))" if "unat a < 2 ^ 32"
    by (rule get_memory_cases[OF assms, of a])
      (use b off off' that in \<open>auto simp: platform_defs block_page_returns periph_read_page_def
        uart_interface_def clock_interface_def\<close>)
  show "\<not> throws (fst (mi_write platform_interface m a d k))"
    by (rule get_memory_cases[OF assms, of a])
      (use b in \<open>auto simp: platform_defs block_write_returns periph_returns\<close>)
  show "fst (mi_write platform_interface m a d k) \<noteq> Unexpected Not_supported"
    by (rule get_memory_cases[OF assms, of a])
      (use b in \<open>auto simp: platform_defs block_write_supported uart_dev.write_supported clock_dev.write_supported\<close>)
qed

lemma platform_read_view:
  assumes "platform_inv m"
  shows "platform_view (snd (mi_read platform_interface m a)) = platform_view m"
    and "platform_view (snd (mi_read_page platform_interface m a)) = platform_view m"
  by (rule get_memory_cases[OF assms, of a]; auto simp: platform_defs platform_view_frame
      block_read_view block_read_page_view platform_view_same)+

lemma platform_write_view:
  assumes "platform_inv m"
  shows "platform_view (snd (mi_write platform_interface m a d k)) = view_write a d k (platform_view m)"
proof -
  note b = assms[unfolded platform_inv_def]
  have low: "platform_view m a = None" if "a < rom_start"
  proof -
    have "\<not> rom_start \<le> a" "\<not> ram_start \<le> a"
      using that by (auto simp: word_le_nat_alt word_less_nat_alt ram_start_def rom_start_def)
    then show ?thesis by (simp add: platform_view_def)
  qed
  show ?thesis
    by (rule get_memory_cases[OF assms, of a])
      (use b low in \<open>auto simp: platform_defs platform_view_frame platform_view_none
        block_write_view platform_view_ram platform_view_rom\<close>)
qed

lemma platform_read_value:
  assumes "platform_inv m" "platform_view m a = Some (p, v)"
  shows "fst (mi_read platform_interface m a) = Value v"
proof -
  note b = assms(1)[unfolded platform_inv_def]
  have rom: "rom_start \<le> a" using assms(2)
    by (auto simp: platform_view_def word_le_nat_alt ram_start_def rom_start_def split: if_splits)
  show ?thesis
    by (rule get_memory_cases[OF assms(1), of a])
      (use b rom assms(2) in \<open>auto simp: platform_defs platform_view_def block_read_value split: if_splits\<close>)
qed

lemma platform_write_value:
  assumes "platform_inv m" "platform_view m a = Some (True, v)"
  shows "fst (mi_write platform_interface m a d k) = Value ()"
proof -
  note b = assms(1)[unfolded platform_inv_def]
  have rom: "rom_start \<le> a" using assms(2)
    by (auto simp: platform_view_def word_le_nat_alt ram_start_def rom_start_def split: if_splits)
  show ?thesis
    by (rule get_memory_cases[OF assms(1), of a])
      (use b rom assms(2) in \<open>auto simp: platform_defs platform_view_def block_write_value split: if_splits\<close>)
qed

lemma platform_page_value:
  assumes "platform_inv m" "a AND 0xfff = 0" "fst (mi_read_page platform_interface m a) = Value f" "i < 1024"
  shows "\<exists>p. platform_view m (a + 4 * of_nat i) = Some (p, f i)"
proof -
  note b = assms(1)[unfolded platform_inv_def]
  have e: "unat (x AND 0xfff) = unat x mod 4096" for x :: u64
    using and_low[of "0xfff" 12 x] by (simp add: mask_eq_exp_minus_1)
  have z: "x AND 0xfff = 0 \<longleftrightarrow> unat x mod 4096 = 0" for x :: u64
    by (simp only: e[symmetric] unsigned_eq_0_iff)
  have starts: "unat ram_start mod 4096 = 0" "unat rom_start mod 4096 = 0"
    by (simp_all add: ram_start_def rom_start_def)
  have al: "(a - s) AND 0xfff = 0" if "s \<le> a" "unat s mod 4096 = 0" for s
  proof -
    have "unat s \<le> unat a" using that(1) by (simp add: word_le_nat_alt)
    then have "(unat a - unat s) mod 4096 = 0"
      using assms(2) that(2) by (simp add: z mod_eq_0_iff_dvd dvd_diff_nat)
    then show ?thesis by (simp only: z unat_sub[OF that(1)])
  qed
  have k: "unat (4 * of_nat i :: u64) = 4 * i"
    using assms(4) by (simp add: unat_word_ariths unat_of_nat take_bit_nat_eq_self)
  have shift: "a + 4 * of_nat i - s = a - s + 4 * of_nat i" for s by simp
  show ?thesis
  proof (rule get_memory_cases[OF assms(1), of a])
    assume g: "get_memory m a = Inr (Dev_ram, a - ram_start)" "ram_start \<le> a" "a - ram_start < 0x80000000"
    have "unat a < 0x100000000"
      using g(2,3) unat_sub[OF g(2)] by (simp add: word_le_nat_alt word_less_nat_alt ram_start_def)
    then have "unat (a + 4 * of_nat i) = unat a + 4 * i" using assms(4) by (simp only: unat_word_ariths(1) k) simp
    then have "ram_start \<le> a + 4 * of_nat i" using g(2) by (simp add: word_le_nat_alt)
    moreover have "fst (block_read_page (pm_ram m) (a - ram_start)) = Value f"
      using assms(3) g(1) by (simp add: platform_defs)
    ultimately show ?thesis
      using block_page_value[OF _ al[OF g(2) starts(1)] _ assms(4)] b
      by (simp add: platform_view_def shift)
  next
    assume g: "get_memory m a = Inr (Dev_rom, a - rom_start)" "rom_start \<le> a" "a < ram_start" "a - rom_start < 0x20000"
    have lt: "unat a < 0x120000"
      using g(2,4) unat_sub[OF g(2)] by (simp add: word_le_nat_alt word_less_nat_alt rom_start_def)
    then have "unat (a + 4 * of_nat i) = unat a + 4 * i" using assms(4) by (simp only: unat_word_ariths(1) k) simp
    then have "rom_start \<le> a + 4 * of_nat i" "\<not> ram_start \<le> a + 4 * of_nat i"
      using g(2) lt assms(4) by (simp_all add: word_le_nat_alt ram_start_def)
    moreover have "fst (block_read_page (pm_rom m) (a - rom_start)) = Value f"
      using assms(3) g(1) by (simp add: platform_defs)
    ultimately show ?thesis
      using block_page_value[OF _ al[OF g(2) starts(2)] _ assms(4)] b
      by (simp add: platform_view_def shift)
  next
    fix d off assume "get_memory m a = Inr (d, off)" "d = Dev_uart \<or> d = Dev_clock"
    then show ?thesis using assms(3)
      by (auto simp: platform_defs uart_interface_def clock_interface_def periph_read_page_def)
  next
    assume "get_memory m a = Inl Out_of_range"
    then show ?thesis using assms(3) by (simp add: platform_defs)
  qed
qed

interpretation plat: word_memory platform_interface platform_inv platform_view
  by unfold_locales
    (auto simp: platform_calls_inv platform_returns platform_read_view platform_write_view
      platform_read_value platform_write_value platform_page_value)

section \<open>The initial platform\<close>

text \<open>Construction succeeds exactly when the ROM image fits, and establishes the invariant.\<close>

lemma platform_new_inv:
  "platform_new rom policy random u = Inr m \<Longrightarrow> platform_inv m"
proof -
  assume new: "platform_new rom policy random u = Inr m"
  let ?rom = "block_memory_new (128 * 1024) Fill_None random"
  have rom_inv: "block_inv ?rom" by (rule block_memory_new_inv) simp
  have ram_inv: "block_inv (block_memory_new (2 * 1024 * 1024 * 1024) policy random)"
    by (rule block_memory_new_inv) simp
  have "length rom \<le> unat (bm_actual_size_bytes ?rom)"
    using new by (auto simp: platform_new_def fill_data_def block_size_def not_less split: if_splits)
  from fill_data_ok[OF rom_inv this] obtain r where r: "fill_data rom ?rom = (Inr True, r)" "block_inv r"
    "bm_actual_size_bytes r = bm_actual_size_bytes ?rom" .
  then show ?thesis
    using new ram_inv by (auto simp: platform_new_def platform_inv_def block_lock_def block_memory_new_def block_inv_def)
qed

lemma platform_new_fits:
  "(\<exists>m. platform_new rom policy random u = Inr m) \<longleftrightarrow> length rom \<le> 131072"
proof -
  let ?rom = "block_memory_new (128 * 1024) Fill_None random"
  have sz: "unat (bm_actual_size_bytes ?rom) = 131072" by (simp add: block_memory_new_def)
  have rom_inv: "block_inv ?rom" by (rule block_memory_new_inv) simp
  show ?thesis
  proof (cases "length rom \<le> 131072")
    case True
    with sz have "length rom \<le> unat (bm_actual_size_bytes ?rom)" by simp
    from fill_data_ok[OF rom_inv this] obtain r where "fill_data rom ?rom = (Inr True, r)" .
    with True show ?thesis by (simp add: platform_new_def)
  next
    case False
    with sz fill_data_too_long[of ?rom rom] show ?thesis by (simp add: platform_new_def)
  qed
qed

text \<open>Every word of RAM is in the view, writable while the RAM is not locked.\<close>

lemma platform_view_ram_word:
  assumes "platform_inv m" "\<not> bm_write_lock (pm_ram m)" "0x80000000 \<le> (a :: u32)"
  obtains v where "platform_view m (ucast (a AND 0xfffffffc)) = Some (True, v)"
proof -
  have sz: "bm_actual_size_bytes (pm_ram m) = 0x80000000" using assms(1) by (simp add: platform_inv_def)
  define b :: u64 where "b = ucast (a AND 0xfffffffc)"
  have ub: "unat b = 4 * (unat a div 4)" by (simp add: b_def unat_align)
  have a: "0x80000000 \<le> unat a" "unat a < 0x100000000" using assms(3) by (simp_all add: word_le_nat_alt)
  have "4 * (0x80000000 div 4) \<le> 4 * (unat a div 4)" using a(1) div_le_mono by (intro mult_le_mono2) blast
  then have ge: "ram_start \<le> b" by (simp add: ram_start_def word_le_nat_alt ub)
  have le: "4 * (unat a div 4) \<le> unat a" by simp
  have sub: "unat (b - ram_start) = 4 * (unat a div 4) - 0x80000000"
    using unat_sub[OF ge] by (simp add: ub ram_start_def)
  have "4 * (unat a div 4) - 0x80000000 < 0x80000000" using a(2) le by linarith
  then have lt: "b - ram_start < 0x80000000" by (simp add: word_less_nat_alt sub)
  have "unat ((b - ram_start) AND 0x3) = unat (b - ram_start) mod 4"
    using and_low[of "0x3" 2 "b - ram_start"] by (simp add: mask_eq_exp_minus_1)
  moreover have "4 * (unat a div 4) - 0x80000000 = 4 * (unat a div 4 - 0x20000000)" by simp
  ultimately have "unat ((b - ram_start) AND 0x3) = 0" by (simp only: sub) simp
  then have "(b - ram_start) AND 0x3 = 0" by (simp only: unsigned_eq_0_iff)
  then show thesis
    using that ge lt sz assms(2) by (simp add: platform_view_def block_view_def flip: b_def)
qed

text \<open>Every device rejects an unaligned address.\<close>

lemma and_3_minus: "s AND 3 = 0 \<Longrightarrow> (a - s) AND 3 = a AND 3" for a s :: u64
proof -
  have m: "unat (x AND 3) = unat x mod 4" for x :: u64
    using and_low[of "3 :: u64" 2 x] by (simp add: mask_eq_exp_minus_1)
  assume "s AND 3 = 0"
  then have "unat s mod 4 = 0" using m[of s] by simp
  moreover have "unat a mod 4 = (unat (a - s) + unat s) mod 4"
    using unat_word_ariths(1)[of "a - s" s] by (simp add: mod_mod_cancel)
  ultimately have "unat a mod 4 = unat (a - s) mod 4" by presburger
  then show ?thesis by (simp add: word_unat_eq_iff m)
qed

lemma platform_unaligned:
  assumes "platform_inv m" "a AND 3 \<noteq> 0"
  shows "\<exists>e. fst (mi_read platform_interface m a) = Unexpected e"
    and "\<not> bs_eq_int k 0 \<Longrightarrow> \<exists>e. fst (mi_write platform_interface m a d k) = Unexpected e"
proof -
  have al: "(a - ram_start) AND 3 \<noteq> 0" "(a - rom_start) AND 3 \<noteq> 0" "(a - uart_start) AND 3 \<noteq> 0"
    "(a - clock_start) AND 3 \<noteq> 0"
    using assms(2) by (simp_all add: and_3_minus ram_start_def rom_start_def uart_start_def clock_start_def)
  show "\<exists>e. fst (mi_read platform_interface m a) = Unexpected e"
    using al by (auto simp: platform_defs get_memory_def block_read_def uart_interface_def clock_interface_def
        uart_read_def clock_read_def)
  show "\<exists>e. fst (mi_write platform_interface m a d k) = Unexpected e" if "\<not> bs_eq_int k 0"
    using al that by (auto simp: platform_defs get_memory_def block_write_def uart_interface_def
        clock_interface_def uart_write_def clock_write_def Let_def)
qed

end
