(* ===== verification/Emulator.thy ===== *)
theory Emulator
  imports Platform
begin

text \<open>
  \<open>main/src/emulator.cpp\<close>: the emulator without a debugger. The state holds the CPU and the memory
  of the platform. Creation takes the size of the flash file and the bytes read from it (\<open>None\<close> when
  it cannot be opened);
  \<open>run\<close> is a loop that need not end, so it is a partial function into \<open>option\<close>, and each cycle
  takes its indeterminate values from a sequence.
\<close>

unbundle bit_operations_syntax

datatype trap_capture_mode = No_capture | Exception_only | Capture_all

record emulator =
  em_cpu :: cpu
  em_memory :: platform_memory
  em_inst_executed :: u64
  em_trap_capture :: trap_capture_mode
  em_stop_at_infinite_loop :: bool

definition emulator_create ::
  "(nat \<times> u8 list) option \<Rightarrow> fill_policy \<Rightarrow> trap_capture_mode \<Rightarrow> bool \<Rightarrow> (nat \<Rightarrow> nat \<Rightarrow> page) \<Rightarrow> uart \<Rightarrow> exn + emulator"
where
  "emulator_create rom_file policy capture stop_loop random uart =
     (case rom_file of
        None \<Rightarrow> Inl (Runtime_error ''Failed to open flash file'')
      | Some (file_size, rom_data) \<Rightarrow>
          if file_size = 0 then Inl (Runtime_error ''Flash file is empty'')
          else if length rom_data \<noteq> file_size then Inl (Runtime_error ''Failed to read flash file'')
          else case platform_new rom_data policy random uart of
                 Inl x \<Rightarrow> Inl x
               | Inr memory \<Rightarrow>
                   Inr \<lparr>em_cpu = cpu_init 0x00100000, em_memory = memory, em_inst_executed = 0,
                        em_trap_capture = capture, em_stop_at_infinite_loop = stop_loop\<rparr>)"

definition tick_one_cycle :: "junk \<Rightarrow> emulator \<Rightarrow> (exn + cpu_result) \<times> emulator" where
  "tick_one_cycle j e =
     (case cpu_step platform_interface j (em_cpu e) (em_memory e) of
        (Inl x, cpu, memory) \<Rightarrow> (Inl x, e\<lparr>em_cpu := cpu, em_memory := memory\<rparr>)
      | (Inr result, cpu, memory) \<Rightarrow>
          let (clock, mip) = clock_tick (pm_clock_periph memory) (csr_mip (cpu_csr cpu));
              cpu = cpu\<lparr>cpu_csr := (cpu_csr cpu)\<lparr>csr_mip := mip\<rparr>\<rparr>;
              memory = memory\<lparr>pm_clock_periph := clock\<rparr>
          in (Inr result,
              e\<lparr>em_cpu := cpu, em_memory := memory, em_inst_executed := em_inst_executed e + 1\<rparr>))"

text \<open>The two checks of the loop.\<close>

definition trap_captured :: "trap_capture_mode \<Rightarrow> cpu_result \<Rightarrow> bool" where
  "trap_captured mode result =
     (case mode of
        No_capture \<Rightarrow> False
      | Exception_only \<Rightarrow>
          (case cr_trap result of
             None \<Rightarrow> False
           | Some t \<Rightarrow> is_interrupt t \<and> t \<noteq> Env_call_from_M_mode)
      | Capture_all \<Rightarrow> cr_trap result \<noteq> None)"

definition infinite_loop :: "emulator \<Rightarrow> cpu_result \<Rightarrow> bool" where
  "infinite_loop e result \<longleftrightarrow>
     em_stop_at_infinite_loop e \<and> cr_trap result = None
     \<and> cr_pc result = cr_alu_result result \<and> cr_branch_result result"

datatype run_end = Trap_captured cpu_result | Infinite_loop cpu_result | Exception exn

partial_function (option) emulator_run :: "(nat \<Rightarrow> junk) \<Rightarrow> emulator \<Rightarrow> (run_end \<times> emulator) option" where
  "emulator_run j e =
     (case tick_one_cycle (j 0) e of
        (Inl x, e) \<Rightarrow> Some (Exception x, e)
      | (Inr result, e) \<Rightarrow>
          if trap_captured (em_trap_capture e) result then Some (Trap_captured result, e)
          else if infinite_loop e result then Some (Infinite_loop result, e)
          else emulator_run (\<lambda>n. j (Suc n)) e)"

section \<open>The emulator as a state machine\<close>

inductive emu_step :: "emulator \<Rightarrow> emulator \<Rightarrow> bool" where
  tick: "tick_one_cycle j e = (Inr r, e') \<Longrightarrow> emu_step e e'"

inductive emu_reachable :: "emulator \<Rightarrow> bool" where
  create: "emulator_create rom policy capture stop_loop random u = Inr e \<Longrightarrow> emu_reachable e"
| step: "emu_reachable e \<Longrightarrow> emu_step e e' \<Longrightarrow> emu_reachable e'"

inductive_simps emu_step_iff: "emu_step e e'"

definition emu_inv :: "emulator \<Rightarrow> bool" where
  "emu_inv e \<longleftrightarrow> cpu_inv (em_cpu e) \<and> platform_inv (em_memory e)"

lemma emulator_create_inv: "emulator_create rom policy capture stop_loop random u = Inr e \<Longrightarrow> emu_inv e"
  by (auto simp: emulator_create_def emu_inv_def cpu_init_inv platform_new_inv
      split: option.splits if_splits sum.splits)

lemma platform_inv_clock [simp]: "platform_inv (m\<lparr>pm_clock_periph := c\<rparr>) = platform_inv m"
  by (simp add: platform_inv_def)

lemma csr_inv_mip [simp]: "csr_inv (c\<lparr>csr_mip := v\<rparr>) = csr_inv c"
  by (simp add: csr_inv_def)

lemma cpu_step_execute:
  "cpu_step I j s m = (Inr r, s', m') \<Longrightarrow>
     \<exists>s1. execute I j s m = (Inr r, s1, m')
        \<and> s' = (handle_trap r s1)\<lparr>cpu_csr := csr_tick (cpu_csr (handle_trap r s1))\<rparr>"
  by (auto simp: cpu_step_def Let_def split: prod.splits sum.splits)

text \<open>What one cycle is made of.\<close>

lemma tick_cases:
  assumes "tick_one_cycle j e = (Inr r, e')"
  obtains s1 m1 c mip where
    "execute platform_interface j (em_cpu e) (em_memory e) = (Inr r, s1, m1)"
    "clock_tick (pm_clock_periph m1) (csr_mip (cpu_csr (handle_trap r s1))) = (c, mip)"
    "em_cpu e' = (handle_trap r s1)\<lparr>cpu_csr := (csr_tick (cpu_csr (handle_trap r s1)))\<lparr>csr_mip := mip\<rparr>\<rparr>"
    "em_memory e' = m1\<lparr>pm_clock_periph := c\<rparr>"
    "em_inst_executed e' = em_inst_executed e + 1"
    "em_trap_capture e' = em_trap_capture e"
    "em_stop_at_infinite_loop e' = em_stop_at_infinite_loop e"
proof -
  obtain q s' m1 where q: "cpu_step platform_interface j (em_cpu e) (em_memory e) = (q, s', m1)"
    by (cases "cpu_step platform_interface j (em_cpu e) (em_memory e)") auto
  from assms q have "q = Inr r"
    by (cases q) (auto simp: tick_one_cycle_def Let_def split: prod.splits)
  obtain s1 where s1: "execute platform_interface j (em_cpu e) (em_memory e) = (Inr r, s1, m1)"
    "s' = (handle_trap r s1)\<lparr>cpu_csr := csr_tick (cpu_csr (handle_trap r s1))\<rparr>"
    using cpu_step_execute[OF q[unfolded \<open>q = Inr r\<close>]] by blast
  obtain c mip where c: "clock_tick (pm_clock_periph m1) (csr_mip (cpu_csr (handle_trap r s1))) = (c, mip)"
    by fastforce
  show thesis
    by (rule that[OF s1(1) c]) (use assms q c \<open>q = Inr r\<close> s1 in
      \<open>auto simp: tick_one_cycle_def Let_def csr_tick_def\<close>)
qed

lemma emu_step_inv: "emu_inv e \<Longrightarrow> emu_step e e' \<Longrightarrow> emu_inv e'"
proof (elim emu_step.cases)
  fix j f r f'
  assume inv: "emu_inv e" and t: "tick_one_cycle j f = (Inr r, f')" and e: "e = f" "e' = f'"
  from t show "emu_inv e'"
  proof (cases rule: tick_cases)
    case (1 s1 m1 c mip)
    have "cpu_inv s1" using execute_inv[OF _ 1(1)] inv e by (simp add: emu_inv_def)
    then have "cpu_inv (handle_trap r s1)" by (rule handle_trap_inv)
    moreover have "platform_inv m1" using plat.execute_device_inv[OF _ 1(1)] inv e by (simp add: emu_inv_def)
    ultimately show ?thesis using 1(3,4) e by (simp add: emu_inv_def cpu_inv_def csr_tick_inv)
  qed
qed

lemma emu_reachable_inv: "emu_reachable e \<Longrightarrow> emu_inv e"
  by (induction rule: emu_reachable.induct) (auto intro: emulator_create_inv emu_step_inv)

section \<open>Runs\<close>

lemma tick_readonly:
  assumes "emu_inv e" "tick_one_cycle j e = (Inr r, e')" "platform_view (em_memory e) a = Some (False, v)"
  shows "platform_view (em_memory e') a = Some (False, v)"
  using assms(2)
proof (cases rule: tick_cases)
  case (1 s1 m1 c mip)
  have "platform_view m1 a = Some (False, v)"
    by (rule plat.execute_readonly[OF _ assms(3) 1(1)]) (use assms(1) in \<open>simp add: emu_inv_def\<close>)
  then show ?thesis using 1(4) by (simp add: platform_view_frame)
qed

lemma steps_readonly:
  "emu_step\<^sup>*\<^sup>* e e' \<Longrightarrow> emu_inv e \<Longrightarrow> platform_view (em_memory e) a = Some (False, v) \<Longrightarrow>
     emu_inv e' \<and> platform_view (em_memory e') a = Some (False, v)"
proof (induction rule: rtranclp_induct)
  case (step f g)
  then have f: "emu_inv f" "platform_view (em_memory f) a = Some (False, v)" by auto
  from step.hyps(2) obtain j r where "tick_one_cycle j f = (Inr r, g)" by (auto simp: emu_step_iff)
  with f tick_readonly emu_step_inv[OF f(1) step.hyps(2)] show ?case by blast
qed simp

text \<open>A trap of the cycle enters the handler; \<open>mepc\<close> is the address of the trapping instruction.\<close>

lemma tick_trap:
  assumes "tick_one_cycle j e = (Inr r, e')" "cr_trap r = Some t"
  shows "cpu_pc (em_cpu e') = trap_vector t (csr_mtvec (cpu_csr (em_cpu e)))"
    and "csr_mepc (cpu_csr (em_cpu e')) = cpu_pc (em_cpu e)"
    and "mcause_word (csr_mcause (cpu_csr (em_cpu e'))) = trap_code t"
    and "cpu_registers (em_cpu e') = cpu_registers (em_cpu e)"
    and "\<not> ms_mie (csr_mstatus (cpu_csr (em_cpu e')))"
    and "ms_mpie (csr_mstatus (cpu_csr (em_cpu e'))) = ms_mie (csr_mstatus (cpu_csr (em_cpu e)))"
proof -
  have "cpu_pc (em_cpu e') = trap_vector t (csr_mtvec (cpu_csr (em_cpu e)))
    \<and> csr_mepc (cpu_csr (em_cpu e')) = cpu_pc (em_cpu e)
    \<and> mcause_word (csr_mcause (cpu_csr (em_cpu e'))) = trap_code t
    \<and> cpu_registers (em_cpu e') = cpu_registers (em_cpu e)
    \<and> \<not> ms_mie (csr_mstatus (cpu_csr (em_cpu e')))
    \<and> ms_mpie (csr_mstatus (cpu_csr (em_cpu e'))) = ms_mie (csr_mstatus (cpu_csr (em_cpu e)))"
    using assms(1)
  proof (cases rule: tick_cases)
    case (1 s1 m1 c mip)
    from execute_trap_precise[OF 1(1) assms(2)] obtain fc where "s1 = (em_cpu e)\<lparr>cpu_inst_fetch := fc\<rparr>" ..
    then show ?thesis using 1(3) assms(2)
      by (simp add: handle_trap_state handle_trap_frame csr_tick_def)
  qed
  then show "cpu_pc (em_cpu e') = trap_vector t (csr_mtvec (cpu_csr (em_cpu e)))"
    "csr_mepc (cpu_csr (em_cpu e')) = cpu_pc (em_cpu e)"
    "mcause_word (csr_mcause (cpu_csr (em_cpu e'))) = trap_code t"
    "cpu_registers (em_cpu e') = cpu_registers (em_cpu e)"
    "\<not> ms_mie (csr_mstatus (cpu_csr (em_cpu e')))"
    "ms_mpie (csr_mstatus (cpu_csr (em_cpu e'))) = ms_mie (csr_mstatus (cpu_csr (em_cpu e)))" by blast+
qed

text \<open>
  With the timer interrupt enabled and pending, a cycle takes it, unless the fetch fails, the
  instruction is illegal, or it is an \<open>ECALL\<close>.
\<close>

lemma tick_interrupt:
  assumes "timer_interrupt_pending (cpu_csr (em_cpu e))" "tick_one_cycle j e = (Inr r, e')"
  shows "cr_trap r = Some Machine_timer_interrupt
    \<or> cr_trap r \<in> {Some Env_call_from_M_mode, Some Illegal_instruction}
    \<or> (\<exists>t. fst (inst_fetch platform_interface (cpu_pc (em_cpu e)) (cpu_inst_fetch (em_cpu e), em_memory e)) = Unexpected t
        \<and> cr_trap r = Some t)"
  using assms(2)
proof (cases rule: tick_cases)
  case (1 s1 m1 c mip)
  then show ?thesis using assms(1) inst_decode_trap
    by (auto simp: execute_def Let_def split: prod.splits expected.splits sum.splits if_splits)
qed

text \<open>The detector of infinite loops is sound: it stops at an instruction that jumps to itself.\<close>

lemma execute_no_trap:
  assumes "execute I j s m = (Inr r, s', m')" "cr_trap r = None"
  shows "cr_pc r = cpu_pc s \<and> (\<not> dr_mret r \<longrightarrow>
    cpu_pc s' = (if cr_branch_result r then cr_alu_result r else cpu_pc s + 4))"
  using assms(1)
proof (cases rule: execute_cases)
  case (decoded c w d n)
  from decoded(4) show ?thesis
  proof (cases rule: execute_decoded_cases)
    case (committed v c' x r')
    then show ?thesis
      by (auto simp: execute_commit_def Let_def computed_def fetched_def split: if_splits)
  qed (use assms(2) in auto)
qed (use assms(2) in auto)

lemma execute_mret_no_branch:
  assumes "execute I j s m = (Inr r, s', m')" "cr_trap r = None" "dr_mret r"
  shows "\<not> cr_branch_result r"
  using assms(1)
proof (cases rule: execute_cases)
  case (decoded c w d n)
  from decoded(4) show ?thesis
  proof (cases rule: execute_decoded_cases)
    case (committed v c' x r')
    then show ?thesis using decoded(3) assms(3)
      by (auto simp: execute_commit_def Let_def computed_def decode_ok_def split: if_splits)
  qed (use assms(2) in auto)
qed (use assms(2) in auto)

lemma infinite_loop_sound:
  assumes "tick_one_cycle j e = (Inr r, e')" "infinite_loop e' r"
  shows "cpu_pc (em_cpu e') = cpu_pc (em_cpu e)"
  using assms(1)
proof (cases rule: tick_cases)
  case (1 s1 m1 c mip)
  have r: "cr_trap r = None" "cr_branch_result r" "cr_pc r = cr_alu_result r"
    using assms(2) by (simp_all add: infinite_loop_def)
  then have "\<not> dr_mret r" using execute_mret_no_branch[OF 1(1)] by blast
  with execute_no_trap[OF 1(1) r(1)] r have "cpu_pc s1 = cpu_pc (em_cpu e)" by simp
  then show ?thesis using 1(3) r(1) by (simp add: handle_trap_def)
qed

end
