(* ===== verification/Action.thy ===== *)
theory Action
  imports Prelude
begin

text \<open>
  Code that changes a state, may throw, and may not end: a function from the state to the outcome and
  the next state. \<open>None\<close> is a call that never returns, because it loops or waits for input that does
  not come. The debugger and its network handler are written with these combinators, one line for a
  statement; \<open>preserves\<close> carries an invariant through them.
\<close>

type_synonym ('s, 'a) action = "'s \<Rightarrow> ((exn + 'a) \<times> 's) option"

definition return_value :: "'a \<Rightarrow> ('s, 'a) action" where
  "return_value a s = Some (Inr a, s)"

definition throw :: "exn \<Rightarrow> ('s, 'a) action" where
  "throw x s = Some (Inl x, s)"

definition and_do :: "('s, 'a) action \<Rightarrow> ('a \<Rightarrow> ('s, 'b) action) \<Rightarrow> ('s, 'b) action" where
  "and_do f g s =
     (case f s of
        None \<Rightarrow> None
      | Some (Inl x, s) \<Rightarrow> Some (Inl x, s)
      | Some (Inr a, s) \<Rightarrow> g a s)"

definition seq :: "('s, unit) action \<Rightarrow> ('s, 'b) action \<Rightarrow> ('s, 'b) action" where
  "seq f g = and_do f (\<lambda>_. g)"

definition change :: "('s \<Rightarrow> 's) \<Rightarrow> ('s, unit) action" where
  "change u s = Some (Inr (), u s)"

definition read_state :: "('s \<Rightarrow> 'a) \<Rightarrow> ('s, 'a) action" where
  "read_state f s = Some (Inr (f s), s)"

text \<open>A part of the state, with an operation that always returns; or with an action of its own.\<close>

definition on_part :: "('s \<Rightarrow> 'p) \<Rightarrow> ('p \<Rightarrow> 's \<Rightarrow> 's) \<Rightarrow> ('p \<Rightarrow> (exn + 'a) \<times> 'p) \<Rightarrow> ('s, 'a) action" where
  "on_part get put f s = (case f (get s) of (r, p) \<Rightarrow> Some (r, put p s))"

definition act_on_part :: "('s \<Rightarrow> 'p) \<Rightarrow> ('p \<Rightarrow> 's \<Rightarrow> 's) \<Rightarrow> ('p, 'a) action \<Rightarrow> ('s, 'a) action" where
  "act_on_part get put f s = map_option (\<lambda>(r, p). (r, put p s)) (f (get s))"

text \<open>\<open>catch (const std::exception&)\<close>; a step without meaning is no exception.\<close>

definition is_exception :: "exn \<Rightarrow> bool" where
  "is_exception x = (case x of Undefined_behaviour _ \<Rightarrow> False | _ \<Rightarrow> True)"

definition catch_exception :: "('s, 'a) action \<Rightarrow> ('s, 'a) action \<Rightarrow> ('s, 'a) action" where
  "catch_exception f handler s =
     (case f s of
        Some (Inl x, s') \<Rightarrow> if is_exception x then handler s' else Some (Inl x, s')
      | r \<Rightarrow> r)"

lemma action_simps [simp]:
  "and_do (return_value a) f = f a"
  "and_do (throw x) f = throw x"
  "seq (change u) g s = g (u s)"
  "and_do (read_state h) f s = f (h s) s"
  by (auto simp: and_do_def return_value_def throw_def seq_def change_def read_state_def)

lemma and_do_some:
  "and_do f g s = Some (r, s'') \<longleftrightarrow>
     (\<exists>x. f s = Some (Inl x, s'') \<and> r = Inl x) \<or> (\<exists>a s'. f s = Some (Inr a, s') \<and> g a s' = Some (r, s''))"
  by (auto simp: and_do_def split: option.splits prod.splits sum.splits)

section \<open>Invariants\<close>

definition preserves :: "('s \<Rightarrow> bool) \<Rightarrow> ('s, 'a) action \<Rightarrow> bool" where
  "preserves P f \<longleftrightarrow> (\<forall>s r s'. P s \<longrightarrow> f s = Some (r, s') \<longrightarrow> P s')"

named_theorems keeps \<open>actions that preserve an invariant\<close>

lemma preservesD: "preserves P f \<Longrightarrow> f s = Some (r, s') \<Longrightarrow> P s \<Longrightarrow> P s'"
  by (simp add: preserves_def)

lemma preservesI: "(\<And>s r s'. P s \<Longrightarrow> f s = Some (r, s') \<Longrightarrow> P s') \<Longrightarrow> preserves P f"
  by (simp add: preserves_def)

lemma preserves_return [keeps]: "preserves P (return_value a)"
  by (simp add: preserves_def return_value_def)

lemma preserves_throw [keeps]: "preserves P (throw x)"
  by (simp add: preserves_def throw_def)

lemma preserves_read [keeps]: "preserves P (read_state f)"
  by (simp add: preserves_def read_state_def)

lemma preserves_and_do [keeps]: "preserves P f \<Longrightarrow> (\<And>a. preserves P (g a)) \<Longrightarrow> preserves P (and_do f g)"
  unfolding preserves_def and_do_some by blast

lemma preserves_seq [keeps]: "preserves P f \<Longrightarrow> preserves P g \<Longrightarrow> preserves P (seq f g)"
  unfolding seq_def by (rule preserves_and_do)

lemma preserves_change [keeps]: "(\<And>s. P s \<Longrightarrow> P (u s)) \<Longrightarrow> preserves P (change u)"
  by (simp add: preserves_def change_def)

lemma preserves_if [keeps]: "preserves P f \<Longrightarrow> preserves P g \<Longrightarrow> preserves P (if b then f else g)"
  by simp

lemma preserves_option [keeps]:
  "preserves P f \<Longrightarrow> (\<And>a. preserves P (g a)) \<Longrightarrow> preserves P (case r of None \<Rightarrow> f | Some a \<Rightarrow> g a)"
  by (simp split: option.split)

lemma preserves_sum [keeps]:
  "(\<And>a. preserves P (f a)) \<Longrightarrow> (\<And>a. preserves P (g a)) \<Longrightarrow> preserves P (case r of Inl a \<Rightarrow> f a | Inr a \<Rightarrow> g a)"
  by (simp split: sum.split)

lemma preserves_catch [keeps]: "preserves P f \<Longrightarrow> preserves P h \<Longrightarrow> preserves P (catch_exception f h)"
  by (rule preservesI)
    (auto simp: catch_exception_def dest: preservesD[of P f] preservesD[of P h]
       split: option.splits prod.splits sum.splits if_splits)

lemma preserves_on_part:
  "(\<And>s. P s \<Longrightarrow> P (put (snd (f (get s))) s)) \<Longrightarrow> preserves P (on_part get put f)"
  by (rule preservesI) (auto simp: on_part_def case_prod_beta)

lemma preserves_act_on_part:
  "(\<And>s. P s \<Longrightarrow> Q (get s)) \<Longrightarrow> (\<And>s p. P s \<Longrightarrow> Q p \<Longrightarrow> P (put p s)) \<Longrightarrow> preserves Q f \<Longrightarrow> preserves P (act_on_part get put f)"
  by (fastforce simp: preserves_def act_on_part_def)

end
