(* ===== verification/Hex.thy ===== *)
theory Hex
  imports Prelude
begin

text \<open>
  The text the GDB stub reads and writes. A C++ string is a list of characters. The functions are
  those of the C++ library the stub calls: \<open>std::isxdigit\<close>, \<open>std::from_chars\<close> in base 16, and the
  format specifiers \<open>{:02x}\<close> and \<open>{:08x}\<close>. The lemmas show that reading undoes writing.
\<close>

unbundle bit_operations_syntax

section \<open>Reading\<close>

definition is_xdigit :: "char \<Rightarrow> bool" where
  "is_xdigit c \<longleftrightarrow>
     (let n = (of_char c :: nat) in 48 \<le> n \<and> n \<le> 57 \<or> 65 \<le> n \<and> n \<le> 70 \<or> 97 \<le> n \<and> n \<le> 102)"

definition hex_val :: "char \<Rightarrow> nat" where
  "hex_val c =
     (let n = of_char c in if n \<le> 57 then n - 48 else if n \<le> 70 then n - 55 else n - 87)"

definition hex_number :: "string \<Rightarrow> nat" where
  "hex_number = foldl (\<lambda>n c. 16 * n + hex_val c) 0"

text \<open>
  \<open>std::from_chars\<close> into a \<open>u32\<close>: the rest after the longest prefix of digits, and the value it
  stores. It stores none when there is no digit or the number does not fit.
\<close>

definition from_chars_hex :: "string \<Rightarrow> string \<times> u32 option" where
  "from_chars_hex s =
     (let digits = takeWhile is_xdigit s
      in (dropWhile is_xdigit s,
          if digits \<noteq> [] \<and> hex_number digits < 2 ^ 32 then Some (of_nat (hex_number digits)) else None))"

section \<open>Writing\<close>

definition hex_char :: "nat \<Rightarrow> char" where
  "hex_char n = char_of (if n < 10 then n + 48 else n + 87)"

definition hex2 :: "u8 \<Rightarrow> string" where
  "hex2 b = [hex_char (unat b div 16), hex_char (unat b mod 16)]"

definition hex8 :: "u32 \<Rightarrow> string" where
  "hex8 w = concat (map hex2 (rev (bytes_of_u32 w)))"

text \<open>A decimal number.\<close>

fun dec_of_nat :: "nat \<Rightarrow> string" where
  "dec_of_nat n = (if n < 10 then [char_of (n + 48)] else dec_of_nat (n div 10) @ [char_of (n mod 10 + 48)])"

declare dec_of_nat.simps [simp del]

section \<open>Round trips\<close>

lemma hex_char_props:
  assumes "n < 16"
  shows "is_xdigit (hex_char n)" "hex_val (hex_char n) = n"
  using assms by (auto simp: is_xdigit_def hex_val_def hex_char_def Let_def)

lemma hex2_xdigits [simp]: "list_all is_xdigit (hex2 b)"
  using unat_u8_less[of b] by (simp add: hex2_def hex_char_props)

lemma length_hex2 [simp]: "length (hex2 b) = 2"
  by (simp add: hex2_def)

lemma hex_number_hex2 [simp]: "hex_number (hex2 b) = unat b"
  using unat_u8_less[of b] by (simp add: hex_number_def hex2_def hex_char_props)

lemma foldl_hex_shift:
  "foldl (\<lambda>n c. 16 * n + hex_val c) k s = k * 16 ^ length s + hex_number s"
proof (induction s arbitrary: k)
  case (Cons c s)
  have "hex_number (c # s) = hex_val c * 16 ^ length s + hex_number s"
    using Cons[of "hex_val c"] by (simp add: hex_number_def)
  then show ?case using Cons[of "16 * k + hex_val c"] by (simp add: algebra_simps)
qed (simp add: hex_number_def)

lemma hex_number_append: "hex_number (s @ t) = hex_number s * 16 ^ length t + hex_number t"
  using foldl_hex_shift[of "hex_number s" t] by (simp add: hex_number_def)

lemma hex_number_less: "list_all is_xdigit s \<Longrightarrow> hex_number s < 16 ^ length s"
proof (induction s rule: rev_induct)
  case (snoc c s)
  then have "hex_val c < 16" "hex_number s + 1 \<le> 16 ^ length s"
    by (auto simp: is_xdigit_def hex_val_def Let_def Suc_le_eq)
  moreover have "hex_number (s @ [c]) = 16 * hex_number s + hex_val c" by (simp add: hex_number_def)
  ultimately show ?case by simp
qed (simp add: hex_number_def)

lemma length_hex8 [simp]: "length (hex8 w) = 8"
  by (simp add: hex8_def bytes_of_u32_def)

lemma hex8_xdigits [simp]: "list_all is_xdigit (hex8 w)"
  by (simp add: hex8_def bytes_of_u32_def)

lemma base_256_digits:
  fixes n :: nat
  assumes "n < 4294967296"
  shows "((n div 16777216 * 256 + n div 65536 mod 256) * 256 + n div 256 mod 256) * 256 + n mod 256 = n"
proof -
  define a where "a = n div 256"
  define b where "b = a div 256"
  define c where "c = b div 256"
  have d: "n div 65536 = b" "n div 16777216 = c"
    by (simp_all add: a_def b_def c_def flip: div_mult2_eq)
  have "c < 256" using assms d(2) by linarith
  then show ?thesis
    using mult_div_mod_eq[of 256 n] mult_div_mod_eq[of 256 a] mult_div_mod_eq[of 256 b]
    unfolding d c_def[symmetric] b_def[symmetric] a_def[symmetric] by simp
qed

lemma hex_number_hex8 [simp]: "hex_number (hex8 w) = unat w"
proof -
  have "unat w div 16777216 < 256" using unat_u32_less[of w] by linarith
  then have top: "unat w div 16777216 mod 256 = unat w div 16777216" by (rule mod_less)
  show ?thesis using base_256_digits[OF unat_u32_less[of w]]
    by (simp add: top hex8_def bytes_of_u32_def hex_number_append unsigned_ucast_eq take_bit_eq_mod unat_drop_bit
        algebra_simps)
qed

lemma from_chars_digits:
  assumes "list_all is_xdigit s" "s \<noteq> []" "hex_number s < 2 ^ 32"
  shows "from_chars_hex s = ([], Some (of_nat (hex_number s)))"
proof -
  have tw: "takeWhile is_xdigit s = s" and dw: "dropWhile is_xdigit s = []"
    using assms(1) by (simp_all add: list_all_iff)
  show ?thesis unfolding from_chars_hex_def tw dw Let_def using assms(2,3) by simp
qed

end
