(* ===== verification/Packet.thy ===== *)
theory Packet
  imports Hex
begin

text \<open>
  \<open>lib/include/gdb-stub/packet.hpp\<close> and \<open>lib/gdb-stub/packet.cpp\<close>: the framing of the GDB remote
  serial protocol, \<open>$body#checksum\<close>. The decoder is a state machine over characters, which queues
  packets and errors; the encoder compresses runs. The mutex and the atomic flag serialise the two
  threads; the model has the operations as atomic steps. The second half gives the protocol's own
  framing and run expansion, and relates both directions to it.
\<close>

unbundle bit_operations_syntax

section \<open>Checksum and escapes\<close>

definition get_checksum :: "string \<Rightarrow> u8" where
  "get_checksum body = foldl (\<lambda>acc c. acc + of_char c) 0 body"

definition char_xor :: "char \<Rightarrow> nat \<Rightarrow> char" where
  "char_xor c k = char_of ((of_char c :: nat) XOR k)"

fun remove_escape :: "string \<Rightarrow> string option" where
  "remove_escape [] = Some []"
| "remove_escape (c # cs) =
     (if c = CHR ''}''
      then (case cs of
              [] \<Rightarrow> None
            | d # ds \<Rightarrow> if d = CHR ''}'' then None else map_option (Cons (char_xor d 0x20)) (remove_escape ds))
      else map_option (Cons c) (remove_escape cs))"

section \<open>The decoder\<close>

datatype decoder_error = Bad_checksum | Bad_packet | Buffer_overflow | Internal_error | No_new_packet

datatype decoder_state = Waiting_dollar | Receiving_body | Receiving_checksum1 | Receiving_checksum2

record packet_decoder =
  pd_in_buffer :: string
  pd_out_queue :: "(decoder_error + string) list"
  pd_out_queue_available :: bool
  pd_state :: decoder_state
  pd_checksum_buffer :: "char \<times> char"

definition max_buffer_size :: nat where
  "max_buffer_size = 1048576"

text \<open>The checksum buffer has no initialiser.\<close>

definition decoder_init :: "char \<times> char \<Rightarrow> packet_decoder" where
  "decoder_init buf =
     \<lparr>pd_in_buffer = [], pd_out_queue = [], pd_out_queue_available = False, pd_state = Waiting_dollar,
      pd_checksum_buffer = buf\<rparr>"

definition decode_in_buffer :: "packet_decoder \<Rightarrow> decoder_error + string" where
  "decode_in_buffer d =
     (let (c0, c1) = pd_checksum_buffer d
      in if \<not> (is_xdigit c0 \<and> is_xdigit c1) then Inl Bad_packet
         else let received_checksum = of_nat (hex_number [c0, c1]) :: u8;
                  computed_checksum = get_checksum (pd_in_buffer d)
              in if received_checksum \<noteq> computed_checksum then Inl Bad_checksum
                 else case remove_escape (pd_in_buffer d) of
                        None \<Rightarrow> Inl Bad_packet
                      | Some s \<Rightarrow> Inr s)"

definition push_result :: "decoder_error + string \<Rightarrow> packet_decoder \<Rightarrow> packet_decoder" where
  "push_result r d =
     d\<lparr>pd_out_queue := pd_out_queue d @ [r], pd_out_queue_available := True, pd_in_buffer := []\<rparr>"

definition is_control :: "char \<Rightarrow> bool" where
  "is_control c \<longleftrightarrow> c = CHR ''+'' \<or> c = CHR ''-'' \<or> c = CHR 0x03"

definition push_char :: "char \<Rightarrow> packet_decoder \<Rightarrow> packet_decoder" where
  "push_char c d =
     (case pd_state d of
        Waiting_dollar \<Rightarrow>
          if c = CHR ''$'' then d\<lparr>pd_state := Receiving_body\<rparr>
          else if is_control c then push_result (Inr [c]) d
          else d
      | Receiving_body \<Rightarrow>
          if c = CHR ''#'' then d\<lparr>pd_state := Receiving_checksum1\<rparr>
          else if c = CHR ''$'' then (push_result (Inl Bad_packet) d)\<lparr>pd_state := Receiving_body\<rparr>
          else if max_buffer_size \<le> length (pd_in_buffer d)
          then (push_result (Inl Buffer_overflow) d)\<lparr>pd_state := Waiting_dollar\<rparr>
          else d\<lparr>pd_in_buffer := pd_in_buffer d @ [c]\<rparr>
      | Receiving_checksum1 \<Rightarrow>
          if c = CHR ''$'' then (push_result (Inl Bad_packet) d)\<lparr>pd_state := Receiving_body\<rparr>
          else if is_control c
          then (push_result (Inr [c]) (push_result (Inl Bad_packet) d))\<lparr>pd_state := Waiting_dollar\<rparr>
          else d\<lparr>pd_checksum_buffer := (c, snd (pd_checksum_buffer d)), pd_state := Receiving_checksum2\<rparr>
      | Receiving_checksum2 \<Rightarrow>
          if c = CHR ''$'' then (push_result (Inl Bad_packet) d)\<lparr>pd_state := Receiving_body\<rparr>
          else if is_control c
          then (push_result (Inr [c]) (push_result (Inl Bad_packet) d))\<lparr>pd_state := Waiting_dollar\<rparr>
          else let d = d\<lparr>pd_checksum_buffer := (fst (pd_checksum_buffer d), c)\<rparr>
               in (push_result (decode_in_buffer d) d)\<lparr>pd_state := Waiting_dollar\<rparr>)"

definition decoder_push :: "string \<Rightarrow> packet_decoder \<Rightarrow> packet_decoder" where
  "decoder_push new_input d = fold push_char new_input d"

definition new_packet_available :: "packet_decoder \<Rightarrow> bool" where
  "new_packet_available d = pd_out_queue_available d"

definition pop_packet :: "packet_decoder \<Rightarrow> (decoder_error + string) \<times> packet_decoder" where
  "pop_packet d =
     (case pd_out_queue d of
        [] \<Rightarrow> (Inl No_new_packet, d)
      | packet # rest \<Rightarrow> (packet, d\<lparr>pd_out_queue := rest, pd_out_queue_available := rest \<noteq> []\<rparr>))"

section \<open>The encoder\<close>

record packet_encoder =
  pe_stream :: string
  pe_last_char :: char
  pe_repeat :: u8

definition encoder_init :: packet_encoder where
  "encoder_init = \<lparr>pe_stream = [], pe_last_char = CHR 0x00, pe_repeat = 0\<rparr>"

definition push_repeat :: "packet_encoder \<Rightarrow> packet_encoder" where
  "push_repeat e =
     (let last_char = pe_last_char e; repeat = pe_repeat e
      in if repeat = 0 \<or> last_char = CHR 0x00 then e
         else e\<lparr>pe_stream := pe_stream e @
                (if repeat \<le> 2 then replicate (unat repeat) last_char
                 else if repeat = 6 then [CHR ''*'', CHR 0x22, last_char]
                 else if repeat = 7 then [CHR ''*'', CHR 0x22, last_char, last_char]
                 else [CHR ''*'', char_of (unat repeat + 29)])\<rparr>)"

definition is_special :: "char \<Rightarrow> bool" where
  "is_special c \<longleftrightarrow> c = CHR ''*'' \<or> c = CHR ''$'' \<or> c = CHR ''}'' \<or> c = CHR ''#''"

definition encoder_push :: "char \<Rightarrow> packet_encoder \<Rightarrow> packet_encoder" where
  "encoder_push c e =
     (if c = CHR 0x00 then e
      else if c \<noteq> pe_last_char e \<or> 126 - 29 \<le> pe_repeat e
      then let e = (push_repeat e)\<lparr>pe_last_char := c, pe_repeat := 0\<rparr>
           in e\<lparr>pe_stream := pe_stream e @ (if is_special c then [CHR ''}'', char_xor c 0x20] else [c])\<rparr>
      else e\<lparr>pe_repeat := pe_repeat e + 1\<rparr>)"

definition internal_encode :: "string \<Rightarrow> packet_encoder \<Rightarrow> string" where
  "internal_encode str e =
     (let result_str = pe_stream (push_repeat (fold encoder_push str e))
      in CHR ''$'' # result_str @ CHR ''#'' # hex2 (get_checksum result_str))"

definition encode :: "string \<Rightarrow> string" where
  "encode str = internal_encode str encoder_init"

section \<open>The protocol's framing\<close>

definition escape :: "string \<Rightarrow> string" where
  "escape s = concat (map (\<lambda>c. if is_special c then [CHR ''}'', char_xor c 0x20] else [c]) s)"

definition frame_of :: "string \<Rightarrow> string" where
  "frame_of s = CHR ''$'' # escape s @ CHR ''#'' # hex2 (get_checksum (escape s))"

lemma escape_simps [simp]:
  "escape [] = []"
  "escape (c # s) = (if is_special c then [CHR ''}'', char_xor c 0x20] else [c]) @ escape s"
  "escape (s @ t) = escape s @ escape t"
  by (simp_all add: escape_def)

lemma char_xor_special:
  assumes "is_special c"
  shows "char_xor (char_xor c 0x20) 0x20 = c" "char_xor c 0x20 \<notin> {CHR ''}'', CHR ''#'', CHR ''$'', CHR ''*'', CHR 0x00}"
  using assms by (auto simp: is_special_def char_xor_def char_of_eq_iff)

lemma remove_escape_escape: "remove_escape (escape s) = Some s"
proof (induction s)
  case (Cons c s)
  then show ?case using char_xor_special[of c] by (cases "is_special c") (auto simp: is_special_def)
qed simp

lemma escape_chars: "c \<in> set (escape s) \<Longrightarrow> c \<noteq> CHR ''$'' \<and> c \<noteq> CHR ''#'' \<and> c \<noteq> CHR ''*''"
proof (induction s)
  case (Cons a s)
  then show ?case using char_xor_special[of a] by (cases "is_special a") (auto simp: is_special_def)
qed simp

lemma is_xdigit_plain: "is_xdigit c \<Longrightarrow> \<not> is_control c \<and> c \<noteq> CHR ''$''"
  by (auto simp: is_xdigit_def is_control_def)

section \<open>The decoder receives frames\<close>

definition decoder_inv :: "packet_decoder \<Rightarrow> bool" where
  "decoder_inv d \<longleftrightarrow>
     length (pd_in_buffer d) \<le> max_buffer_size \<and>
     (pd_out_queue_available d \<longleftrightarrow> pd_out_queue d \<noteq> []) \<and>
     (pd_state d = Waiting_dollar \<longrightarrow> pd_in_buffer d = [])"

lemma decoder_init_inv: "decoder_inv (decoder_init buf)"
  by (simp add: decoder_inv_def decoder_init_def)

lemma push_char_inv: "decoder_inv d \<Longrightarrow> decoder_inv (push_char c d)"
  by (auto simp: decoder_inv_def push_char_def push_result_def Let_def split: decoder_state.splits)

lemma decoder_push_inv: "decoder_inv d \<Longrightarrow> decoder_inv (decoder_push s d)"
  unfolding decoder_push_def by (induction s arbitrary: d) (simp_all add: push_char_inv)

lemma pop_packet_inv: "decoder_inv d \<Longrightarrow> decoder_inv (snd (pop_packet d))"
  by (simp add: decoder_inv_def pop_packet_def split: list.splits)

lemma push_char_dollar:
  assumes "decoder_inv d"
  shows "push_char (CHR ''$'') d =
    d\<lparr>pd_state := Receiving_body, pd_in_buffer := [],
      pd_out_queue := pd_out_queue d @ (if pd_state d = Waiting_dollar then [] else [Inl Bad_packet]),
      pd_out_queue_available := pd_out_queue_available d \<or> pd_state d \<noteq> Waiting_dollar\<rparr>"
  using assms by (cases "pd_state d") (auto simp: push_char_def push_result_def decoder_inv_def)

lemma push_body:
  assumes "pd_state d = Receiving_body" "length (pd_in_buffer d) + length xs \<le> max_buffer_size"
    and "CHR ''$'' \<notin> set xs" "CHR ''#'' \<notin> set xs"
  shows "fold push_char xs d = d\<lparr>pd_in_buffer := pd_in_buffer d @ xs\<rparr>"
  using assms
proof (induction xs arbitrary: d)
  case (Cons c xs)
  then have "push_char c d = d\<lparr>pd_in_buffer := pd_in_buffer d @ [c]\<rparr>"
    by (auto simp: push_char_def)
  with Cons.IH[of "d\<lparr>pd_in_buffer := pd_in_buffer d @ [c]\<rparr>"] Cons.prems show ?case by simp
qed simp

text \<open>What a body and a checksum decode to, by the protocol.\<close>

definition frame_result :: "string \<Rightarrow> char \<Rightarrow> char \<Rightarrow> decoder_error + string" where
  "frame_result body c0 c1 =
     (if \<not> (is_xdigit c0 \<and> is_xdigit c1) then Inl Bad_packet
      else if hex_number [c0, c1] \<noteq> unat (get_checksum body) then Inl Bad_checksum
      else case remove_escape body of None \<Rightarrow> Inl Bad_packet | Some s \<Rightarrow> Inr s)"

lemma hex_number_pair: "is_xdigit c0 \<Longrightarrow> is_xdigit c1 \<Longrightarrow> hex_number [c0, c1] < 256"
  by (auto simp: hex_number_def is_xdigit_def hex_val_def Let_def split: if_splits)

lemma decode_in_buffer_result:
  assumes "pd_checksum_buffer d = (c0, c1)"
  shows "decode_in_buffer d = frame_result (pd_in_buffer d) c0 c1"
proof (cases "is_xdigit c0 \<and> is_xdigit c1")
  case True
  then have "unat (of_nat (hex_number [c0, c1]) :: u8) = hex_number [c0, c1]"
    using hex_number_pair[of c0 c1] by (simp add: unsigned_of_nat take_bit_eq_mod)
  then have "(of_nat (hex_number [c0, c1]) = get_checksum (pd_in_buffer d)) \<longleftrightarrow>
      hex_number [c0, c1] = unat (get_checksum (pd_in_buffer d))"
    by (metis word_unat_eq_iff)
  then show ?thesis using assms True by (simp add: decode_in_buffer_def frame_result_def Let_def)
qed (use assms in \<open>auto simp: decode_in_buffer_def frame_result_def\<close>)

text \<open>
  From any state, a \<open>$\<close> starts a new frame: what was being received is dropped as a bad packet, and
  the frame that follows is decoded by itself.
\<close>

theorem decoder_frame:
  assumes "decoder_inv d" "length body \<le> max_buffer_size" "CHR ''$'' \<notin> set body" "CHR ''#'' \<notin> set body"
    and "\<not> is_control c0" "c0 \<noteq> CHR ''$''" "\<not> is_control c1" "c1 \<noteq> CHR ''$''"
  defines "d' \<equiv> decoder_push (CHR ''$'' # body @ [CHR ''#'', c0, c1]) d"
  shows "pd_out_queue d' = pd_out_queue d @ (if pd_state d = Waiting_dollar then [] else [Inl Bad_packet])
      @ [frame_result body c0 c1]"
    and "pd_state d' = Waiting_dollar" "decoder_inv d'"
proof -
  let ?e = "push_char (CHR ''$'') d"
  have e: "pd_state ?e = Receiving_body" "pd_in_buffer ?e = []"
    "pd_out_queue ?e = pd_out_queue d @ (if pd_state d = Waiting_dollar then [] else [Inl Bad_packet])"
    using push_char_dollar[OF assms(1)] by simp_all
  have f: "fold push_char body ?e = ?e\<lparr>pd_in_buffer := body\<rparr>"
    using push_body[of ?e body] e assms(2-4) by simp
  define g where "g = ?e\<lparr>pd_in_buffer := body, pd_state := Receiving_checksum2, pd_checksum_buffer := (c0, c1)\<rparr>"
  have "d' = (push_result (decode_in_buffer g) g)\<lparr>pd_state := Waiting_dollar\<rparr>"
    unfolding d'_def decoder_push_def using e f assms(5-8)
    by (simp add: push_char_def[of "CHR ''#''"] push_char_def[of c0] push_char_def[of c1] g_def
        push_result_def Let_def)
  moreover have "decode_in_buffer g = frame_result body c0 c1"
    by (subst decode_in_buffer_result[of _ c0 c1]) (simp_all add: g_def)
  ultimately show "pd_out_queue d' = pd_out_queue d @ (if pd_state d = Waiting_dollar then [] else [Inl Bad_packet])
      @ [frame_result body c0 c1]" "pd_state d' = Waiting_dollar"
    using e by (simp_all add: push_result_def g_def)
  show "decoder_inv d'" unfolding d'_def by (rule decoder_push_inv[OF assms(1)])
qed

lemma frame_result_frame: "frame_result (escape s) (hex_char (unat b div 16)) (hex_char (unat b mod 16)) =
    (if b = get_checksum (escape s) then Inr s else Inl Bad_checksum)"
  using hex2_xdigits[of b] hex_number_hex2[of b]
  by (auto simp: frame_result_def hex2_def remove_escape_escape word_unat_eq_iff)

theorem decoder_resynchronises:
  assumes "decoder_inv d" "length (escape s) \<le> max_buffer_size"
  shows "pd_out_queue (decoder_push (frame_of s) d) =
      pd_out_queue d @ (if pd_state d = Waiting_dollar then [] else [Inl Bad_packet]) @ [Inr s]"
    and "pd_state (decoder_push (frame_of s) d) = Waiting_dollar"
proof -
  let ?b = "get_checksum (escape s)"
  let ?c0 = "hex_char (unat ?b div 16)" and ?c1 = "hex_char (unat ?b mod 16)"
  have x: "is_xdigit ?c0" "is_xdigit ?c1" using hex2_xdigits[of ?b] by (simp_all add: hex2_def)
  have f: "frame_of s = CHR ''$'' # escape s @ [CHR ''#'', ?c0, ?c1]"
    by (simp add: frame_of_def hex2_def)
  have "CHR ''$'' \<notin> set (escape s)" "CHR ''#'' \<notin> set (escape s)"
    using escape_chars by blast+
  note F = decoder_frame[OF assms this, of ?c0 ?c1]
  show "pd_out_queue (decoder_push (frame_of s) d) =
      pd_out_queue d @ (if pd_state d = Waiting_dollar then [] else [Inl Bad_packet]) @ [Inr s]"
    "pd_state (decoder_push (frame_of s) d) = Waiting_dollar"
    unfolding f using F(1,2) is_xdigit_plain[OF x(1)] is_xdigit_plain[OF x(2)] frame_result_frame[of s ?b]
    by simp_all
qed

lemma decoder_push_append: "decoder_push (s @ t) d = decoder_push t (decoder_push s d)"
  by (simp add: decoder_push_def)

theorem decoder_receives_stream:
  assumes "decoder_inv d" "pd_state d = Waiting_dollar" "\<forall>p \<in> set ps. length (escape p) \<le> max_buffer_size"
  shows "pd_out_queue (decoder_push (concat (map frame_of ps)) d) = pd_out_queue d @ map Inr ps"
  using assms
proof (induction ps arbitrary: d)
  case (Cons p ps)
  then have "decoder_inv (decoder_push (frame_of p) d)" "length (escape p) \<le> max_buffer_size"
    by (simp_all add: decoder_push_inv)
  with Cons decoder_resynchronises[OF Cons.prems(1), of p] show ?case by (simp add: decoder_push_append)
qed (simp add: decoder_push_def)

section \<open>The encoder's packets are read back\<close>

text \<open>
  The receiving side of the protocol expands \<open>c*n\<close> to \<open>c\<close> and \<open>n - 29\<close> further copies of it, before
  it undoes the escapes; the first argument is the character before.
\<close>

fun expand_runs :: "char option \<Rightarrow> string \<Rightarrow> string option" where
  "expand_runs _ [] = Some []"
| "expand_runs p (c # cs) =
     (if c = CHR ''*''
      then (case (p, cs) of
              (Some q, n # ns) \<Rightarrow>
                if 32 \<le> (of_char n :: nat) \<and> (of_char n :: nat) \<le> 126
                then map_option (append (replicate (of_char n - 29) q)) (expand_runs p ns)
                else None
            | _ \<Rightarrow> None)
      else map_option (Cons c) (expand_runs (Some c) cs))"

definition rsp_receive :: "string \<Rightarrow> string option" where
  "rsp_receive s =
     (case s of
        [] \<Rightarrow> None
      | c # rest \<Rightarrow>
          let body = takeWhile (\<lambda>c. c \<noteq> CHR ''#'') rest
          in case dropWhile (\<lambda>c. c \<noteq> CHR ''#'') rest of
               [_, c0, c1] \<Rightarrow>
                 if c = CHR ''$'' \<and> CHR ''$'' \<notin> set body \<and> is_xdigit c0 \<and> is_xdigit c1
                    \<and> hex_number [c0, c1] = unat (get_checksum body)
                 then Option.bind (expand_runs None body) remove_escape else None
             | _ \<Rightarrow> None)"

definition last_of :: "char option \<Rightarrow> string \<Rightarrow> char option" where
  "last_of p zs = (if zs = [] then p else Some (last zs))"

lemma last_of_simps [simp]:
  "last_of p [] = p" "last_of p (z # zs) = last_of (Some z) zs"
  "last_of p (replicate n q @ zs) = last_of (if n = 0 then p else Some q) zs"
  by (auto simp: last_of_def)

lemma expand_append:
  "expand_runs p xs = Some zs \<Longrightarrow>
     expand_runs p (xs @ ys) = map_option (append zs) (expand_runs (last_of p zs) ys)"
proof (induction p xs arbitrary: zs rule: expand_runs.induct)
  case (2 p c cs)
  show ?case
  proof (cases "c = CHR ''*''")
    case True
    with "2.prems" obtain q n ns where q: "p = Some q" "cs = n # ns" "32 \<le> (of_char n :: nat)" "(of_char n :: nat) \<le> 126"
      by (auto split: option.splits list.splits if_splits)
    with True "2.prems" obtain zs' where z: "expand_runs p ns = Some zs'" "zs = replicate (of_char n - 29) q @ zs'"
      by auto
    from "2.IH"(1)[OF True] q z(1) have "expand_runs p (ns @ ys) = map_option (append zs') (expand_runs (last_of p zs') ys)"
      by auto
    then show ?thesis using True q z by (auto simp: option.map_comp comp_def)
  next
    case False
    with "2.prems" obtain zs' where "expand_runs (Some c) cs = Some zs'" "zs = c # zs'" by auto
    with False "2.IH"(2)[OF False] show ?thesis by (auto simp: option.map_comp comp_def)
  qed
next
  case (1 p)
  then show ?case by (cases "expand_runs p ys") auto
qed

lemma expand_plain: "CHR ''*'' \<notin> set xs \<Longrightarrow> expand_runs p xs = Some xs"
  by (induction xs arbitrary: p) auto

fun no_special_run :: "string \<Rightarrow> bool" where
  "no_special_run (a # b # s) \<longleftrightarrow> \<not> (a = b \<and> is_special a) \<and> no_special_run (b # s)"
| "no_special_run _ \<longleftrightarrow> True"

lemma no_special_run_snoc:
  "no_special_run (s @ [c]) \<longleftrightarrow> no_special_run s \<and> (s \<noteq> [] \<and> last s = c \<longrightarrow> \<not> is_special c)"
  by (induction s rule: no_special_run.induct) auto

text \<open>What \<open>push_repeat\<close> appends for a run of \<open>n\<close> further copies of \<open>c\<close>.\<close>

lemma replicate_few: "replicate 5 c = [c, c, c, c, c]" "replicate 6 c = [c, c, c, c, c, c]" "replicate 7 c = [c, c, c, c, c, c, c]"
  by (simp_all add: numeral_eq_Suc)

lemma push_repeat_expands:
  assumes "pe_repeat e \<le> 97" "expand_runs None (pe_stream e) = Some z"
    and "pe_repeat e \<noteq> 0 \<Longrightarrow> z \<noteq> [] \<and> last z = pe_last_char e \<and> \<not> is_special (pe_last_char e) \<and> pe_last_char e \<noteq> CHR 0x00"
  shows "expand_runs None (pe_stream (push_repeat e)) = Some (z @ replicate (unat (pe_repeat e)) (pe_last_char e))"
proof (cases "pe_repeat e = 0")
  case False
  let ?c = "pe_last_char e" and ?r = "pe_repeat e"
  have c: "last_of None z = Some ?c" "?c \<noteq> CHR ''*''" "?c \<noteq> CHR 0x00"
    using assms(3)[OF False] by (auto simp: last_of_def is_special_def)
  have n: "unat ?r \<noteq> 0" "unat ?r \<le> 97" using False assms(1) by (simp_all add: word_le_nat_alt unat_eq_0)
  have "expand_runs (Some ?c) (drop (length (pe_stream e)) (pe_stream (push_repeat e))) = Some (replicate (unat ?r) ?c)"
  proof -
    consider "?r \<le> 2" | "?r = 6" | "?r = 7" | "\<not> ?r \<le> 2" "?r \<noteq> 6" "?r \<noteq> 7" by blast
    then show ?thesis
    proof cases
      case 4
      then have "2 < unat ?r" by (simp add: word_le_nat_alt)
      with 4 n c False show ?thesis by (simp add: push_repeat_def Let_def)
    qed (use c False in \<open>simp_all add: push_repeat_def Let_def expand_plain replicate_few\<close>)
  qed
  moreover have "pe_stream (push_repeat e) = pe_stream e @ drop (length (pe_stream e)) (pe_stream (push_repeat e))"
    by (simp add: push_repeat_def Let_def)
  ultimately show ?thesis using expand_append[OF assms(2)] c(1) by (metis option.simps(9))
qed (use assms(2) in \<open>simp add: push_repeat_def\<close>)


lemma push_repeat_chars:
  assumes "pe_repeat e \<le> 97" "c \<in> set (pe_stream (push_repeat e))" "c = CHR ''$'' \<or> c = CHR ''#''"
  shows "c \<in> set (pe_stream e) \<or> pe_repeat e \<noteq> 0 \<and> is_special (pe_last_char e)"
proof (rule ccontr)
  assume n: "\<not> ?thesis"
  have "is_special c" using assms(3) by (auto simp: is_special_def)
  with n assms(2) have "pe_repeat e \<noteq> 0" "c \<noteq> pe_last_char e" "\<not> pe_repeat e \<le> 2"
    "pe_repeat e \<noteq> 6" "pe_repeat e \<noteq> 7" "c = CHR ''*'' \<or> c = char_of (unat (pe_repeat e) + 29)"
    using assms(3) by (auto simp: push_repeat_def Let_def split: if_splits)
  then have c: "char_of (unat (pe_repeat e) + 29) = c" using assms(3) by auto
  have "(of_char c :: nat) = unat (pe_repeat e) + 29"
    unfolding c[symmetric] using assms(1) by (simp add: word_le_nat_alt)
  then have "unat (pe_repeat e) = 6 \<or> unat (pe_repeat e) = 7" using assms(3) by auto
  then have "pe_repeat e = 6 \<or> pe_repeat e = 7" by (simp add: word_unat_eq_iff)
  then show False using \<open>pe_repeat e \<noteq> 6\<close> \<open>pe_repeat e \<noteq> 7\<close> by blast
qed

text \<open>The state of the encoder after a string: a prefix of it is out, a run of its last character waits.\<close>

definition encoder_inv :: "string \<Rightarrow> packet_encoder \<Rightarrow> bool" where
  "encoder_inv s e \<longleftrightarrow>
     CHR ''$'' \<notin> set (pe_stream e) \<and> CHR ''#'' \<notin> set (pe_stream e) \<and>
     (if s = [] then e = encoder_init
      else \<exists>t. s = t @ replicate (unat (pe_repeat e)) (pe_last_char e) \<and> t \<noteq> [] \<and> last t = pe_last_char e
        \<and> pe_repeat e \<le> 97 \<and> pe_last_char e \<noteq> CHR 0x00
        \<and> (pe_repeat e \<noteq> 0 \<longrightarrow> \<not> is_special (pe_last_char e))
        \<and> expand_runs None (pe_stream e) = Some (escape t))"

lemma escape_last: "t \<noteq> [] \<Longrightarrow> \<not> is_special (last t) \<Longrightarrow> escape t \<noteq> [] \<and> last (escape t) = last t"
  by (induction t rule: rev_induct) auto

lemma escape_replicate: "\<not> is_special c \<Longrightarrow> escape (replicate n c) = replicate n c"
  by (induction n) auto

lemma encoder_inv_flush:
  assumes "encoder_inv s e"
  shows "expand_runs None (pe_stream (push_repeat e)) = Some (escape s)"
    and "CHR ''$'' \<notin> set (pe_stream (push_repeat e))" "CHR ''#'' \<notin> set (pe_stream (push_repeat e))"
proof -
  show "expand_runs None (pe_stream (push_repeat e)) = Some (escape s)"
  proof (cases "s = []")
    case False
    then obtain t where t: "s = t @ replicate (unat (pe_repeat e)) (pe_last_char e)" "t \<noteq> []" "last t = pe_last_char e"
      "pe_repeat e \<le> 97" "pe_last_char e \<noteq> CHR 0x00" "pe_repeat e \<noteq> 0 \<longrightarrow> \<not> is_special (pe_last_char e)"
      "expand_runs None (pe_stream e) = Some (escape t)"
      using assms by (auto simp: encoder_inv_def)
    have "expand_runs None (pe_stream (push_repeat e)) =
        Some (escape t @ replicate (unat (pe_repeat e)) (pe_last_char e))"
      by (rule push_repeat_expands[OF t(4,7)]) (use t escape_last[of t] in auto)
    moreover have "escape s = escape t @ replicate (unat (pe_repeat e)) (pe_last_char e)"
      using t(1,6) by (cases "pe_repeat e = 0") (simp_all add: escape_replicate)
    ultimately show ?thesis by simp
  qed (use assms in \<open>simp add: encoder_inv_def encoder_init_def push_repeat_def\<close>)
  have "pe_repeat e \<le> 97" "pe_repeat e \<noteq> 0 \<longrightarrow> \<not> is_special (pe_last_char e)"
    using assms by (auto simp: encoder_inv_def encoder_init_def split: if_splits)
  then show "CHR ''$'' \<notin> set (pe_stream (push_repeat e))" "CHR ''#'' \<notin> set (pe_stream (push_repeat e))"
    using push_repeat_chars assms unfolding encoder_inv_def by blast+
qed

lemma encoder_inv_push:
  assumes "encoder_inv s e" "no_special_run (s @ [c])" "c \<noteq> CHR 0x00"
  shows "encoder_inv (s @ [c]) (encoder_push c e)"
proof (cases "c \<noteq> pe_last_char e \<or> 97 \<le> pe_repeat e")
  case True
  let ?x = "if is_special c then [CHR ''}'', char_xor c 0x20] else [c]"
  have e: "pe_stream (encoder_push c e) = pe_stream (push_repeat e) @ ?x" "pe_repeat (encoder_push c e) = 0"
    "pe_last_char (encoder_push c e) = c"
    using True assms(3) by (simp_all add: encoder_push_def Let_def)
  have "set ?x \<inter> {CHR ''*'', CHR ''$'', CHR ''#''} = {}"
    using char_xor_special[of c] by (auto simp: is_special_def)
  with expand_append[OF encoder_inv_flush(1)[OF assms(1)], of ?x]
  have "expand_runs None (pe_stream (encoder_push c e)) = Some (escape (s @ [c]))"
    unfolding e by (subst (asm) expand_plain) auto
  moreover have "CHR ''$'' \<notin> set (pe_stream (encoder_push c e))" "CHR ''#'' \<notin> set (pe_stream (encoder_push c e))"
    using encoder_inv_flush[OF assms(1)] \<open>set ?x \<inter> _ = {}\<close> unfolding e by auto
  ultimately show ?thesis using e assms(3) unfolding encoder_inv_def by auto
next
  case False
  then have e: "encoder_push c e = e\<lparr>pe_repeat := pe_repeat e + 1\<rparr>" "pe_last_char e = c" "pe_repeat e < 97"
    using assms(3) by (auto simp: encoder_push_def)
  have "s \<noteq> []" using assms(1) e(2) assms(3) by (auto simp: encoder_inv_def encoder_init_def)
  then obtain t where t: "s = t @ replicate (unat (pe_repeat e)) c" "t \<noteq> []" "last t = c"
    "expand_runs None (pe_stream e) = Some (escape t)"
    using assms(1) e(2) by (auto simp: encoder_inv_def)
  have "last s = c" using t by (cases "unat (pe_repeat e)") auto
  then have "\<not> is_special c" using assms(2) \<open>s \<noteq> []\<close> by (simp add: no_special_run_snoc)
  moreover have "unat (pe_repeat e + 1) = Suc (unat (pe_repeat e))"
    using e(3) by (simp add: unat_word_ariths word_less_nat_alt)
  moreover have "pe_repeat e + 1 \<le> 97" using e(3) by (simp add: word_le_nat_alt word_less_nat_alt calculation(2))
  ultimately show ?thesis
    using assms(1,3) t e(2) \<open>s \<noteq> []\<close> unfolding e(1) encoder_inv_def
    by (auto simp: replicate_append_same intro!: exI[of _ t])
qed


theorem encode_received:
  assumes "no_special_run s" "CHR 0x00 \<notin> set s"
  shows "rsp_receive (encode s) = Some s"
proof -
  have inv: "encoder_inv s (fold encoder_push s encoder_init)"
    using assms
  proof (induction s rule: rev_induct)
    case (snoc c s)
    then show ?case using encoder_inv_push[of s "fold encoder_push s encoder_init" c]
      by (auto simp: no_special_run_snoc)
  qed (simp add: encoder_inv_def encoder_init_def)
  let ?b = "pe_stream (push_repeat (fold encoder_push s encoder_init))"
  have "takeWhile (\<lambda>c. c \<noteq> CHR ''#'') (?b @ CHR ''#'' # hex2 k) = ?b" for k
    using encoder_inv_flush(3)[OF inv] by (subst takeWhile_append2) auto
  moreover have "dropWhile (\<lambda>c. c \<noteq> CHR ''#'') (?b @ CHR ''#'' # hex2 k) = CHR ''#'' # hex2 k" for k
    using encoder_inv_flush(3)[OF inv] by (subst dropWhile_append2) auto
  ultimately show ?thesis
    using encoder_inv_flush(1,2)[OF inv] hex2_xdigits[of "get_checksum ?b"] hex_number_hex2[of "get_checksum ?b"]
    by (simp add: encode_def internal_encode_def Let_def rsp_receive_def hex2_def remove_escape_escape)
qed

text \<open>Two special characters in a row are not escaped both times, and a NUL is dropped.\<close>

lemma encode_special_run: "encode ''##'' = [CHR ''$'', CHR ''}'', CHR 0x03, CHR ''#'', CHR ''#'', CHR ''a'', CHR ''3'']"
  by code_simp

lemma encode_drops_nul: "encode (s @ CHR 0x00 # t) = encode (s @ t)"
  by (simp add: encode_def internal_encode_def encoder_push_def)

lemma push_repeat_length:
  "length (pe_stream (push_repeat e)) \<le> length (pe_stream e) + unat (pe_repeat e)"
proof (cases "pe_repeat e \<le> 2")
  case False
  then have "3 \<le> unat (pe_repeat e)" by (simp add: word_le_nat_alt)
  then show ?thesis by (auto simp: push_repeat_def Let_def)
qed (simp add: push_repeat_def Let_def)

theorem encode_length: "length (encode s) \<le> 2 * length s + 4"
proof -
  have "length (pe_stream (fold encoder_push s encoder_init)) + unat (pe_repeat (fold encoder_push s encoder_init))
      \<le> 2 * length s"
  proof (induction s rule: rev_induct)
    case (snoc c s)
    let ?e = "fold encoder_push s encoder_init"
    have "length (pe_stream (encoder_push c ?e)) + unat (pe_repeat (encoder_push c ?e))
        \<le> length (pe_stream ?e) + unat (pe_repeat ?e) + 2"
    proof (cases "c \<noteq> pe_last_char ?e \<or> 97 \<le> pe_repeat ?e")
      case True
      then show ?thesis using push_repeat_length[of ?e] by (simp add: encoder_push_def Let_def)
    next
      case False
      then have "unat (pe_repeat ?e + 1) = Suc (unat (pe_repeat ?e))"
        by (simp add: unat_word_ariths word_le_nat_alt)
      with False show ?thesis by (simp add: encoder_push_def)
    qed
    with snoc show ?case by simp
  qed (simp add: encoder_init_def)
  then show ?thesis using push_repeat_length[of "fold encoder_push s encoder_init"]
    by (simp add: encode_def internal_encode_def Let_def)
qed

end
