(* ===== verification/Command.thy ===== *)
theory Command
  imports Hex
begin

text \<open>
  \<open>lib/include/gdb-stub/command.hpp\<close> and \<open>lib/gdb-stub/command.cpp\<close>: the commands of the remote
  protocol and their parser. A parser returns \<open>std::any\<close>, which is empty for a string that is no
  command: that is \<open>Unexpected ()\<close>. A \<open>std::map\<close> the parser builds is the list of its entries in
  insertion order, of which the first with a key counts. The second half prints commands in the
  syntax of the protocol and shows that the parser reads them back.
\<close>

unbundle bit_operations_syntax

section \<open>Commands\<close>

datatype feature_property = Feature_Value | Supported | Unsupported | Unknown_support

record host_feature_status =
  hf_property :: feature_property
  hf_value :: "string option"

datatype command =
    Acknowledge_packet bool
  | Interrupt_packet
  | Enable_persistant
  | Ask_halt_reason
  | Continue "u32 option"
  | Read_register
  | Write_register "(u16 \<times> u32) list"
  | Step_cycles "u32 option" "u32 option"
  | Stop
  | Read_memory u32 u32
  | Write_memory u32 "u8 list"
  | Read_single_register u32
  | Write_single_register u32 u32
  | Restart
  | Step_single_inst "u32 option"
  | Query_supported "(string \<times> host_feature_status) list"
  | Read_feature_xml string u32 u32
  | Read_memory_map_xml u32 u32
  | Add_breakpoint bool u32 u32 "u8 list option"
  | Add_watchpoint bool bool u32 u32
  | Remove_breakpoint bool u32 u32
  | Remove_watchpoint bool bool u32 u32

type_synonym 'a parsed = "('a, unit) expected"

text \<open>A statement \<open>if (!r) return fail\<close> followed by the use of the value.\<close>

definition and_then :: "'a parsed \<Rightarrow> ('a \<Rightarrow> 'b parsed) \<Rightarrow> 'b parsed" where
  "and_then r f = (case r of Value a \<Rightarrow> f a | Unexpected u \<Rightarrow> Unexpected u | Throw x \<Rightarrow> Throw x)"

section \<open>Helpers\<close>

text \<open>
  \<open>parse_hex\<close> tests how far the number reaches, not whether it fits: when it does not, the variable
  it returns was never assigned.
\<close>

definition parse_hex :: "string \<Rightarrow> u32 parsed" where
  "parse_hex str =
     (if str = [] then Unexpected ()
      else case from_chars_hex str of
             (end_ptr, address) \<Rightarrow>
               if end_ptr = [] then
                 (case address of
                    Some a \<Rightarrow> Value a
                  | None \<Rightarrow> Throw (Undefined_behaviour ''read of an uninitialised variable''))
               else Unexpected ())"

text \<open>The text before the first delimiter and the text from it on.\<close>

definition find_delim :: "char \<Rightarrow> string \<Rightarrow> string \<times> string" where
  "find_delim c str = (takeWhile (\<lambda>x. x \<noteq> c) str, dropWhile (\<lambda>x. x \<noteq> c) str)"

definition parse_u32_pair :: "string \<Rightarrow> (u32 \<times> u32) parsed" where
  "parse_u32_pair str =
     (case find_delim (CHR '','') str of
        (_, []) \<Rightarrow> Unexpected ()
      | (pre, _ # post) \<Rightarrow>
          (case (parse_hex pre, parse_hex post) of
             (Throw x, _) \<Rightarrow> Throw x
           | (_, Throw x) \<Rightarrow> Throw x
           | (Value first, Value second) \<Rightarrow> Value (first, second)
           | _ \<Rightarrow> Unexpected ()))"

definition split_once :: "string \<Rightarrow> char \<Rightarrow> string \<times> string" where
  "split_once str delim =
     (case find_delim delim str of
        (_, []) \<Rightarrow> ([], [])
      | (pre, _ # post) \<Rightarrow> (pre, post))"

text \<open>\<open>std::views::split\<close> by a character: an empty string has no part.\<close>

fun split_parts :: "char \<Rightarrow> string \<Rightarrow> string list" where
  "split_parts d [] = [[]]"
| "split_parts d (c # cs) =
     (if c = d then [] # split_parts d cs
      else case split_parts d cs of
             [] \<Rightarrow> [[c]]
           | p # ps \<Rightarrow> (c # p) # ps)"

definition split_view :: "char \<Rightarrow> string \<Rightarrow> string list" where
  "split_view d str = (if str = [] then [] else split_parts d str)"

text \<open>\<open>std::views::chunk\<close>.\<close>

fun chunks :: "nat \<Rightarrow> 'a list \<Rightarrow> 'a list list" where
  "chunks 0 xs = []"
| "chunks (Suc n) [] = []"
| "chunks (Suc n) (x # xs) = (x # take n xs) # chunks (Suc n) (drop n xs)"

text \<open>
  The values of a list of results. A vector holds the results of all before the first is tested; a
  lazy view ends at the first that is not a value.
\<close>

fun collect_vector :: "'a parsed list \<Rightarrow> 'a list parsed" where
  "collect_vector [] = Value []"
| "collect_vector (r # rs) =
     (case (r, collect_vector rs) of
        (Throw x, _) \<Rightarrow> Throw x
      | (_, Throw x) \<Rightarrow> Throw x
      | (Value a, Value as) \<Rightarrow> Value (a # as)
      | _ \<Rightarrow> Unexpected ())"

fun collect_view :: "'a parsed list \<Rightarrow> 'a list parsed" where
  "collect_view [] = Value []"
| "collect_view (r # rs) = and_then r (\<lambda>a. and_then (collect_view rs) (\<lambda>as. Value (a # as)))"

definition parse_bytes :: "string \<Rightarrow> u8 list parsed" where
  "parse_bytes data_str =
     collect_view (map (\<lambda>subrange. and_then (parse_hex subrange) (\<lambda>v. Value (ucast v))) (chunks 2 data_str))"

section \<open>One parser per command\<close>

definition parse_continue :: "string \<Rightarrow> command parsed" where
  "parse_continue params =
     (if params = [] then Value (Continue None)
      else and_then (parse_hex params) (\<lambda>address. Value (Continue (Some address))))"

definition parse_register_value :: "string \<Rightarrow> u32 option parsed" where
  "parse_register_value subrange =
     (if subrange = ''xxxxxxxx'' then Value None
      else and_then (parse_hex subrange) (\<lambda>v. Value (Some v)))"

definition parse_write_registers :: "string \<Rightarrow> command parsed" where
  "parse_write_registers params =
     (if params = [] \<or> length params mod 8 \<noteq> 0 then Unexpected ()
      else and_then (collect_view (map parse_register_value (chunks 8 params)))
        (\<lambda>vals. Value (Write_register
           (map (\<lambda>(i, v). (of_nat i, the v)) (filter (\<lambda>(i, v). v \<noteq> None) (enumerate 0 vals))))))"

definition parse_step_single_cycle :: "string \<Rightarrow> command parsed" where
  "parse_step_single_cycle params =
     and_then (collect_vector (map parse_hex (split_view (CHR '','') params)))
       (\<lambda>subparams. case subparams of
          [] \<Rightarrow> Value (Step_cycles None None)
        | [a] \<Rightarrow> Value (Step_cycles (Some a) None)
        | [a, n] \<Rightarrow> Value (Step_cycles (Some a) (Some n))
        | _ \<Rightarrow> Unexpected ())"

definition parse_read_memory :: "string \<Rightarrow> command parsed" where
  "parse_read_memory params =
     and_then (parse_u32_pair params) (\<lambda>(addr, len). Value (Read_memory addr len))"

definition parse_write_memory :: "string \<Rightarrow> command parsed" where
  "parse_write_memory params =
     (let (addr_length_str, data_str) = split_once params (CHR '':'')
      in if addr_length_str = [] \<or> data_str = [] then Unexpected ()
         else and_then (parse_u32_pair addr_length_str) (\<lambda>(addr, len).
           if length data_str \<noteq> unat (len * 2) then Unexpected ()
           else and_then (parse_bytes data_str) (\<lambda>data. Value (Write_memory addr data))))"

definition parse_read_single_register :: "string \<Rightarrow> command parsed" where
  "parse_read_single_register params =
     (if params = [] \<or> length params > 4 then Unexpected ()
      else and_then (parse_hex params) (\<lambda>address.
        if 65536 \<le> address then Unexpected () else Value (Read_single_register address)))"

definition parse_write_single_register :: "string \<Rightarrow> command parsed" where
  "parse_write_single_register params =
     (if params = [] then Unexpected ()
      else let (address_str, value_str) = split_once params (CHR ''='')
           in if address_str = [] \<or> value_str = [] \<or> length address_str > 4 \<or> length value_str \<noteq> 8
              then Unexpected ()
              else and_then (parse_hex address_str) (\<lambda>address.
                if 65536 \<le> address then Unexpected ()
                else and_then (parse_hex value_str) (\<lambda>v. Value (Write_single_register address v))))"

definition parse_step_single :: "string \<Rightarrow> command parsed" where
  "parse_step_single params =
     (if params = [] then Value (Step_single_inst None)
      else and_then (parse_hex params) (\<lambda>address. Value (Step_single_inst (Some address))))"

text \<open>
  A feature ends at the last of \<open>+-?=\<close>. In a slice without one the search ends before the slice, and
  the name would be the range from its start back to there, which is no range.
\<close>

definition is_feature_mark :: "char \<Rightarrow> bool" where
  "is_feature_mark c \<longleftrightarrow> c = CHR ''+'' \<or> c = CHR ''-'' \<or> c = CHR ''?'' \<or> c = CHR ''=''"

definition parse_feature :: "string \<Rightarrow> (string \<times> host_feature_status) parsed" where
  "parse_feature subrange =
     (case dropWhile (\<lambda>c. \<not> is_feature_mark c) (rev subrange) of
        [] \<Rightarrow> Throw (Undefined_behaviour ''string from an invalid range'')
      | sep # pre \<Rightarrow>
          let name = rev pre;
              post = rev (takeWhile (\<lambda>c. \<not> is_feature_mark c) (rev subrange))
          in if sep = CHR ''+'' then Value (name, \<lparr>hf_property = Supported, hf_value = None\<rparr>)
             else if sep = CHR ''-'' then Value (name, \<lparr>hf_property = Unsupported, hf_value = None\<rparr>)
             else if sep = CHR ''?'' then Value (name, \<lparr>hf_property = Unknown_support, hf_value = None\<rparr>)
             else Value (name, \<lparr>hf_property = Feature_Value, hf_value = Some post\<rparr>))"

definition parse_q_supported :: "string \<Rightarrow> command parsed" where
  "parse_q_supported params =
     and_then (collect_view (map parse_feature (split_view (CHR '';'') params)))
       (\<lambda>features. Value (Query_supported features))"

definition parse_qxfer_feature_read :: "string \<Rightarrow> command parsed" where
  "parse_qxfer_feature_read params =
     (let (annex_str, offset_length_str) = split_once params (CHR '':'')
      in and_then (parse_u32_pair offset_length_str) (\<lambda>(offset, len).
           Value (Read_feature_xml annex_str offset len)))"

definition parse_qxfer_memorymap_read :: "string \<Rightarrow> command parsed" where
  "parse_qxfer_memorymap_read params =
     (let (annex_str, offset_length_str) = split_once params (CHR '':'')
      in and_then (parse_u32_pair offset_length_str) (\<lambda>(offset, len).
           Value (Read_memory_map_xml offset len)))"

text \<open>\<open>substr\<close> throws when the position is past the end of the string.\<close>

definition substr :: "string \<Rightarrow> nat \<Rightarrow> string parsed" where
  "substr str pos = (if length str < pos then Throw Out_of_range_exception else Value (drop pos str))"

definition starts_with :: "string \<Rightarrow> string \<Rightarrow> bool" where
  "starts_with str pre \<longleftrightarrow> take (length pre) str = pre"

definition parse_qxfer :: "string \<Rightarrow> command parsed" where
  "parse_qxfer params =
     (if starts_with params ''features:read''
      then and_then (substr params (length ''features:read:'')) parse_qxfer_feature_read
      else if starts_with params ''memory-map:read''
      then and_then (substr params (length ''memory-map:read:'')) parse_qxfer_memorymap_read
      else Unexpected ())"

definition parse_q :: "string \<Rightarrow> command parsed" where
  "parse_q params =
     (let (sub_operand, sub_params) = split_once params (CHR '':'')
      in if sub_operand = [] \<or> sub_params = [] then Unexpected ()
         else if sub_operand = ''Supported'' then parse_q_supported sub_params
         else if sub_operand = ''Xfer'' then parse_qxfer sub_params
         else Unexpected ())"

definition parse_bytecode :: "string \<Rightarrow> u8 list parsed" where
  "parse_bytecode str_rep =
     (case str_rep of
        [] \<Rightarrow> Unexpected ()
      | c # rest \<Rightarrow>
          if c \<noteq> CHR ''X'' then Unexpected ()
          else let (length_str, data_str) = split_once rest (CHR '','')
               in if length_str = [] \<or> data_str = [] then Unexpected ()
                  else and_then (parse_hex length_str) (\<lambda>len.
                    if length data_str \<noteq> unat (len * 2) then Unexpected () else parse_bytes data_str))"

definition parse_z :: "string \<Rightarrow> command parsed" where
  "parse_z params =
     (if length params \<le> 2 then Unexpected ()
      else if params ! 1 \<noteq> CHR '','' then Unexpected ()
      else and_then (parse_u32_pair (drop 2 params)) (\<lambda>(addr, len).
        let k = params ! 0
        in if k = CHR ''0'' then Value (Remove_breakpoint False addr len)
           else if k = CHR ''1'' then Value (Remove_breakpoint True addr len)
           else if k = CHR ''2'' then Value (Remove_watchpoint True False addr len)
           else if k = CHR ''3'' then Value (Remove_watchpoint False True addr len)
           else if k = CHR ''4'' then Value (Remove_watchpoint True True addr len)
           else Unexpected ()))"

definition parse_Z :: "string \<Rightarrow> command parsed" where
  "parse_Z params =
     (if length params \<le> 2 then Unexpected ()
      else if params ! 1 \<noteq> CHR '','' then Unexpected ()
      else let k = params ! 0; subparams = drop 2 params
           in if k = CHR ''0'' \<or> k = CHR ''1''
              then (let subparam_list = split_view (CHR '';'') subparams
                    in if length subparam_list > 3 \<or> subparam_list = [] then Unexpected ()
                       else and_then (parse_u32_pair (subparam_list ! 0)) (\<lambda>(addr, len).
                         and_then (if length subparam_list \<ge> 2
                                   then and_then (parse_bytecode (subparam_list ! 1)) (\<lambda>b. Value (Some b))
                                   else Value None)
                           (\<lambda>bytecode. Value (Add_breakpoint (k = CHR ''1'') addr len bytecode))))
              else if k = CHR ''2'' \<or> k = CHR ''3'' \<or> k = CHR ''4''
              then and_then (parse_u32_pair subparams) (\<lambda>(addr, len).
                     Value (Add_watchpoint (k = CHR ''2'' \<or> k = CHR ''4'') (k = CHR ''3'' \<or> k = CHR ''4'') addr len))
              else Unexpected ())"

section \<open>The parser\<close>

definition param_char_command_parsers :: "(char \<times> (string \<Rightarrow> command parsed)) list" where
  "param_char_command_parsers =
     [(CHR ''c'', parse_continue), (CHR ''G'', parse_write_registers), (CHR ''i'', parse_step_single_cycle),
      (CHR ''m'', parse_read_memory), (CHR ''M'', parse_write_memory),
      (CHR ''p'', parse_read_single_register), (CHR ''P'', parse_write_single_register),
      (CHR ''s'', parse_step_single), (CHR ''q'', parse_q), (CHR ''z'', parse_z), (CHR ''Z'', parse_Z)]"

definition single_char_command :: "(char \<times> command) list" where
  "single_char_command =
     [(CHR ''+'', Acknowledge_packet True), (CHR ''-'', Acknowledge_packet False),
      (CHR 0x03, Interrupt_packet), (CHR ''!'', Enable_persistant), (CHR ''?'', Ask_halt_reason),
      (CHR ''g'', Read_register), (CHR ''k'', Stop)]"

definition parse :: "string \<Rightarrow> command parsed" where
  "parse cmd =
     (case cmd of
        [] \<Rightarrow> Unexpected ()
      | c # params \<Rightarrow>
          (case (if params = [] then map_of single_char_command c else None) of
             Some r \<Rightarrow> Value r
           | None \<Rightarrow>
               (case map_of param_char_command_parsers c of
                  Some parser \<Rightarrow> parser params
                | None \<Rightarrow> Unexpected ())))"

section \<open>The syntax of the protocol\<close>

definition hex_num :: "string \<Rightarrow> u32 \<Rightarrow> bool" where
  "hex_num s w \<longleftrightarrow> s \<noteq> [] \<and> list_all is_xdigit s \<and> hex_number s = unat w"

definition hex_bytes :: "u8 list \<Rightarrow> string" where
  "hex_bytes bs = concat (map hex2 bs)"

definition feature_text :: "string \<times> host_feature_status \<Rightarrow> string" where
  "feature_text f =
     fst f @ (case hf_property (snd f) of
                Supported \<Rightarrow> ''+'' | Unsupported \<Rightarrow> ''-'' | Unknown_support \<Rightarrow> ''?''
              | Feature_Value \<Rightarrow> CHR ''='' # the (hf_value (snd f)))"

text \<open>Names and values hold no separator; a value is present exactly after an equals sign, without a mark.\<close>

definition feature_ok :: "string \<times> host_feature_status \<Rightarrow> bool" where
  "feature_ok f \<longleftrightarrow>
     CHR '';'' \<notin> set (fst f) \<and>
     (hf_value (snd f) \<noteq> None \<longleftrightarrow> hf_property (snd f) = Feature_Value) \<and>
     (\<forall>v. hf_value (snd f) = Some v \<longrightarrow> CHR '';'' \<notin> set v \<and> \<not> list_ex is_feature_mark v)"

fun join :: "char \<Rightarrow> string list \<Rightarrow> string" where
  "join d [] = []"
| "join d [p] = p"
| "join d (p # ps) = p @ d # join d ps"

definition register_text :: "u32 option \<Rightarrow> string" where
  "register_text v = (case v of None \<Rightarrow> ''xxxxxxxx'' | Some w \<Rightarrow> hex8 w)"

definition register_entries :: "u32 option list \<Rightarrow> (u16 \<times> u32) list" where
  "register_entries vs =
     map (\<lambda>(i, v). (of_nat i, the v)) (filter (\<lambda>(i, v). v \<noteq> None) (enumerate 0 vs))"

inductive gdb_syntax :: "string \<Rightarrow> command \<Rightarrow> bool" where
  single: "(c, r) \<in> set single_char_command \<Longrightarrow> gdb_syntax [c] r"
| continue: "gdb_syntax ''c'' (Continue None)"
| continue_at: "hex_num s a \<Longrightarrow> gdb_syntax (''c'' @ s) (Continue (Some a))"
| step: "gdb_syntax ''s'' (Step_single_inst None)"
| step_at: "hex_num s a \<Longrightarrow> gdb_syntax (''s'' @ s) (Step_single_inst (Some a))"
| cycles: "gdb_syntax ''i'' (Step_cycles None None)"
| cycles_at: "hex_num s a \<Longrightarrow> gdb_syntax (''i'' @ s) (Step_cycles (Some a) None)"
| cycles_for: "hex_num s a \<Longrightarrow> hex_num t n \<Longrightarrow> gdb_syntax (''i'' @ s @ '','' @ t) (Step_cycles (Some a) (Some n))"
| read_memory: "hex_num s a \<Longrightarrow> hex_num t n \<Longrightarrow> gdb_syntax (''m'' @ s @ '','' @ t) (Read_memory a n)"
| write_memory:
    "hex_num s a \<Longrightarrow> hex_num t n \<Longrightarrow> length bs = unat n \<Longrightarrow> bs \<noteq> [] \<Longrightarrow> length bs < 2 ^ 31 \<Longrightarrow>
       gdb_syntax (''M'' @ s @ '','' @ t @ '':'' @ hex_bytes bs) (Write_memory a bs)"
| read_register: "hex_num s r \<Longrightarrow> length s \<le> 4 \<Longrightarrow> gdb_syntax (''p'' @ s) (Read_single_register r)"
| write_register: "hex_num s r \<Longrightarrow> length s \<le> 4 \<Longrightarrow> gdb_syntax (''P'' @ s @ ''='' @ hex8 v) (Write_single_register r v)"
| write_registers: "vs \<noteq> [] \<Longrightarrow> gdb_syntax (''G'' @ concat (map register_text vs)) (Write_register (register_entries vs))"
| supported: "fs \<noteq> [] \<Longrightarrow> list_all feature_ok fs \<Longrightarrow> gdb_syntax (''qSupported:'' @ join (CHR '';'') (map feature_text fs)) (Query_supported fs)"
| feature_xml:
    "CHR '':'' \<notin> set annex \<Longrightarrow> hex_num s a \<Longrightarrow> hex_num t n \<Longrightarrow>
       gdb_syntax (''qXfer:features:read:'' @ annex @ '':'' @ s @ '','' @ t) (Read_feature_xml annex a n)"
| memory_map_xml:
    "hex_num s a \<Longrightarrow> hex_num t n \<Longrightarrow> gdb_syntax (''qXfer:memory-map:read::'' @ s @ '','' @ t) (Read_memory_map_xml a n)"
| remove_breakpoint:
    "hex_num s a \<Longrightarrow> hex_num t n \<Longrightarrow> gdb_syntax (''z'' @ (if hw then ''1'' else ''0'') @ '','' @ s @ '','' @ t) (Remove_breakpoint hw a n)"
| remove_watchpoint:
    "hex_num s a \<Longrightarrow> hex_num t n \<Longrightarrow> w \<or> r \<Longrightarrow>
       gdb_syntax (''z'' @ (if w \<and> r then ''4'' else if w then ''2'' else ''3'') @ '','' @ s @ '','' @ t) (Remove_watchpoint w r a n)"
| add_breakpoint:
    "hex_num s a \<Longrightarrow> hex_num t n \<Longrightarrow> gdb_syntax (''Z'' @ (if hw then ''1'' else ''0'') @ '','' @ s @ '','' @ t) (Add_breakpoint hw a n None)"
| add_conditional_breakpoint:
    "hex_num s a \<Longrightarrow> hex_num t n \<Longrightarrow> hex_num u k \<Longrightarrow> length bs = unat k \<Longrightarrow> bs \<noteq> [] \<Longrightarrow> length bs < 2 ^ 31 \<Longrightarrow>
       gdb_syntax (''Z'' @ (if hw then ''1'' else ''0'') @ '','' @ s @ '','' @ t @ '';X'' @ u @ '','' @ hex_bytes bs)
         (Add_breakpoint hw a n (Some bs))"
| add_watchpoint:
    "hex_num s a \<Longrightarrow> hex_num t n \<Longrightarrow> w \<or> r \<Longrightarrow>
       gdb_syntax (''Z'' @ (if w \<and> r then ''4'' else if w then ''2'' else ''3'') @ '','' @ s @ '','' @ t) (Add_watchpoint w r a n)"

section \<open>The parser reads the syntax\<close>

lemma and_then_simps [simp]:
  "and_then (Value a) f = f a" "and_then (Unexpected u) f = Unexpected u" "and_then (Throw x) f = Throw x"
  by (simp_all add: and_then_def)

lemma parse_hex_num: "hex_num s w \<Longrightarrow> parse_hex s = Value w"
  using unat_u32_less[of w] by (simp add: hex_num_def parse_hex_def from_chars_digits)

lemma hex_num_hex2: "parse_hex (hex2 b) = Value (ucast b)"
proof -
  have "hex_num (hex2 b) (ucast b)"
    using unat_u8_less[of b] by (simp add: hex_num_def unat_ucast_up) (simp add: hex2_def)
  then show ?thesis by (rule parse_hex_num)
qed

lemma parse_hex_hex8: "parse_hex (hex8 w) = Value w"
  by (rule parse_hex_num) (simp add: hex_num_def, metis length_hex8 list.size(3) zero_neq_numeral)

lemma find_delim_simps:
  "d \<notin> set a \<Longrightarrow> find_delim d (a @ d # b) = (a, d # b)"
  "d \<notin> set a \<Longrightarrow> find_delim d a = (a, [])"
  by (induction a) (auto simp: find_delim_def)

lemma hex_num_chars:
  assumes "hex_num s w" "c \<in> {CHR '','', CHR '':'', CHR ''='', CHR '';''}"
  shows "c \<notin> set s"
  using assms by (auto simp: hex_num_def list_all_iff is_xdigit_def)

lemma parse_pair: "hex_num s a \<Longrightarrow> hex_num t b \<Longrightarrow> parse_u32_pair (s @ CHR '','' # t) = Value (a, b)"
  using hex_num_chars[of s a "CHR '',''"] by (simp add: parse_u32_pair_def find_delim_simps parse_hex_num)

lemma split_once_simps:
  "d \<notin> set a \<Longrightarrow> split_once (a @ d # b) d = (a, b)"
  by (simp add: split_once_def find_delim_simps)

lemma split_parts_plain: "d \<notin> set p \<Longrightarrow> split_parts d p = [p]"
  by (induction p) auto

lemma split_parts_append: "d \<notin> set p \<Longrightarrow> split_parts d (p @ d # s) = p # split_parts d s"
  by (induction p) auto

lemma split_parts_join:
  "list_all (\<lambda>p. d \<notin> set p) ps \<Longrightarrow> ps \<noteq> [] \<Longrightarrow> split_parts d (join d ps) = ps"
  by (induction d ps rule: join.induct) (simp_all add: split_parts_plain split_parts_append)

lemma chunks_concat:
  "list_all (\<lambda>p. length p = Suc n) ps \<Longrightarrow> chunks (Suc n) (concat ps) = ps"
proof (induction ps)
  case (Cons p ps)
  then obtain x xs where "p = x # xs" by (cases p) auto
  with Cons show ?case by simp
qed simp

lemma parse_bytes_hex: "parse_bytes (hex_bytes bs) = Value bs"
proof -
  have c: "chunks 2 (hex_bytes bs) = map hex2 bs"
    using chunks_concat[of 1 "map hex2 bs"] by (simp add: hex_bytes_def list_all_iff numeral_2_eq_2)
  have "collect_view (map ((\<lambda>s. and_then (parse_hex s) (\<lambda>v. Value (ucast v))) \<circ> hex2) bs) = Value (bs :: u8 list)"
    by (induction bs) (simp_all add: hex_num_hex2 ucast_down_ucast_id is_down)
  then show ?thesis by (simp add: parse_bytes_def c)
qed

lemma length_hex_bytes [simp]: "length (hex_bytes bs) = 2 * length bs"
  by (induction bs) (simp_all add: hex_bytes_def)

lemma parse_simps:
  "parse (CHR ''c'' # s) = parse_continue s" "parse (CHR ''G'' # s) = parse_write_registers s"
  "parse (CHR ''i'' # s) = parse_step_single_cycle s" "parse (CHR ''m'' # s) = parse_read_memory s"
  "parse (CHR ''M'' # s) = parse_write_memory s" "parse (CHR ''p'' # s) = parse_read_single_register s"
  "parse (CHR ''P'' # s) = parse_write_single_register s" "parse (CHR ''s'' # s) = parse_step_single s"
  "parse (CHR ''q'' # s) = parse_q s" "parse (CHR ''z'' # s) = parse_z s" "parse (CHR ''Z'' # s) = parse_Z s"
  by (simp_all add: parse_def param_char_command_parsers_def single_char_command_def)

lemma hex_num_nonempty: "hex_num s a \<Longrightarrow> s \<noteq> []"
  by (simp add: hex_num_def)

lemma hex_num_short:
  assumes "hex_num s r" "length s \<le> 4"
  shows "\<not> 65536 \<le> r"
proof -
  have "hex_number s < 16 ^ length s" using assms(1) hex_number_less[of s] by (simp only: hex_num_def)
  also have "\<dots> \<le> 16 ^ 4" using assms(2) by (intro power_increasing) auto
  finally show ?thesis using assms(1) by (simp add: hex_num_def word_le_nat_alt)
qed

lemma twice_length:
  assumes "length bs = unat (n :: u32)" "length bs < 2 ^ 31"
  shows "unat (n * 2) = 2 * length bs"
  using assms by (simp add: unat_word_ariths)

lemma parse_sized_bytes:
  assumes "length bs = unat (n :: u32)" "length bs < 2 ^ 31"
  shows "length (hex_bytes bs) = unat (n * 2)"
  using twice_length[OF assms] by simp

lemma hex_bytes_empty [simp]: "hex_bytes bs = [] \<longleftrightarrow> bs = []"
  using length_hex_bytes[of bs] by (metis length_0_conv mult_is_0 zero_neq_numeral)

lemma hex_bytes_xdigits: "list_all is_xdigit (hex_bytes bs)"
  by (induction bs) (simp_all add: hex_bytes_def)

lemma rev_mark:
  assumes "\<not> list_ex is_feature_mark v" "is_feature_mark c"
  shows "dropWhile (\<lambda>c. \<not> is_feature_mark c) (rev (a @ c # v)) = c # rev a"
    "takeWhile (\<lambda>c. \<not> is_feature_mark c) (rev (a @ c # v)) = rev v"
  using assms by (auto simp: list_ex_iff dropWhile_append takeWhile_append)

lemma parse_feature_text:
  assumes "feature_ok f"
  shows "parse_feature (feature_text f) = Value f"
proof -
  obtain name p v where f: "f = (name, \<lparr>hf_property = p, hf_value = v\<rparr>)"
    by (metis prod.exhaust host_feature_status.surjective unit.exhaust)
  show ?thesis
  proof (cases p)
    case Feature_Value
    then obtain w where w: "v = Some w" using assms f by (auto simp: feature_ok_def)
    then have "\<not> list_ex is_feature_mark w" using assms f by (simp add: feature_ok_def)
    from rev_mark[OF this, of "CHR ''=''" name] show ?thesis
      using f Feature_Value w by (simp add: parse_feature_def feature_text_def is_feature_mark_def)
  qed (use assms f in \<open>auto simp: parse_feature_def feature_text_def is_feature_mark_def feature_ok_def\<close>)
qed

lemma collect_view_values: "(\<And>x. x \<in> set xs \<Longrightarrow> f (g x) = Value x) \<Longrightarrow> collect_view (map f (map g xs)) = Value xs"
  by (induction xs) auto

lemma parse_register_text: "parse_register_value (register_text v) = Value v"
proof (cases v)
  case (Some w)
  have "\<not> list_all is_xdigit ''xxxxxxxx''" by (simp add: is_xdigit_def)
  then have "hex8 w \<noteq> ''xxxxxxxx''" using hex8_xdigits[of w] by metis
  with Some show ?thesis by (simp add: register_text_def parse_register_value_def parse_hex_hex8)
qed (simp add: register_text_def parse_register_value_def)

lemma parse_registers_text:
  assumes "vs \<noteq> []"
  shows "parse_write_registers (concat (map register_text vs)) = Value (Write_register (register_entries vs))"
proof -
  have l: "length (register_text v) = 8" for v by (simp add: register_text_def split: option.split)
  then have c: "chunks 8 (concat (map register_text vs)) = map register_text vs"
    using chunks_concat[of 7 "map register_text vs"] by (simp add: list_all_iff)
  have "length (concat (map register_text vs)) = 8 * length vs"
    by (induction vs) (simp_all add: l)
  moreover have "concat (map register_text vs) \<noteq> []"
    using assms l calculation by (metis length_0_conv mult_is_0 zero_neq_numeral)
  ultimately show ?thesis
    using collect_view_values[of vs parse_register_value register_text] unfolding parse_write_registers_def c
    by (simp add: parse_register_text register_entries_def)
qed

lemma parse_supported_text:
  assumes "fs \<noteq> []" "list_all feature_ok fs"
  shows "parse_q_supported (join (CHR '';'') (map feature_text fs)) = Value (Query_supported fs)"
proof -
  have n: "feature_text f \<noteq> []" "CHR '';'' \<notin> set (feature_text f)" if "feature_ok f" for f
    using that by (auto simp: feature_text_def feature_ok_def split: feature_property.splits)
  have "list_all (\<lambda>p. CHR '';'' \<notin> set p) (map feature_text fs)" using assms(2) n by (auto simp: list_all_iff)
  then have s: "split_parts (CHR '';'') (join (CHR '';'') (map feature_text fs)) = map feature_text fs"
    using assms(1) by (simp add: split_parts_join)
  have "join (CHR '';'') (map feature_text fs) \<noteq> []"
    using assms n by (cases fs rule: list.exhaust; cases "tl fs") auto
  with s show ?thesis
    using assms(2) collect_view_values[of fs parse_feature feature_text]
    by (simp add: parse_q_supported_def split_view_def parse_feature_text list_all_iff)
qed


text \<open>Every command in the protocol's syntax is parsed to that command.\<close>

theorem parse_gdb_syntax: "gdb_syntax s r \<Longrightarrow> parse s = Value r"
proof (induction rule: gdb_syntax.induct)
  case (single c r)
  then show ?case by (auto simp: parse_def single_char_command_def)
next
  case (write_memory s a t n bs)
  then have "CHR '':'' \<notin> set (s @ '','' @ t)" using hex_num_chars by auto
  from split_once_simps[OF this, of "hex_bytes bs"] show ?case
    using write_memory parse_sized_bytes[of bs n] parse_pair[of s a t n]
    by (auto simp: parse_simps parse_write_memory_def parse_bytes_hex dest: hex_num_nonempty)
next
  case (read_register s r)
  then show ?case using hex_num_short[of s r] hex_num_nonempty
    by (auto simp: parse_simps parse_read_single_register_def parse_hex_num)
next
  case (write_register s r v)
  have "hex8 v \<noteq> []" by (metis length_hex8 list.size(3) zero_neq_numeral)
  have "CHR ''='' \<notin> set s" using write_register hex_num_chars by auto
  from split_once_simps[OF this, of "hex8 v"] show ?case
    using write_register hex_num_short[of s r] hex_num_nonempty[of s r] \<open>hex8 v \<noteq> []\<close>
    by (auto simp: parse_simps parse_write_single_register_def parse_hex_num parse_hex_hex8)
next
  case (cycles_at s a)
  then have "CHR '','' \<notin> set s" "s \<noteq> []" using hex_num_chars hex_num_nonempty by auto
  then show ?case using cycles_at
    by (simp add: parse_simps parse_step_single_cycle_def split_view_def split_parts_plain parse_hex_num)
next
  case (cycles_for s a t n)
  then have "CHR '','' \<notin> set s" "CHR '','' \<notin> set t" using hex_num_chars by auto
  then show ?case using cycles_for
    by (simp add: parse_simps parse_step_single_cycle_def split_view_def split_parts_plain split_parts_append
        parse_hex_num)
next
  case (supported fs)
  let ?j = "join (CHR '';'') (map feature_text fs)"
  have "?j \<noteq> []"
    using supported by (cases fs rule: list.exhaust; cases "tl fs")
      (auto simp: feature_text_def feature_ok_def split: feature_property.splits)
  moreover have "split_once (''Supported'' @ CHR '':'' # ?j) (CHR '':'') = (''Supported'', ?j)"
    by (rule split_once_simps) simp
  ultimately show ?case using parse_supported_text[OF supported]
    by (simp add: parse_simps parse_q_def)
next
  case (feature_xml annex s a t n)
  have "split_once (''Xfer'' @ CHR '':'' # ''features:read:'' @ annex @ CHR '':'' # s @ CHR '','' # t) (CHR '':'')
      = (''Xfer'', ''features:read:'' @ annex @ CHR '':'' # s @ CHR '','' # t)"
    by (rule split_once_simps) simp
  moreover have "split_once (annex @ CHR '':'' # s @ CHR '','' # t) (CHR '':'') = (annex, s @ CHR '','' # t)"
    using feature_xml by (intro split_once_simps) simp
  ultimately show ?case using parse_pair[OF feature_xml(2,3)]
    by (simp add: parse_simps parse_q_def parse_qxfer_def starts_with_def substr_def parse_qxfer_feature_read_def)
next
  case (memory_map_xml s a t n)
  have "split_once (''Xfer'' @ CHR '':'' # ''memory-map:read::'' @ s @ CHR '','' # t) (CHR '':'')
      = (''Xfer'', ''memory-map:read::'' @ s @ CHR '','' # t)"
    by (rule split_once_simps) simp
  moreover have "split_once ([] @ CHR '':'' # s @ CHR '','' # t) (CHR '':'') = ([], s @ CHR '','' # t)"
    by (rule split_once_simps) simp
  ultimately show ?case using parse_pair[OF memory_map_xml]
    by (simp add: parse_simps parse_q_def parse_qxfer_def starts_with_def substr_def parse_qxfer_memorymap_read_def)
next
  case (add_conditional_breakpoint s a t n u k bs hw)
  let ?x = "CHR ''X'' # u @ CHR '','' # hex_bytes bs"
  have "CHR '';'' \<notin> set (s @ CHR '','' # t)" using add_conditional_breakpoint hex_num_chars by auto
  moreover have "CHR '';'' \<notin> set ?x"
    using add_conditional_breakpoint hex_num_chars hex_bytes_xdigits[of bs] by (auto simp: list_all_iff is_xdigit_def)
  ultimately have p: "split_view (CHR '';'') ((s @ CHR '','' # t) @ CHR '';'' # ?x) = [s @ CHR '','' # t, ?x]"
    unfolding split_view_def by (subst split_parts_append) (simp_all add: split_parts_plain del: append_assoc)
  have "split_once (u @ CHR '','' # hex_bytes bs) (CHR '','') = (u, hex_bytes bs)"
    using add_conditional_breakpoint hex_num_chars by (intro split_once_simps) auto
  then have "parse_bytecode ?x = Value bs"
    using add_conditional_breakpoint parse_sized_bytes[of bs k]
    by (auto simp: parse_bytecode_def parse_hex_num parse_bytes_hex dest: hex_num_nonempty)
  with p show ?case using add_conditional_breakpoint parse_pair[of s a t n]
    by (auto simp: parse_simps parse_Z_def Let_def)
next
  case (add_breakpoint s a t n hw)
  then have "CHR '';'' \<notin> set (s @ CHR '','' # t)" using hex_num_chars by auto
  then have "split_view (CHR '';'') (s @ CHR '','' # t) = [s @ CHR '','' # t]"
    by (simp add: split_view_def split_parts_plain)
  then show ?case using add_breakpoint parse_pair[of s a t n]
    by (auto simp: parse_simps parse_Z_def Let_def dest: hex_num_nonempty)
qed (auto simp: parse_simps parse_continue_def parse_step_single_def parse_step_single_cycle_def split_view_def
    parse_read_memory_def parse_pair parse_hex_num parse_registers_text parse_z_def parse_Z_def Let_def
    split_parts_plain dest: hex_num_nonempty)


section \<open>Strings outside the syntax\<close>

text \<open>
  A number that does not fit in 32 bits reads an uninitialised variable; a feature request that ends
  before its colon makes \<open>substr\<close> throw; the length of the data is compared modulo \<open>2\<^sup>3\<^sup>2\<close>.
\<close>

lemma parse_oversized_number:
  assumes "list_all is_xdigit s" "2 ^ 32 \<le> hex_number s"
  shows "parse (''c'' @ s) = Throw (Undefined_behaviour ''read of an uninitialised variable'')"
proof -
  have tw: "takeWhile is_xdigit s = s" and dw: "dropWhile is_xdigit s = []"
    using assms(1) by (simp_all add: list_all_iff)
  have "s \<noteq> []" using assms(2) by (auto simp: hex_number_def)
  then show ?thesis using assms(2)
    by (simp add: parse_simps parse_continue_def parse_hex_def from_chars_hex_def tw dw)
qed

lemma parse_features_without_colon: "parse ''qXfer:features:read'' = Throw Out_of_range_exception"
  by code_simp

lemma parse_length_wraps:
  assumes "hex_num s a"
  shows "parse (''M'' @ s @ '',80000001:'' @ hex2 b) = Value (Write_memory a [b])"
proof -
  have n: "hex_num ''80000001'' 0x80000001" by (simp add: hex_num_def is_xdigit_def hex_number_def hex_val_def)
  have "CHR '':'' \<notin> set (s @ '',80000001'')" using hex_num_chars[OF assms, of "CHR '':''"] by simp
  from split_once_simps[OF this, of "hex2 b"] have "split_once (s @ '',80000001:'' @ hex2 b) (CHR '':'') = (s @ '',80000001'', hex2 b)"
    by simp
  moreover have "hex2 b \<noteq> []" by (simp add: hex2_def)
  ultimately show ?thesis using parse_pair[OF assms n] parse_bytes_hex[of "[b]"]
    by (simp add: parse_simps parse_write_memory_def hex_bytes_def)
qed

end
