(* ===== verification/Response.thy ===== *)
theory Response
  imports Command
begin

text \<open>
  \<open>lib/include/gdb-stub/response.hpp\<close> and \<open>lib/gdb-stub/response.cpp\<close>: the replies of the stub and
  their text. Each subclass of \<open>Response\<close> is a constructor with its members as arguments. The lemmas
  read the replies back with the stub's own parsers, which use the syntax of the host.
\<close>

unbundle bit_operations_syntax

section \<open>Replies\<close>

datatype stop_hit =
    No_hit
  | Watchpoint_hit u32 bool bool
  | Breakpoint_hit bool

datatype response =
    OK
  | Single_register_content "u32 option"
  | Register_content "u32 option list"
  | Raw_byte_stream "u8 list"
  | Unsupported_command
  | Error_code u8
  | Error_message string
  | Stop_reason u8 stop_hit
  | Qxfer_response bool "u8 list"
  | Qsupported_response

text \<open>The signals of POSIX and the constructors of \<open>Stop_reason\<close>.\<close>

definition SIGINT :: u8 where "SIGINT = 2"
definition SIGTRAP :: u8 where "SIGTRAP = 5"

definition stop_at_signal :: "u8 \<Rightarrow> response" where
  "stop_at_signal signal = Stop_reason signal No_hit"

definition stop_at_watchpoint :: "u32 \<Rightarrow> bool \<Rightarrow> bool \<Rightarrow> response" where
  "stop_at_watchpoint address is_write is_read = Stop_reason SIGTRAP (Watchpoint_hit address is_write is_read)"

definition stop_at_breakpoint :: "bool \<Rightarrow> response" where
  "stop_at_breakpoint is_hardware = Stop_reason SIGTRAP (Breakpoint_hit is_hardware)"

section \<open>Text\<close>

text \<open>The format specifier \<open>{:x}\<close>: no leading zeros.\<close>

fun hex_of_nat :: "nat \<Rightarrow> string" where
  "hex_of_nat n = (if n < 16 then [hex_char n] else hex_of_nat (n div 16) @ [hex_char (n mod 16)])"

declare hex_of_nat.simps [simp del]

definition byteswap :: "u32 \<Rightarrow> u32" where
  "byteswap w = (case bytes_of_u32 w of [b0, b1, b2, b3] \<Rightarrow> u32_of_bytes b3 b2 b1 b0 | _ \<Rightarrow> w)"

definition register_content_text :: "u32 option \<Rightarrow> string" where
  "register_content_text val = (case val of Some v \<Rightarrow> hex8 (byteswap v) | None \<Rightarrow> ''xxxxxxxx'')"

fun parse_hit_string :: "stop_hit \<Rightarrow> string" where
  "parse_hit_string No_hit = ''''"
| "parse_hit_string (Watchpoint_hit address is_write is_read) =
     (if \<not> is_read \<and> \<not> is_write then ''''
      else (if is_read \<and> is_write then ''awatch'' else if is_read then ''rwatch'' else ''watch'')
        @ '':'' @ hex_of_nat (unat address) @ '';'')"
| "parse_hit_string (Breakpoint_hit is_hardware) = (if is_hardware then ''hwbreak'' else ''swbreak'') @ '':;''"

definition text_of_bytes :: "u8 list \<Rightarrow> string" where
  "text_of_bytes bs = map (\<lambda>b. char_of (unat b)) bs"

text \<open>The contents of \<open>stub-feature.inc\<close>.\<close>

definition stub_features :: string where
  "stub_features =
     ''error-message+;'' @ ''PacketSize=65536;'' @ ''qXfer:features:read+;'' @ ''qXfer:memory-map:read+;''
     @ ''BreakpointCommands-;'' @ ''hwbreak+;'' @ ''swbreak-;'' @ ''QNonStop-;'' @ ''multiprocess-''"

primrec response_to_string :: "response \<Rightarrow> string" where
  "response_to_string OK = ''OK''"
| "response_to_string (Single_register_content val) = (case val of None \<Rightarrow> ''xxxxxxxx'' | Some v \<Rightarrow> hex8 v)"
| "response_to_string (Register_content reg_values) = concat (map register_content_text reg_values)"
| "response_to_string (Raw_byte_stream data) = (if data = [] then ''E00'' else concat (map hex2 data))"
| "response_to_string Unsupported_command = ''''"
| "response_to_string (Error_code code) = ''E'' @ hex2 code"
| "response_to_string (Error_message message) = ''E.'' @ message"
| "response_to_string (Stop_reason signal hit) = ''T'' @ hex2 signal @ parse_hit_string hit"
| "response_to_string (Qxfer_response completed data) = (if completed then ''l'' else ''m'') @ text_of_bytes data"
| "response_to_string Qsupported_response = stub_features"

section \<open>The replies read back\<close>

lemma byteswap_byteswap [simp]: "byteswap (byteswap w) = w"
proof -
  have "bytes_of_u32 (u32_of_bytes a b c d) = [a, b, c, d]" for a b c d
  proof -
    have "(16 + n) mod 8 = n" "(24 + n) mod 8 = n" if "n < 8" for n :: nat using that by presburger+
    then show ?thesis
      unfolding bytes_of_u32_def by (auto simp: bit_u32_of_bytes bit_simps intro!: bit_word_eqI)
  qed
  then show ?thesis by (simp add: byteswap_def bytes_of_u32_def[of w])
qed

lemma hex_of_nat_props: "list_all is_xdigit (hex_of_nat n) \<and> hex_of_nat n \<noteq> [] \<and> hex_number (hex_of_nat n) = n"
proof (induction n rule: less_induct)
  case (less n)
  show ?case
  proof (cases "n < 16")
    case True
    then show ?thesis by (simp add: hex_of_nat.simps[of n] hex_char_props hex_number_def)
  next
    case False
    then have IH: "list_all is_xdigit (hex_of_nat (n div 16)) \<and> hex_number (hex_of_nat (n div 16)) = n div 16"
      using less.IH[of "n div 16"] by simp
    have "hex_number [hex_char (n mod 16)] = n mod 16" by (simp add: hex_number_def hex_char_props)
    then have "hex_number (hex_of_nat (n div 16) @ [hex_char (n mod 16)]) = n"
      using IH by (simp add: hex_number_append)
    then show ?thesis using False IH by (simp add: hex_of_nat.simps[of n] hex_char_props)
  qed
qed

lemma hex_num_hex_of_nat: "hex_num (hex_of_nat (unat w)) w"
  using hex_of_nat_props[of "unat w"] by (simp add: hex_num_def)

text \<open>The reply to \<open>p\<close> is the text that \<open>P\<close> reads.\<close>

lemma single_register_reads_back:
  "parse_register_value (response_to_string (Single_register_content v)) = Value v"
  using parse_register_text[of v] by (simp add: register_text_def)

text \<open>The reply to \<open>g\<close>, sent back by \<open>G\<close>, has the bytes of every register in the opposite order.\<close>

lemma register_content_reads_back:
  assumes "vs \<noteq> []"
  shows "parse (''G'' @ response_to_string (Register_content vs)) =
    Value (Write_register (register_entries (map (map_option byteswap) vs)))"
proof -
  have "response_to_string (Register_content vs) = concat (map register_text (map (map_option byteswap) vs))"
    by (induction vs) (auto simp: register_content_text_def register_text_def split: option.splits)
  then show ?thesis
    using assms parse_gdb_syntax[OF gdb_syntax.write_registers[of "map (map_option byteswap) vs"]]
    by (simp only: list.map_disc_iff) simp
qed

lemma memory_content_reads_back:
  "data \<noteq> [] \<Longrightarrow> parse_bytes (response_to_string (Raw_byte_stream data)) = Value data"
  using parse_bytes_hex[of data] by (simp add: hex_bytes_def)

text \<open>A reply with memory is never taken for an error: it has an even number of digits.\<close>

lemma memory_content_even: "data \<noteq> [] \<Longrightarrow> even (length (response_to_string (Raw_byte_stream data)))"
  using length_hex_bytes[of data] by (simp add: hex_bytes_def)

end
