(* ===== verification/Network.thy ===== *)
theory Network
  imports Action Packet Response
begin

text \<open>
  \<open>lib/include/gdb-stub/network.hpp\<close> and \<open>lib/gdb-stub/network.cpp\<close>: the connection to the host. The
  sockets are a library; what their calls return is input of the model: the results of the reads are
  a list, those of accepting and writing functions of the number of calls before. A read beyond the
  list waits for ever. The text written is kept in order.
\<close>

section \<open>State\<close>

datatype net_error = Internal_fail | Connection_fault | Protocol_fail | Protocol_retry | Decode_fail

text \<open>
  \<open>Read_some s late\<close> is a read that returned the text \<open>s\<close>; when there was none, \<open>late\<close> says whether
  the time limit was over. \<open>Read_fault\<close> is a read that threw.
\<close>

datatype net_read = Read_some string bool | Read_fault

record network =
  nw_decoder :: packet_decoder
  nw_connected :: bool
  nw_reads :: "net_read list"
  nw_written :: "string list"
  nw_accepted :: nat
  nw_write_ok :: "nat \<Rightarrow> bool"
  nw_accept_ok :: "nat \<Rightarrow> bool"

definition max_retry_count :: nat where
  "max_retry_count = 5"

definition socket_fault :: exn where
  "socket_fault = Runtime_error ''asio''"

definition setup_socket :: "(network, unit) action" where
  "setup_socket n =
     (if nw_connected n then Some (Inr (), n)
      else let n = n\<lparr>nw_accepted := nw_accepted n + 1, nw_connected := True\<rparr>
           in Some (if nw_accept_ok n (nw_accepted n - 1) then Inr () else Inl socket_fault, n))"

definition socket_write :: "string \<Rightarrow> (network, unit) action" where
  "socket_write text n =
     Some (if nw_write_ok n (length (nw_written n)) then Inr () else Inl socket_fault,
           n\<lparr>nw_written := nw_written n @ [text]\<rparr>)"

definition net_close :: "network \<Rightarrow> network" where
  "net_close n = n\<lparr>nw_connected := False\<rparr>"

section \<open>Receiving a packet\<close>

fun await_packet :: "net_read list \<Rightarrow> packet_decoder \<Rightarrow> ((exn + (net_error + unit)) \<times> net_read list \<times> packet_decoder) option"
where
  "await_packet rs d =
     (if new_packet_available d then Some (Inr (Inr ()), rs, d)
      else case rs of
             [] \<Rightarrow> None
           | Read_fault # rs \<Rightarrow> Some (Inl socket_fault, rs, d)
           | Read_some s late # rs \<Rightarrow>
               if s \<noteq> [] then await_packet rs (decoder_push s d)
               else if late then Some (Inr (Inl Protocol_retry), rs, d)
               else await_packet rs d)"

declare await_packet.simps [simp del]

definition decoder_failure :: "decoder_error \<Rightarrow> net_error" where
  "decoder_failure err =
     (case err of
        Bad_checksum \<Rightarrow> Protocol_retry
      | Bad_packet \<Rightarrow> Protocol_retry
      | Buffer_overflow \<Rightarrow> Protocol_fail
      | _ \<Rightarrow> Internal_fail)"

definition get_packet_from_decoder :: "(network, net_error + string) action" where
  "get_packet_from_decoder n =
     (case await_packet (nw_reads n) (nw_decoder n) of
        None \<Rightarrow> None
      | Some (r, rs, d) \<Rightarrow>
          let n = n\<lparr>nw_reads := rs, nw_decoder := d\<rparr>
          in case r of
               Inl x \<Rightarrow> Some (Inl x, n)
             | Inr (Inl e) \<Rightarrow> Some (Inr (Inl e), n)
             | Inr (Inr _) \<Rightarrow>
                 (case pop_packet d of
                    (Inl err, d) \<Rightarrow> Some (Inr (Inl (decoder_failure err)), n\<lparr>nw_decoder := d\<rparr>)
                  | (Inr s, d) \<Rightarrow> Some (Inr (Inr s), n\<lparr>nw_decoder := d\<rparr>)))"

text \<open>\<open>command::parse\<close>: an exception of the parser propagates.\<close>

definition parse_command :: "string \<Rightarrow> (network, command option) action" where
  "parse_command s =
     (case parse s of
        Value c \<Rightarrow> return_value (Some c)
      | Unexpected _ \<Rightarrow> return_value None
      | Throw x \<Rightarrow> throw x)"

section \<open>Sending\<close>

primrec send_loop :: "nat \<Rightarrow> string \<Rightarrow> (network, net_error + unit) action" where
  "send_loop 0 data = return_value (Inl Protocol_fail)"
| "send_loop (Suc k) data =
     seq (socket_write data)
     (and_do get_packet_from_decoder (\<lambda>r. case r of
        Inl e \<Rightarrow> if e = Protocol_retry then send_loop k data else return_value (Inl e)
      | Inr s \<Rightarrow> and_do (parse_command s) (\<lambda>c. case c of
          Some (Acknowledge_packet success) \<Rightarrow> if success then return_value (Inr ()) else send_loop k data
        | _ \<Rightarrow> return_value (Inl Protocol_fail))))"

definition net_send :: "response \<Rightarrow> (network, net_error + unit) action" where
  "net_send response =
     catch_exception
       (seq setup_socket (send_loop max_retry_count (encode (response_to_string response))))
       (seq (change net_close) (return_value (Inl Connection_fault)))"

section \<open>Receiving\<close>

text \<open>A string literal as a buffer has its terminator.\<close>

definition buffer :: "string \<Rightarrow> string" where
  "buffer literal = literal @ [CHR 0x00]"

primrec receive_loop :: "nat \<Rightarrow> (network, net_error + command) action" where
  "receive_loop 0 = return_value (Inl Protocol_fail)"
| "receive_loop (Suc k) =
     and_do get_packet_from_decoder (\<lambda>r. case r of
        Inl e \<Rightarrow>
          if e = Protocol_retry then seq (socket_write (buffer ''-'')) (receive_loop k)
          else return_value (Inl e)
      | Inr s \<Rightarrow>
          seq (socket_write (buffer ''+''))
          (and_do (parse_command s) (\<lambda>c. case c of
             Some cmd \<Rightarrow> return_value (Inr cmd)
           | None \<Rightarrow> return_value (Inl Decode_fail))))"

definition net_receive :: "(network, net_error + command) action" where
  "net_receive =
     catch_exception
       (seq setup_socket (receive_loop max_retry_count))
       (seq (change net_close) (return_value (Inl Connection_fault)))"

section \<open>Invariants and bounds\<close>

definition net_inv :: "network \<Rightarrow> bool" where
  "net_inv n \<longleftrightarrow> decoder_inv (nw_decoder n)"

lemma await_packet_inv:
  "await_packet rs d = Some (r, rs', d') \<Longrightarrow> decoder_inv d \<Longrightarrow>
     decoder_inv d' \<and> (r = Inr (Inr ()) \<longrightarrow> pd_out_queue d' \<noteq> [])"
proof (induction rs d rule: await_packet.induct)
  case (1 rs d)
  show ?case
  proof (cases "new_packet_available d")
    case True
    then have "r = Inr (Inr ())" "d' = d" using 1(3) by (simp_all add: await_packet.simps)
    with True 1(4) show ?thesis by (simp add: new_packet_available_def decoder_inv_def)
  next
    case False
    then show ?thesis using 1 decoder_push_inv[OF 1(4)]
      by (auto simp: await_packet.simps[of rs d] split: list.splits net_read.splits if_splits)
  qed
qed

text \<open>A packet is taken only when there is one, so \<open>Internal_fail\<close> needs an error the decoder never queues.\<close>

lemma get_packet_keeps [keeps]: "preserves net_inv get_packet_from_decoder"
proof (rule preservesI)
  fix n r n'
  assume inv: "net_inv n" and g: "get_packet_from_decoder n = Some (r, n')"
  then obtain q rs d where a: "await_packet (nw_reads n) (nw_decoder n) = Some (q, rs, d)"
    by (auto simp: get_packet_from_decoder_def split: option.splits)
  then have "decoder_inv d" "decoder_inv (snd (pop_packet d))"
    using await_packet_inv[OF a] inv pop_packet_inv by (simp_all add: net_inv_def)
  with g a show "net_inv n'"
    by (auto simp: get_packet_from_decoder_def net_inv_def Let_def split: sum.splits prod.splits)
qed

lemma net_steps_keep [keeps]:
  "preserves net_inv setup_socket" "preserves net_inv (socket_write s)" "preserves net_inv (parse_command s)"
  "preserves net_inv (change net_close)"
  by (auto simp: preserves_def setup_socket_def socket_write_def parse_command_def net_inv_def Let_def
      return_value_def throw_def change_def net_close_def split: expected.splits if_splits)

lemma preserves_command [keeps]:
  "(\<And>b. preserves P (f b)) \<Longrightarrow> preserves P g \<Longrightarrow>
     preserves P (case c of Some (Acknowledge_packet b) \<Rightarrow> f b | _ \<Rightarrow> g)"
  by (simp split: option.split command.split)

lemma net_send_keeps [keeps]: "preserves net_inv (net_send r)"
proof -
  have "preserves net_inv (send_loop k data)" for k data
    by (induction k) (auto intro!: keeps)
  then show ?thesis unfolding net_send_def by (intro keeps) simp_all
qed

lemma net_receive_keeps [keeps]: "preserves net_inv net_receive"
proof -
  have "preserves net_inv (receive_loop k)" for k
    by (induction k) (auto intro!: keeps)
  then show ?thesis unfolding net_receive_def by (intro keeps) simp_all
qed

section \<open>The writes of a call\<close>

text \<open>\<open>appends W f\<close>: what \<open>f\<close> writes is one of the lists in \<open>W\<close>.\<close>

definition appends :: "string list set \<Rightarrow> (network, 'a) action \<Rightarrow> bool" where
  "appends W f \<longleftrightarrow> (\<forall>n r n'. f n = Some (r, n') \<longrightarrow> (\<exists>w \<in> W. nw_written n' = nw_written n @ w))"

named_theorems writes \<open>what an action writes\<close>

lemma appendsD: "appends W f \<Longrightarrow> f n = Some (r, n') \<Longrightarrow> \<exists>w \<in> W. nw_written n' = nw_written n @ w"
  unfolding appends_def by blast

lemma appends_and_do:
  assumes "appends V f" "\<And>a. appends W (g a)" "V \<subseteq> U" "\<And>v w. v \<in> V \<Longrightarrow> w \<in> W \<Longrightarrow> v @ w \<in> U"
  shows "appends U (and_do f g)"
  unfolding appends_def and_do_some
proof (intro allI impI, elim disjE exE conjE)
  fix n r n' x assume "f n = Some (Inl x, n')"
  from appendsD[OF assms(1) this] obtain v where "v \<in> V" "nw_written n' = nw_written n @ v" by blast
  then show "\<exists>w \<in> U. nw_written n' = nw_written n @ w" using assms(3) by blast
next
  fix n r n' a m assume "f n = Some (Inr a, m)" "g a m = Some (r, n')"
  from appendsD[OF assms(1) this(1)] appendsD[OF assms(2) this(2)]
  obtain v w where "v \<in> V" "w \<in> W" "nw_written n' = nw_written n @ v @ w" by force
  then show "\<exists>w \<in> U. nw_written n' = nw_written n @ w" using assms(4) by blast
qed

lemma appends_quiet [writes]:
  "appends {[]} get_packet_from_decoder" "appends {[]} setup_socket" "appends {[]} (parse_command s)"
  "appends {[]} (return_value a)" "appends {[]} (change net_close)" "appends {[s]} (socket_write s)"
  by (auto simp: appends_def get_packet_from_decoder_def setup_socket_def parse_command_def return_value_def
      throw_def change_def net_close_def socket_write_def Let_def
      split: option.splits sum.splits prod.splits expected.splits if_splits)

lemma appends_mono: "appends V f \<Longrightarrow> V \<subseteq> W \<Longrightarrow> appends W f"
  unfolding appends_def by blast

lemma appends_quiet_do: "appends {[]} f \<Longrightarrow> (\<And>a. appends W (g a)) \<Longrightarrow> [] \<in> W \<Longrightarrow> appends W (and_do f g)"
  by (rule appends_and_do[of "{[]}" f W]) auto

lemma appends_catch:
  assumes "appends W f"
  shows "appends W (catch_exception f (seq (change net_close) (return_value a)))"
  using assms unfolding appends_def catch_exception_def
  by (auto simp: return_value_def net_close_def split: option.splits sum.splits if_splits)

text \<open>A reply goes out at most five times.\<close>

lemma send_loop_writes: "appends {replicate j data |j. j \<le> k} (send_loop k data)"
proof (induction k)
  case (Suc k)
  let ?W = "{replicate j data |j. j \<le> k}"
  have e: "[] \<in> ?W" by force
  have "appends ?W (and_do get_packet_from_decoder (\<lambda>r. case r of
        Inl e \<Rightarrow> if e = Protocol_retry then send_loop k data else return_value (Inl e)
      | Inr s \<Rightarrow> and_do (parse_command s) (\<lambda>c. case c of
          Some (Acknowledge_packet success) \<Rightarrow> if success then return_value (Inr ()) else send_loop k data
        | _ \<Rightarrow> return_value (Inl Protocol_fail))))"
    using Suc e by (auto intro!: appends_quiet_do writes appends_mono[OF appends_quiet(4)] split: sum.split option.split command.split)
  then show ?case unfolding send_loop.simps seq_def
    by (rule appends_and_do[OF appends_quiet(6)]) (auto intro: exI[of _ 1] exI[of _ "Suc _"])
qed (auto intro!: appends_mono[OF appends_quiet(4)] exI[of _ 0])

lemma send_writes:
  assumes "net_send r n = Some (x, n')"
  shows "\<exists>j \<le> 5. nw_written n' = nw_written n @ replicate j (encode (response_to_string r))"
proof -
  let ?d = "encode (response_to_string r)"
  have "appends {replicate j ?d |j. j \<le> 5} (net_send r)"
    unfolding net_send_def seq_def[of setup_socket] max_retry_count_def
    by (intro appends_catch appends_quiet_do appends_quiet send_loop_writes) force
  with assms show ?thesis unfolding appends_def by blast
qed

text \<open>A call to receive answers at most five times: refusals, and one acceptance at the end.\<close>

definition replies :: "nat \<Rightarrow> string list set" where
  "replies k = {replicate j (buffer ''-'') @ w |j w. j + length w \<le> k \<and> w \<in> {[], [buffer ''+'']}}"

lemma replies_intros:
  "[] \<in> replies k" "[buffer ''+''] \<in> replies (Suc k)" "w \<in> replies k \<Longrightarrow> buffer ''-'' # w \<in> replies (Suc k)"
proof -
  have intro: "replicate j (buffer ''-'') @ w \<in> replies k" if "j + length w \<le> k" "w \<in> {[], [buffer ''+'']}" for j w k
    using that unfolding replies_def by blast
  show "[] \<in> replies k" using intro[of 0 "[]" k] by simp
  show "[buffer ''+''] \<in> replies (Suc k)" using intro[of 0 "[buffer ''+'']" "Suc k"] by simp
  assume "w \<in> replies k"
  then obtain j v where "w = replicate j (buffer ''-'') @ v" "j + length v \<le> k" "v \<in> {[], [buffer ''+'']}"
    unfolding replies_def by blast
  then show "buffer ''-'' # w \<in> replies (Suc k)" using intro[of "Suc j" v "Suc k"] by simp
qed

lemma receive_loop_writes: "appends (replies k) (receive_loop k)"
proof (induction k)
  case (Suc k)
  have nak: "appends (replies (Suc k)) (seq (socket_write (buffer ''-'')) (receive_loop k))"
    unfolding seq_def using Suc
    by (rule appends_and_do[OF appends_quiet(6)]) (use replies_intros in auto)
  have ack: "appends (replies (Suc k)) (seq (socket_write (buffer ''+''))
      (and_do (parse_command s) (\<lambda>c. case c of
         Some cmd \<Rightarrow> return_value (Inr cmd)
       | None \<Rightarrow> return_value (Inl Decode_fail))))" for s
    unfolding seq_def
  proof (rule appends_and_do[OF appends_quiet(6), of "{[]}"])
    show "appends {[]} (and_do (parse_command s) (\<lambda>c. case c of
         Some cmd \<Rightarrow> return_value (Inr cmd)
       | None \<Rightarrow> return_value (Inl Decode_fail)))"
      by (auto intro!: appends_quiet_do writes split: option.split)
  qed (use replies_intros in auto)
  show ?case unfolding receive_loop.simps
    using nak ack replies_intros(1)[of "Suc k"]
    by (intro appends_quiet_do writes) (auto intro!: appends_mono[OF appends_quiet(4)] split: sum.split)
qed (simp add: appends_mono[OF appends_quiet(4)] replies_intros)

lemma receive_writes:
  assumes "net_receive n = Some (x, n')"
  shows "\<exists>w \<in> replies 5. nw_written n' = nw_written n @ w"
proof -
  have "appends (replies 5) net_receive"
    unfolding net_receive_def seq_def[of setup_socket] max_retry_count_def
    by (intro appends_catch appends_quiet_do appends_quiet receive_loop_writes replies_intros)
  with assms show ?thesis unfolding appends_def by blast
qed

section \<open>A command arrives\<close>

text \<open>The reads that deliver a text in pieces.\<close>

definition arriving :: "string list \<Rightarrow> net_read list" where
  "arriving pieces = map (\<lambda>s. Read_some s False) pieces"

text \<open>The decoder queues nothing before the last character of a frame.\<close>

lemma frame_prefix_silent:
  assumes "decoder_inv d" "pd_state d = Waiting_dollar" "pd_out_queue d = []" "length (escape s) \<le> max_buffer_size"
    and "p @ q = frame_of s" "q \<noteq> []"
  shows "\<not> new_packet_available (decoder_push p d)"
proof (cases p)
  case Nil
  then show ?thesis using assms(1,3) by (simp add: decoder_push_def new_packet_available_def decoder_inv_def)
next
  case (Cons c p')
  let ?b = "escape s" and ?c = "hex2 (get_checksum (escape s))"
  let ?e = "push_char (CHR ''$'') d"
  have c: "c = CHR ''$''" and pq: "p' @ q = ?b @ CHR ''#'' # ?c" using assms(5) Cons by (auto simp: frame_of_def)
  have e: "pd_state ?e = Receiving_body" "pd_in_buffer ?e = []" "\<not> pd_out_queue_available ?e"
    using push_char_dollar[OF assms(1)] assms(1-3) by (simp_all add: decoder_inv_def)
  have nb: "CHR ''$'' \<notin> set ?b" "CHR ''#'' \<notin> set ?b" using escape_chars by blast+
  obtain h y where hy: "?c = [hex_char h, y]" by (simp add: hex2_def)
  consider (body) r where "?b = p' @ r" | (mark) "p' = ?b @ [CHR ''#'']" | (digit) "p' = ?b @ [CHR ''#'', hex_char h]"
  proof -
    from pq have "(\<exists>us. p' = ?b @ us \<and> us @ q = CHR ''#'' # ?c) \<or> (\<exists>us. p' @ us = ?b)"
      unfolding append_eq_append_conv2 by metis
    then show thesis
    proof (elim disjE exE conjE)
      fix us assume us: "p' = ?b @ us" "us @ q = CHR ''#'' # ?c"
      then show thesis using assms(6) hy that(1)[of "[]"] that(2,3)
        by (cases us; cases "tl us"; cases "tl (tl us)") (auto simp: Cons_eq_append_conv append_eq_Cons_conv)
    next
      fix us assume "p' @ us = ?b"
      then show thesis using that(1)[of us] by simp
    qed
  qed
  then show ?thesis
  proof cases
    case body
    then have "fold push_char p' ?e = ?e\<lparr>pd_in_buffer := p'\<rparr>"
      using push_body[of ?e p'] e nb assms(4) by simp
    then show ?thesis using e(3) by (simp add: Cons c decoder_push_def new_packet_available_def)
  next
    case mark
    have "fold push_char ?b ?e = ?e\<lparr>pd_in_buffer := ?b\<rparr>" using push_body[of ?e ?b] e nb assms(4) by simp
    then show ?thesis using e by (simp add: Cons c mark decoder_push_def new_packet_available_def push_char_def[of "CHR ''#''"])
  next
    case digit
    have x: "is_xdigit (hex_char h)" using hex2_xdigits[of "get_checksum ?b"] hy by simp
    have "fold push_char ?b ?e = ?e\<lparr>pd_in_buffer := ?b\<rparr>" using push_body[of ?e ?b] e nb assms(4) by simp
    then show ?thesis using e is_xdigit_plain[OF x]
      by (simp add: Cons c digit decoder_push_def new_packet_available_def push_char_def[of "CHR ''#''"] push_char_def[of "hex_char h"])
  qed
qed

lemma await_frame:
  assumes "decoder_inv d" "pd_state d = Waiting_dollar" "pd_out_queue d = []" "length (escape s) \<le> max_buffer_size"
    and "p @ concat pieces = frame_of s" "list_all (\<lambda>c. c \<noteq> []) pieces"
  shows "await_packet (arriving pieces @ rest) (decoder_push p d) =
    Some (Inr (Inr ()), rest, decoder_push (frame_of s) d)"
  using assms(5,6)
proof (induction pieces arbitrary: p)
  case Nil
  have "pd_out_queue (decoder_push (frame_of s) d) \<noteq> []"
    using decoder_resynchronises(1)[OF assms(1,4)] by simp
  then have "new_packet_available (decoder_push (frame_of s) d)"
    using decoder_push_inv[OF assms(1)] by (simp add: decoder_inv_def new_packet_available_def)
  with Nil show ?case by (simp add: arriving_def await_packet.simps)
next
  case (Cons c cs)
  then have "\<not> new_packet_available (decoder_push p d)"
    using frame_prefix_silent[OF assms(1-4), of p "concat (c # cs)"] by simp
  then show ?case using Cons.prems Cons.IH[of "p @ c"]
    by (simp add: arriving_def await_packet.simps decoder_push_append)
qed

definition idle :: "network \<Rightarrow> bool" where
  "idle n \<longleftrightarrow> nw_connected n \<and> decoder_inv (nw_decoder n) \<and> pd_state (nw_decoder n) = Waiting_dollar
     \<and> pd_out_queue (nw_decoder n) = []"

text \<open>
  A command that arrives in pieces, however the network cuts it, is received and confirmed by one
  reply, and the handler is ready for the next.
\<close>

lemma get_packet_frame:
  assumes "idle n" "length (escape s) \<le> max_buffer_size" "nw_reads n = arriving pieces @ rest"
    and "concat pieces = frame_of s" "list_all (\<lambda>c. c \<noteq> []) pieces"
  shows "\<exists>d. get_packet_from_decoder n = Some (Inr (Inr s), n\<lparr>nw_reads := rest, nw_decoder := d\<rparr>)
    \<and> idle (n\<lparr>nw_reads := rest, nw_decoder := d\<rparr>)"
proof -
  let ?d = "nw_decoder n"
  have i: "decoder_inv ?d" "pd_state ?d = Waiting_dollar" "pd_out_queue ?d = []" "nw_connected n"
    using assms(1) by (simp_all add: idle_def)
  have a: "await_packet (nw_reads n) ?d = Some (Inr (Inr ()), rest, decoder_push (frame_of s) ?d)"
    using await_frame[OF i(1-3) assms(2), of "[]" pieces rest] assms(3-5) by (simp add: decoder_push_def)
  let ?f = "decoder_push (frame_of s) ?d"
  have q: "pd_out_queue ?f = [Inr s]" "pd_state ?f = Waiting_dollar"
    using decoder_resynchronises[OF i(1) assms(2)] i(2,3) by simp_all
  obtain d where p: "pop_packet ?f = (Inr s, d)" "pd_out_queue d = []" "pd_state d = Waiting_dollar"
    using q by (simp add: pop_packet_def)
  have "decoder_inv d" using pop_packet_inv[OF decoder_push_inv[OF i(1)], of "frame_of s"] p(1) by simp
  then show ?thesis using p i(4) by (intro exI[of _ d]) (simp add: get_packet_from_decoder_def idle_def a Let_def)
qed

lemma receive_command:
  assumes "idle n" "length (escape s) \<le> max_buffer_size" "nw_reads n = arriving pieces @ rest"
    and "concat pieces = frame_of s" "list_all (\<lambda>c. c \<noteq> []) pieces"
    and "gdb_syntax s cmd" "nw_write_ok n (length (nw_written n))"
  shows "\<exists>d. net_receive n = Some (Inr (Inr cmd),
      n\<lparr>nw_reads := rest, nw_decoder := d, nw_written := nw_written n @ [buffer ''+'']\<rparr>)
    \<and> idle (n\<lparr>nw_reads := rest, nw_decoder := d\<rparr>)"
proof -
  obtain d where d: "get_packet_from_decoder n = Some (Inr (Inr s), n\<lparr>nw_reads := rest, nw_decoder := d\<rparr>)"
    "idle (n\<lparr>nw_reads := rest, nw_decoder := d\<rparr>)"
    using get_packet_frame[OF assms(1-5)] by blast
  have "setup_socket n = Some (Inr (), n)" using assms(1) by (simp add: setup_socket_def idle_def)
  then show ?thesis using d assms(7) parse_gdb_syntax[OF assms(6)]
    by (auto simp: net_receive_def catch_exception_def seq_def and_do_def max_retry_count_def numeral_eq_Suc
        socket_write_def parse_command_def return_value_def Let_def)
qed

section \<open>A reply is confirmed\<close>

lemma get_control:
  assumes "idle n" "nw_reads n = Read_some [c] late # rest" "is_control c"
  shows "\<exists>d. get_packet_from_decoder n = Some (Inr (Inr [c]), n\<lparr>nw_reads := rest, nw_decoder := d\<rparr>)
    \<and> idle (n\<lparr>nw_reads := rest, nw_decoder := d\<rparr>)"
proof -
  let ?d = "nw_decoder n"
  have i: "decoder_inv ?d" "pd_state ?d = Waiting_dollar" "pd_out_queue ?d = []" "nw_connected n"
    "\<not> pd_out_queue_available ?d" "pd_in_buffer ?d = []"
    using assms(1) by (auto simp: idle_def decoder_inv_def)
  have "c \<noteq> CHR ''$''" using assms(3) by (auto simp: is_control_def)
  then have f: "push_char c ?d = push_result (Inr [c]) ?d" using i(2) assms(3) by (simp add: push_char_def)
  have "await_packet (nw_reads n) ?d = Some (Inr (Inr ()), rest, push_result (Inr [c]) ?d)"
    using i(5) by (simp add: assms(2) await_packet.simps new_packet_available_def decoder_push_def f push_result_def)
  then show ?thesis using i
    by (auto simp: get_packet_from_decoder_def idle_def pop_packet_def push_result_def decoder_inv_def)
qed

lemma parse_acknowledge: "parse [CHR ''+''] = Value (Acknowledge_packet True)" "parse [CHR ''-''] = Value (Acknowledge_packet False)"
  by (simp_all add: parse_def single_char_command_def)

lemma send_loop_acknowledged:
  assumes "idle n" "nw_reads n = Read_some ''+'' late # rest" "nw_write_ok n (length (nw_written n))"
  shows "\<exists>d. send_loop (Suc k) data n = Some (Inr (Inr ()),
      n\<lparr>nw_reads := rest, nw_decoder := d, nw_written := nw_written n @ [data]\<rparr>)
    \<and> idle (n\<lparr>nw_reads := rest, nw_decoder := d\<rparr>)"
proof -
  let ?n = "n\<lparr>nw_written := nw_written n @ [data]\<rparr>"
  have "idle ?n" using assms(1) by (simp add: idle_def)
  from get_control[OF this, of "CHR ''+''" late rest] assms(2) obtain d where
    "get_packet_from_decoder ?n = Some (Inr (Inr ''+''), ?n\<lparr>nw_reads := rest, nw_decoder := d\<rparr>)"
    "idle (?n\<lparr>nw_reads := rest, nw_decoder := d\<rparr>)" by (auto simp: is_control_def)
  then show ?thesis using assms(3)
    by (intro exI[of _ d]) (simp add: seq_def and_do_def socket_write_def parse_command_def parse_acknowledge
        return_value_def idle_def)
qed

lemma send_acknowledged:
  assumes "idle n" "nw_reads n = Read_some ''+'' late # rest" "nw_write_ok n (length (nw_written n))"
  shows "\<exists>d. net_send r n = Some (Inr (Inr ()),
      n\<lparr>nw_reads := rest, nw_decoder := d, nw_written := nw_written n @ [encode (response_to_string r)]\<rparr>)
    \<and> idle (n\<lparr>nw_reads := rest, nw_decoder := d\<rparr>)"
proof -
  have "setup_socket n = Some (Inr (), n)" using assms(1) by (simp add: setup_socket_def idle_def)
  then show ?thesis using send_loop_acknowledged[OF assms, of 4 "encode (response_to_string r)"]
    by (auto simp: net_send_def catch_exception_def seq_def[of setup_socket] and_do_def[of setup_socket]
        max_retry_count_def numeral_eq_Suc simp del: send_loop.simps)
qed

section \<open>Sending ends\<close>

text \<open>The reads that end a wait for a packet by themselves: the time limit was over, or the socket failed.\<close>

fun ends_wait :: "net_read \<Rightarrow> bool" where
  "ends_wait Read_fault \<longleftrightarrow> True"
| "ends_wait (Read_some s late) \<longleftrightarrow> s = [] \<and> late"

definition ending_reads :: "net_read list \<Rightarrow> nat" where
  "ending_reads rs = length (filter ends_wait rs)"

lemma await_ends:
  assumes "0 < ending_reads rs"
  shows "\<exists>r rs' d'. await_packet rs d = Some (r, rs', d') \<and> ending_reads rs \<le> ending_reads rs' + 1"
  using assms
proof (induction rs arbitrary: d)
  case (Cons x rs)
  show ?case
  proof (cases "new_packet_available d \<or> ends_wait x")
    case True
    then show ?thesis
      by (subst await_packet.simps, cases x) (auto simp: ending_reads_def split: list.split)
  next
    case False
    then have "0 < ending_reads rs" using Cons.prems by (simp add: ending_reads_def)
    with Cons.IH False show ?thesis
      by (subst await_packet.simps, cases x) (auto simp: ending_reads_def)
  qed
qed (simp add: ending_reads_def)

lemma get_packet_ends:
  assumes "Suc k \<le> ending_reads (nw_reads n)"
  shows "\<exists>r n'. get_packet_from_decoder n = Some (r, n') \<and> k \<le> ending_reads (nw_reads n')"
  using await_ends[of "nw_reads n" "nw_decoder n"] assms
  by (auto simp: get_packet_from_decoder_def Let_def split: sum.split prod.split)

lemma send_loop_ends: "k \<le> ending_reads (nw_reads n) \<Longrightarrow> send_loop k data n \<noteq> None"
proof (induction k arbitrary: n)
  case (Suc k)
  let ?w = "n\<lparr>nw_written := nw_written n @ [data]\<rparr>"
  obtain r n' where g: "get_packet_from_decoder ?w = Some (r, n')" "k \<le> ending_reads (nw_reads n')"
    using get_packet_ends[of k ?w] Suc.prems by auto
  from g Suc.IH[OF g(2)] show ?case
    by (auto simp: seq_def and_do_def socket_write_def return_value_def parse_command_def throw_def
        split: sum.split expected.split option.split command.split)
qed (simp add: return_value_def)

lemma send_ends:
  assumes "5 \<le> ending_reads (nw_reads n)"
  shows "\<exists>x n'. net_send r n = Some (x, n')"
proof -
  let ?data = "encode (response_to_string r)"
  obtain q m where m: "setup_socket n = Some (q, m)" "nw_reads m = nw_reads n"
    by (cases "nw_connected n") (auto simp: setup_socket_def Let_def)
  have "send_loop 5 ?data m \<noteq> None" by (rule send_loop_ends) (simp add: m(2) assms)
  then have "seq setup_socket (send_loop max_retry_count ?data) n \<noteq> None"
    using m(1) by (cases q) (auto simp: seq_def and_do_def max_retry_count_def simp del: send_loop.simps)
  then show ?thesis
    by (auto simp: net_send_def catch_exception_def seq_def[of "change net_close"] and_do_def[of "change net_close"]
        change_def return_value_def split: sum.split)
qed

end
