(* ===== verification/Expression.thy ===== *)
theory Expression
  imports Prelude
begin

text \<open>
  \<open>lib/include/gdb-stub/expression.hpp\<close> and \<open>lib/gdb-stub/expression.cpp\<close>: the stack machine for the
  agent bytecode of conditional breakpoints. The functions that access memory and registers may have
  effects (a read of the UART takes a character), so they work on a state. \<open>expr_step\<close> is one turn of
  the loop; the loop need not end, so \<open>expr_run\<close> is a partial function. The second half compiles
  expressions to bytecode and shows that the machine evaluates them.
\<close>

unbundle bit_operations_syntax

section \<open>Bytecode\<close>

datatype bytecode =
    Float | Add_op | Sub_op | Mul_op | Div_signed | Div_unsigned | Rem_signed | Rem_unsigned
  | Lsh | Rsh_signed | Rsh_unsigned | Log_not | Bit_and | Bit_or | Bit_xor | Bit_not
  | Equal_op | Less_signed | Less_unsigned | Ext | Zero_ext | Ref8 | Ref16 | Ref32 | Ref64
  | Ref_float | Ref_double | Ref_long_double | L_to_d | D_to_l | Dup | Swap | Pop | Pick | Rot
  | If_goto | Goto | Const8 | Const16 | Const32 | Const64 | Reg | Getv | Setv
  | Trace | Trace_quick | Trace16 | Tracev | Tracenz | Printf | End_op

definition bytecode_table :: "(u8 \<times> bytecode) list" where
  "bytecode_table =
     [(0x01, Float), (0x02, Add_op), (0x03, Sub_op), (0x04, Mul_op), (0x05, Div_signed), (0x06, Div_unsigned),
      (0x07, Rem_signed), (0x08, Rem_unsigned), (0x09, Lsh), (0x0a, Rsh_signed), (0x0b, Rsh_unsigned),
      (0x0e, Log_not), (0x0f, Bit_and), (0x10, Bit_or), (0x11, Bit_xor), (0x12, Bit_not), (0x13, Equal_op),
      (0x14, Less_signed), (0x15, Less_unsigned), (0x16, Ext), (0x2a, Zero_ext), (0x17, Ref8), (0x18, Ref16),
      (0x19, Ref32), (0x1a, Ref64), (0x1b, Ref_float), (0x1c, Ref_double), (0x1d, Ref_long_double),
      (0x1e, L_to_d), (0x1f, D_to_l), (0x28, Dup), (0x2b, Swap), (0x29, Pop), (0x32, Pick), (0x33, Rot),
      (0x20, If_goto), (0x21, Goto), (0x22, Const8), (0x23, Const16), (0x24, Const32), (0x25, Const64),
      (0x26, Reg), (0x2c, Getv), (0x2d, Setv), (0x0c, Trace), (0x0d, Trace_quick), (0x30, Trace16),
      (0x2e, Tracev), (0x2f, Tracenz), (0x34, Printf), (0x27, End_op)]"

definition bytecode_of :: "u8 \<Rightarrow> bytecode option" where
  "bytecode_of = map_of bytecode_table"

datatype execute_error =
    Unsupported_bytecode | Bytecode_out_of_bound | Stack_out_of_bound | Division_by_zero
  | Memory_access_error | Register_access_error

record execute_result =
  er_top :: u32
  er_next_to_top :: "u32 option"

section \<open>Operators\<close>

text \<open>
  \<open>b\<close> is the top of the stack, \<open>a\<close> the element below. A division tests \<open>b\<close>, its dividend; a zero
  divisor \<open>a\<close> and the quotient that overflows have no meaning in C++.
\<close>

definition divide_with :: "(u32 \<Rightarrow> u32 \<Rightarrow> u32) \<Rightarrow> bool \<Rightarrow> u32 \<Rightarrow> u32 \<Rightarrow> (u32, execute_error) expected" where
  "divide_with f is_signed a b =
     (if b = 0 then Unexpected Division_by_zero
      else if a = 0 then Throw (Undefined_behaviour ''division by zero'')
      else if is_signed \<and> b = 0x80000000 \<and> a = 0xFFFFFFFF
      then Throw (Undefined_behaviour ''overflow of a signed division'')
      else Value (f b a))"

fun binary_op :: "bytecode \<Rightarrow> (u32 \<Rightarrow> u32 \<Rightarrow> (u32, execute_error) expected) option" where
  "binary_op Add_op = Some (\<lambda>a b. Value (a + b))"
| "binary_op Sub_op = Some (\<lambda>a b. Value (b - a))"
| "binary_op Mul_op = Some (\<lambda>a b. Value (a * b))"
| "binary_op Div_signed = Some (divide_with (\<lambda>x y. word_of_int (sint x sdiv sint y)) True)"
| "binary_op Div_unsigned = Some (divide_with (div) False)"
| "binary_op Rem_signed = Some (divide_with (\<lambda>x y. word_of_int (sint x smod sint y)) True)"
| "binary_op Rem_unsigned = Some (divide_with (mod) False)"
| "binary_op Lsh = Some (\<lambda>a b. Value (push_bit (unat (a AND 0x1F)) b))"
| "binary_op Rsh_signed = Some (\<lambda>a b. Value (signed_drop_bit (unat (a AND 0x1F)) b))"
| "binary_op Rsh_unsigned = Some (\<lambda>a b. Value (drop_bit (unat (a AND 0x1F)) b))"
| "binary_op Bit_and = Some (\<lambda>a b. Value (a AND b))"
| "binary_op Bit_or = Some (\<lambda>a b. Value (a OR b))"
| "binary_op Bit_xor = Some (\<lambda>a b. Value (a XOR b))"
| "binary_op Equal_op = Some (\<lambda>a b. Value (if a = b then 1 else 0))"
| "binary_op Less_signed = Some (\<lambda>a b. Value (if sint b < sint a then 1 else 0))"
| "binary_op Less_unsigned = Some (\<lambda>a b. Value (if b < a then 1 else 0))"
| "binary_op _ = None"

text \<open>The shift amounts are computed as \<open>int\<close>: negative ones and 32 and above have no meaning.\<close>

definition ext_op :: "u8 \<Rightarrow> u32 \<Rightarrow> (u32, execute_error) expected" where
  "ext_op n a =
     (if 0 < n \<and> n \<le> 32
      then Value (signed_drop_bit (32 - unat n) (push_bit (32 - unat n) a))
      else Throw (Undefined_behaviour ''shift amount''))"

definition zero_ext_op :: "u8 \<Rightarrow> u32 \<Rightarrow> (u32, execute_error) expected" where
  "zero_ext_op n a =
     (if n < 32 then Value (a AND (push_bit (unat n) 1 - 1))
      else Throw (Undefined_behaviour ''shift amount''))"

section \<open>One turn of the loop\<close>

text \<open>
  The functions the caller passes: they return nothing for an address or a number that does not
  exist, and may throw.
\<close>

type_synonym 's memory_access = "u32 \<Rightarrow> 's \<Rightarrow> (u8, unit) expected \<times> 's"
type_synonym 's register_access = "u32 \<Rightarrow> 's \<Rightarrow> (u32, unit) expected \<times> 's"

datatype flow = Go nat "u32 list" | Finish execute_result

text \<open>The list is the stack, its top first. \<open>GET_OP_AT_INDEX\<close> and the accesses to memory:\<close>

definition get_ops :: "u8 list \<Rightarrow> nat \<Rightarrow> nat \<Rightarrow> u8 list option" where
  "get_ops bytecode_sequence index n =
     (if index + n \<le> length bytecode_sequence then Some (take n (drop index bytecode_sequence)) else None)"

primrec read_memory_bytes :: "'s memory_access \<Rightarrow> u32 \<Rightarrow> nat \<Rightarrow> 's \<Rightarrow> (u8 list, unit) expected \<times> 's" where
  "read_memory_bytes access_memory addr 0 s = (Value [], s)"
| "read_memory_bytes access_memory addr (Suc n) s =
     (case access_memory addr s of
        (Value b, s) \<Rightarrow>
          (case read_memory_bytes access_memory (addr + 1) n s of
             (Value bs, s) \<Rightarrow> (Value (b # bs), s)
           | (Unexpected u, s) \<Rightarrow> (Unexpected u, s)
           | (Throw x, s) \<Rightarrow> (Throw x, s))
      | (Unexpected u, s) \<Rightarrow> (Unexpected u, s)
      | (Throw x, s) \<Rightarrow> (Throw x, s))"

definition value_of_bytes :: "u8 list \<Rightarrow> u32" where
  "value_of_bytes bs =
     (case bs of
        [b0] \<Rightarrow> ucast b0
      | [b0, b1] \<Rightarrow> ucast (u16_of_bytes b0 b1)
      | [b0, b1, b2, b3] \<Rightarrow> u32_of_bytes b0 b1 b2 b3
      | _ \<Rightarrow> 0)"

fun binary_step :: "(u32 \<Rightarrow> u32 \<Rightarrow> (u32, execute_error) expected) \<Rightarrow> nat \<Rightarrow> u32 list \<Rightarrow> (flow, execute_error) expected" where
  "binary_step f pc (b # a # stack) =
     (case f a b of Value v \<Rightarrow> Value (Go (pc + 1) (v # stack)) | Unexpected e \<Rightarrow> Unexpected e | Throw x \<Rightarrow> Throw x)"
| "binary_step f pc _ = Unexpected Stack_out_of_bound"

fun unary_step :: "(u32 \<Rightarrow> (u32, execute_error) expected) \<Rightarrow> nat \<Rightarrow> u32 list \<Rightarrow> (flow, execute_error) expected" where
  "unary_step f next (a # stack) =
     (case f a of Value v \<Rightarrow> Value (Go next (v # stack)) | Unexpected e \<Rightarrow> Unexpected e | Throw x \<Rightarrow> Throw x)"
| "unary_step f next [] = Unexpected Stack_out_of_bound"

fun ref_step ::
  "'s memory_access \<Rightarrow> nat \<Rightarrow> nat \<Rightarrow> u32 list \<Rightarrow> 's \<Rightarrow> (flow, execute_error) expected \<times> 's"
where
  "ref_step access_memory n pc (addr # stack) s =
     (case read_memory_bytes access_memory addr n s of
        (Value bs, s) \<Rightarrow> (Value (Go (pc + 1) (value_of_bytes bs # stack)), s)
      | (Unexpected _, s) \<Rightarrow> (Unexpected Memory_access_error, s)
      | (Throw x, s) \<Rightarrow> (Throw x, s))"
| "ref_step access_memory n pc [] s = (Unexpected Stack_out_of_bound, s)"

text \<open>An instruction that uses operand bytes, most significant first.\<close>

definition with_ops ::
  "u8 list \<Rightarrow> nat \<Rightarrow> nat \<Rightarrow> (u32 \<Rightarrow> (flow, execute_error) expected) \<Rightarrow> (flow, execute_error) expected"
where
  "with_ops bytecode_sequence pc n f =
     (case get_ops bytecode_sequence (pc + 1) n of
        None \<Rightarrow> Unexpected Bytecode_out_of_bound
      | Some ops \<Rightarrow> f (value_of_bytes (rev ops)))"

definition shuffle_step :: "bytecode \<Rightarrow> nat \<Rightarrow> u32 list \<Rightarrow> (flow, execute_error) expected" where
  "shuffle_step operation pc stack =
     (case (operation, stack) of
        (Dup, a # rest) \<Rightarrow> Value (Go (pc + 1) (a # a # rest))
      | (Swap, a # b # rest) \<Rightarrow> Value (Go (pc + 1) (b # a # rest))
      | (Pop, a # rest) \<Rightarrow> Value (Go (pc + 1) rest)
      | (Rot, c # b # a # rest) \<Rightarrow> Value (Go (pc + 1) (b # a # c # rest))
      | (End_op, [t]) \<Rightarrow> Value (Finish \<lparr>er_top = t, er_next_to_top = None\<rparr>)
      | (End_op, t # u # rest) \<Rightarrow> Value (Finish \<lparr>er_top = t, er_next_to_top = Some u\<rparr>)
      | _ \<Rightarrow> Unexpected Stack_out_of_bound)"

definition control_step :: "u8 list \<Rightarrow> bytecode \<Rightarrow> nat \<Rightarrow> u32 list \<Rightarrow> (flow, execute_error) expected" where
  "control_step bytecode_sequence operation pc stack =
     (case operation of
        Const8 \<Rightarrow> with_ops bytecode_sequence pc 1 (\<lambda>v. Value (Go (pc + 2) (v # stack)))
      | Const16 \<Rightarrow> with_ops bytecode_sequence pc 2 (\<lambda>v. Value (Go (pc + 3) (v # stack)))
      | Const32 \<Rightarrow> with_ops bytecode_sequence pc 4 (\<lambda>v. Value (Go (pc + 5) (v # stack)))
      | Goto \<Rightarrow> with_ops bytecode_sequence pc 2 (\<lambda>v. Value (Go (unat v) stack))
      | If_goto \<Rightarrow>
          (case stack of
             [] \<Rightarrow> Unexpected Stack_out_of_bound
           | a # rest \<Rightarrow>
               if a = 0 then Value (Go (pc + 3) rest)
               else with_ops bytecode_sequence pc 2 (\<lambda>v. Value (Go (unat v) rest)))
      | Pick \<Rightarrow>
          with_ops bytecode_sequence pc 1 (\<lambda>n.
            if length stack \<le> unat n then Unexpected Stack_out_of_bound
            else Value (Go (pc + 2) (stack ! unat n # stack)))
      | Ext \<Rightarrow> with_ops bytecode_sequence pc 1 (\<lambda>n. unary_step (ext_op (ucast n)) (pc + 2) stack)
      | Zero_ext \<Rightarrow> with_ops bytecode_sequence pc 1 (\<lambda>n. unary_step (zero_ext_op (ucast n)) (pc + 2) stack)
      | _ \<Rightarrow> Unexpected Unsupported_bytecode)"

definition expr_step ::
  "'s memory_access \<Rightarrow> 's register_access \<Rightarrow> u8 list \<Rightarrow>
     nat \<Rightarrow> u32 list \<Rightarrow> 's \<Rightarrow> (flow, execute_error) expected \<times> 's"
where
  "expr_step access_memory access_register bytecode_sequence pc stack s =
     (if length bytecode_sequence \<le> pc then (Unexpected Bytecode_out_of_bound, s)
      else case bytecode_of (bytecode_sequence ! pc) of
             None \<Rightarrow> (Unexpected Unsupported_bytecode, s)
           | Some operation \<Rightarrow>
               (case binary_op operation of
                  Some f \<Rightarrow> (binary_step f pc stack, s)
                | None \<Rightarrow>
                    if operation = Log_not
                    then (unary_step (\<lambda>a. Value (if a = 0 then 1 else 0)) (pc + 1) stack, s)
                    else if operation = Bit_not then (unary_step (\<lambda>a. Value (NOT a)) (pc + 1) stack, s)
                    else if operation = Ref8 then ref_step access_memory 1 pc stack s
                    else if operation = Ref16 then ref_step access_memory 2 pc stack s
                    else if operation = Ref32 then ref_step access_memory 4 pc stack s
                    else if operation = Reg
                    then (case get_ops bytecode_sequence (pc + 1) 2 of
                            None \<Rightarrow> (Unexpected Bytecode_out_of_bound, s)
                          | Some ops \<Rightarrow>
                              (case access_register (value_of_bytes (rev ops)) s of
                                 (Value v, s) \<Rightarrow> (Value (Go (pc + 3) (v # stack)), s)
                               | (Unexpected _, s) \<Rightarrow> (Unexpected Register_access_error, s)
                               | (Throw x, s) \<Rightarrow> (Throw x, s)))
                    else if operation \<in> {Dup, Swap, Pop, Rot, End_op} then (shuffle_step operation pc stack, s)
                    else (control_step bytecode_sequence operation pc stack, s)))"

section \<open>The loop\<close>

partial_function (option) expr_run ::
  "'s memory_access \<Rightarrow> 's register_access \<Rightarrow> u8 list \<Rightarrow>
     nat \<Rightarrow> u32 list \<Rightarrow> 's \<Rightarrow> ((execute_result, execute_error) expected \<times> 's) option"
where
  "expr_run access_memory access_register bytecode_sequence pc stack s =
     (case expr_step access_memory access_register bytecode_sequence pc stack s of
        (Value (Go pc stack), s) \<Rightarrow> expr_run access_memory access_register bytecode_sequence pc stack s
      | (Value (Finish r), s) \<Rightarrow> Some (Value r, s)
      | (Unexpected e, s) \<Rightarrow> Some (Unexpected e, s)
      | (Throw x, s) \<Rightarrow> Some (Throw x, s))"

definition expr_execute ::
  "'s memory_access \<Rightarrow> 's register_access \<Rightarrow> u8 list \<Rightarrow> 's \<Rightarrow>
     ((execute_result, execute_error) expected \<times> 's) option"
where
  "expr_execute access_memory access_register bytecode_sequence s =
     expr_run access_memory access_register bytecode_sequence 0 [] s"

section \<open>Expressions and their bytecode\<close>

text \<open>
  A conditional jumps over the branch it does not take. \<open>compile base e\<close> is the bytecode of \<open>e\<close> placed
  at the offset \<open>base\<close>; jumps are absolute.
\<close>

datatype expr =
    Num u32
  | Register_value u16
  | Deref bytecode expr
  | Unary bytecode expr
  | Extend bytecode u8 expr
  | Binary bytecode expr expr
  | Conditional expr expr expr

definition code_of :: "bytecode \<Rightarrow> u8" where
  "code_of operation = fst (the (find (\<lambda>p. snd p = operation) bytecode_table))"

definition ref_size :: "bytecode \<Rightarrow> nat option" where
  "ref_size = map_of [(Ref8, 1), (Ref16, 2), (Ref32, 4)]"

definition unary_op :: "bytecode \<Rightarrow> (u32 \<Rightarrow> (u32, execute_error) expected) option" where
  "unary_op = map_of [(Log_not, \<lambda>a. Value (if a = 0 then 1 else 0)), (Bit_not, \<lambda>a. Value (NOT a))]"

definition extend_op :: "bytecode \<Rightarrow> (u8 \<Rightarrow> u32 \<Rightarrow> (u32, execute_error) expected) option" where
  "extend_op = map_of [(Ext, ext_op), (Zero_ext, zero_ext_op)]"

primrec expr_ok :: "expr \<Rightarrow> bool" where
  "expr_ok (Num v) \<longleftrightarrow> True"
| "expr_ok (Register_value r) \<longleftrightarrow> True"
| "expr_ok (Deref f e) \<longleftrightarrow> ref_size f \<noteq> None \<and> expr_ok e"
| "expr_ok (Unary f e) \<longleftrightarrow> unary_op f \<noteq> None \<and> expr_ok e"
| "expr_ok (Extend f n e) \<longleftrightarrow> extend_op f \<noteq> None \<and> expr_ok e"
| "expr_ok (Binary f x y) \<longleftrightarrow> binary_op f \<noteq> None \<and> expr_ok x \<and> expr_ok y"
| "expr_ok (Conditional c x y) \<longleftrightarrow> expr_ok c \<and> expr_ok x \<and> expr_ok y"

definition with_value ::
  "(u32, execute_error) expected \<times> 's \<Rightarrow> (u32 \<Rightarrow> 's \<Rightarrow> ('r, execute_error) expected \<times> 's)
     \<Rightarrow> ('r, execute_error) expected \<times> 's"
where
  "with_value r f =
     (case r of
        (Value v, s) \<Rightarrow> f v s
      | (Unexpected e, s) \<Rightarrow> (Unexpected e, s)
      | (Throw x, s) \<Rightarrow> (Throw x, s))"

primrec expr_eval ::
  "'s memory_access \<Rightarrow> 's register_access \<Rightarrow> expr \<Rightarrow> 's
     \<Rightarrow> (u32, execute_error) expected \<times> 's"
where
  "expr_eval mem reg (Num v) s = (Value v, s)"
| "expr_eval mem reg (Register_value r) s =
     (case reg (ucast r) s of
        (Value v, s) \<Rightarrow> (Value v, s)
      | (Unexpected _, s) \<Rightarrow> (Unexpected Register_access_error, s)
      | (Throw x, s) \<Rightarrow> (Throw x, s))"
| "expr_eval mem reg (Deref f e) s =
     with_value (expr_eval mem reg e s) (\<lambda>a s.
       case read_memory_bytes mem a (the (ref_size f)) s of
         (Value bs, s) \<Rightarrow> (Value (value_of_bytes bs), s)
       | (Unexpected _, s) \<Rightarrow> (Unexpected Memory_access_error, s)
       | (Throw x, s) \<Rightarrow> (Throw x, s))"
| "expr_eval mem reg (Unary f e) s = with_value (expr_eval mem reg e s) (\<lambda>a s. (the (unary_op f) a, s))"
| "expr_eval mem reg (Extend f n e) s = with_value (expr_eval mem reg e s) (\<lambda>a s. (the (extend_op f) n a, s))"
| "expr_eval mem reg (Binary f x y) s =
     with_value (expr_eval mem reg x s) (\<lambda>a s.
       with_value (expr_eval mem reg y s) (\<lambda>b s. (the (binary_op f) a b, s)))"
| "expr_eval mem reg (Conditional c x y) s =
     with_value (expr_eval mem reg c s) (\<lambda>a s. if a \<noteq> 0 then expr_eval mem reg x s else expr_eval mem reg y s)"

primrec expr_size :: "expr \<Rightarrow> nat" where
  "expr_size (Num v) = 5"
| "expr_size (Register_value r) = 3"
| "expr_size (Deref f e) = expr_size e + 1"
| "expr_size (Unary f e) = expr_size e + 1"
| "expr_size (Extend f n e) = expr_size e + 2"
| "expr_size (Binary f x y) = expr_size x + expr_size y + 1"
| "expr_size (Conditional c x y) = expr_size c + expr_size y + expr_size x + 6"

definition jump_to :: "bytecode \<Rightarrow> nat \<Rightarrow> u8 list" where
  "jump_to f target = [code_of f, ucast (drop_bit 8 (of_nat target :: u16)), ucast (of_nat target :: u16)]"

primrec compile :: "nat \<Rightarrow> expr \<Rightarrow> u8 list" where
  "compile base (Num v) = code_of Const32 # rev (bytes_of_u32 v)"
| "compile base (Register_value r) = [code_of Reg, ucast (drop_bit 8 r), ucast r]"
| "compile base (Deref f e) = compile base e @ [code_of f]"
| "compile base (Unary f e) = compile base e @ [code_of f]"
| "compile base (Extend f n e) = compile base e @ [code_of f, n]"
| "compile base (Binary f x y) = compile base x @ compile (base + expr_size x) y @ [code_of f]"
| "compile base (Conditional c x y) =
     (let no = base + expr_size c + 3; yes = no + expr_size y + 3
      in compile base c @ jump_to If_goto yes @ compile no y @ jump_to Goto (yes + expr_size x) @ compile yes x)"

lemma length_jump_to [simp]: "length (jump_to f target) = 3"
  by (simp add: jump_to_def)

lemma length_compile [simp]: "length (compile base e) = expr_size e"
  by (induction e arbitrary: base) (simp_all add: bytes_of_u32_def Let_def)

section \<open>Running compiled code\<close>

definition code_at :: "u8 list \<Rightarrow> nat \<Rightarrow> u8 list \<Rightarrow> bool" where
  "code_at code i xs \<longleftrightarrow> i + length xs \<le> length code \<and> take (length xs) (drop i code) = xs"

lemma code_at_append: "code_at code i (xs @ ys) \<longleftrightarrow> code_at code i xs \<and> code_at code (i + length xs) ys"
  by (auto simp: code_at_def take_add add.commute append_eq_append_conv)

lemma code_at_Cons: "code_at code i (x # xs) \<longleftrightarrow> code_at code i [x] \<and> code_at code (i + 1) xs"
  using code_at_append[of code i "[x]" xs] by simp

lemma code_at_ConsD:
  assumes "code_at code i (x # xs)"
  shows "code_at code i [x]" "code_at code (i + 1) xs"
  using assms code_at_Cons by blast+

lemma code_at_nth: "code_at code i [x] \<longleftrightarrow> i < length code \<and> code ! i = x"
  by (auto simp: code_at_def take_Suc_conv_app_nth hd_drop_conv_nth)

lemma get_ops_code: "code_at code i xs \<Longrightarrow> n = length xs \<Longrightarrow> get_ops code i n = Some xs"
  by (simp add: get_ops_def code_at_def)

lemma bytecode_of_code: "bytecode_of (code_of f) = Some f"
  by (cases f) (simp_all add: bytecode_of_def code_of_def bytecode_table_def)

lemma value_of_u16: "value_of_bytes [ucast w, ucast (drop_bit 8 w)] = ucast (w :: u16)"
proof -
  have "u16_of_bytes (ucast w) (ucast (drop_bit 8 w)) = w"
    by (rule bit_word_eqI) (auto simp: u16_of_bytes_def bit_simps)
  then show ?thesis by (simp add: value_of_bytes_def)
qed

lemma value_of_u32: "value_of_bytes (bytes_of_u32 w) = w"
  by (simp add: value_of_bytes_def bytes_of_u32_def)

lemma expr_step_at:
  assumes "code_at code pc [code_of f]"
  shows "binary_op f = Some g \<Longrightarrow> expr_step mem reg code pc st s = (binary_step g pc st, s)"
    "unary_op f = Some u \<Longrightarrow> expr_step mem reg code pc st s = (unary_step u (pc + 1) st, s)"
    "ref_size f = Some n \<Longrightarrow> expr_step mem reg code pc st s = ref_step mem n pc st s"
    "f \<in> {Const32, Goto, If_goto, Ext, Zero_ext} \<Longrightarrow> expr_step mem reg code pc st s = (control_step code f pc st, s)"
  using assms bytecode_of_code[of f]
  by (auto simp: code_at_nth expr_step_def unary_op_def ref_size_def split: if_splits option.splits)


lemma run_simps:
  "expr_step mem reg code pc st s = (Value (Go pc' st'), s') \<Longrightarrow>
     expr_run mem reg code pc st s = expr_run mem reg code pc' st' s'"
  "expr_step mem reg code pc st s = (Value (Finish r), s') \<Longrightarrow> expr_run mem reg code pc st s = Some (Value r, s')"
  "expr_step mem reg code pc st s = (Unexpected x, s') \<Longrightarrow> expr_run mem reg code pc st s = Some (Unexpected x, s')"
  "expr_step mem reg code pc st s = (Throw y, s') \<Longrightarrow> expr_run mem reg code pc st s = Some (Throw y, s')"
  by (subst expr_run.simps, simp)+

definition resume ::
  "(u32, execute_error) expected \<times> 's \<Rightarrow> (u32 \<Rightarrow> 's \<Rightarrow> ((execute_result, execute_error) expected \<times> 's) option)
     \<Rightarrow> ((execute_result, execute_error) expected \<times> 's) option"
where
  "resume r k =
     (case r of
        (Value v, s) \<Rightarrow> k v s
      | (Unexpected e, s) \<Rightarrow> Some (Unexpected e, s)
      | (Throw x, s) \<Rightarrow> Some (Throw x, s))"

lemma resume_cong [cong]: "r = r' \<Longrightarrow> (\<And>v s. k v s = k' v s) \<Longrightarrow> resume r k = resume r' k'"
  by (auto simp: resume_def split: expected.splits prod.splits)

lemma resume_with_value: "resume (with_value r f) k = resume r (\<lambda>v s. resume (f v s) k)"
  by (auto simp: resume_def with_value_def split: expected.splits prod.splits)

lemma run_unary:
  assumes "expr_step mem reg code pc (a # st) s = (unary_step u pc' (a # st), s)"
  shows "expr_run mem reg code pc (a # st) s = resume (u a, s) (\<lambda>v s. expr_run mem reg code pc' (v # st) s)"
  using assms by (cases "u a") (simp_all add: run_simps resume_def)

lemma run_binary:
  assumes "expr_step mem reg code pc (b # a # st) s = (binary_step f pc (b # a # st), s)"
  shows "expr_run mem reg code pc (b # a # st) s = resume (f a b, s) (\<lambda>v s. expr_run mem reg code (pc + 1) (v # st) s)"
  using assms by (cases "f a b") (simp_all add: run_simps resume_def)

lemma run_ref:
  assumes "expr_step mem reg code pc (a # st) s = ref_step mem n pc (a # st) s"
  shows "expr_run mem reg code pc (a # st) s =
    resume (case read_memory_bytes mem a n s of
         (Value bs, s) \<Rightarrow> (Value (value_of_bytes bs), s)
       | (Unexpected _, s) \<Rightarrow> (Unexpected Memory_access_error, s)
       | (Throw x, s) \<Rightarrow> (Throw x, s)) (\<lambda>v s. expr_run mem reg code (pc + 1) (v # st) s)"
proof (cases "read_memory_bytes mem a n s")
  case (Pair r s')
  then show ?thesis using assms by (cases r) (simp_all add: run_simps resume_def)
qed

lemma jump_target:
  assumes "code_at code pc (jump_to f t)" "t < 65536"
  shows "with_ops code pc 2 g = g (of_nat t)" "code_at code pc [code_of f]"
proof -
  have c: "code_at code (pc + 1) [ucast (drop_bit 8 (of_nat t :: u16)), ucast (of_nat t :: u16)]"
    "code_at code pc [code_of f]"
    using assms(1) unfolding jump_to_def by (rule code_at_ConsD)+
  have "(ucast (of_nat t :: u16) :: u32) = of_nat t"
    using assms(2) by (simp add: word_unat_eq_iff unsigned_of_nat unsigned_ucast_eq take_bit_nat_eq_self)
  then show "with_ops code pc 2 g = g (of_nat t)"
    using get_ops_code[OF c(1), of 2] value_of_u16[of "of_nat t"] by (simp add: with_ops_def)
  show "code_at code pc [code_of f]" by (rule c(2))
qed

lemma unat_of_nat_small: "t < 65536 \<Longrightarrow> unat (of_nat t :: u32) = t"
  by (simp add: unsigned_of_nat take_bit_nat_eq_self)

theorem run_compile:
  assumes "expr_ok e" "code_at code pc (compile pc e)" "pc + expr_size e < 65536"
  shows "expr_run mem reg code pc st s =
    resume (expr_eval mem reg e s) (\<lambda>v s. expr_run mem reg code (pc + expr_size e) (v # st) s)"
  using assms
proof (induction e arbitrary: pc st s)
  case (Num v)
  then have c: "code_at code pc [code_of Const32]" "code_at code (pc + 1) (rev (bytes_of_u32 v))"
    using code_at_ConsD[of code pc "code_of Const32"] by simp_all
  have "get_ops code (pc + 1) 4 = Some (rev (bytes_of_u32 v))"
    by (rule get_ops_code[OF c(2)]) (simp add: bytes_of_u32_def)
  then have "with_ops code pc 4 g = g v" for g by (simp add: with_ops_def value_of_u32)
  then have "expr_step mem reg code pc st s = (Value (Go (pc + 5) (v # st)), s)"
    using expr_step_at(4)[OF c(1)] by (simp add: control_step_def)
  then show ?case by (simp add: run_simps resume_def)
next
  case (Register_value r)
  then have c: "code_at code pc [code_of Reg]" "code_at code (pc + 1) [ucast (drop_bit 8 r), ucast r]"
    using code_at_ConsD[of code pc "code_of Reg"] by simp_all
  have g: "get_ops code (pc + 1) 2 = Some [ucast (drop_bit 8 r), ucast r]" by (rule get_ops_code[OF c(2)]) simp
  have "bytecode_of (code ! pc) = Some Reg" "pc < length code" using c(1) by (auto simp: code_at_nth bytecode_of_code)
  then have step: "expr_step mem reg code pc st s =
      (case reg (ucast r) s of (Value v, s) \<Rightarrow> (Value (Go (pc + 3) (v # st)), s)
         | (Unexpected _, s) \<Rightarrow> (Unexpected Register_access_error, s) | (Throw x, s) \<Rightarrow> (Throw x, s))"
    using g value_of_u16[of r] by (simp add: expr_step_def)
  obtain w s' where "reg (ucast r) s = (w, s')" by fastforce
  then show ?case using step by (cases w) (simp_all add: run_simps resume_def)
next
  case (Deref f e)
  then obtain n where f: "ref_size f = Some n" by auto
  have c: "code_at code pc (compile pc e)" "code_at code (pc + expr_size e) [code_of f]"
    using Deref.prems(2) by (simp_all add: code_at_append)
  have "expr_run mem reg code pc st s =
      resume (expr_eval mem reg e s) (\<lambda>v s. expr_run mem reg code (pc + expr_size e) (v # st) s)"
    using Deref c(1) by simp
  then show ?case using f by (simp add: resume_with_value add.assoc run_ref[OF expr_step_at(3)[OF c(2) f]])
next
  case (Unary f e)
  then obtain u where f: "unary_op f = Some u" by auto
  have c: "code_at code pc (compile pc e)" "code_at code (pc + expr_size e) [code_of f]"
    using Unary.prems(2) by (simp_all add: code_at_append)
  have "expr_run mem reg code pc st s =
      resume (expr_eval mem reg e s) (\<lambda>v s. expr_run mem reg code (pc + expr_size e) (v # st) s)"
    using Unary c(1) by simp
  then show ?case using f by (simp add: resume_with_value add.assoc run_unary[OF expr_step_at(2)[OF c(2) f]])
next
  case (Extend f n e)
  then obtain u where f: "extend_op f = Some u" by auto
  have c: "code_at code pc (compile pc e)" "code_at code (pc + expr_size e) [code_of f]"
    "code_at code (pc + expr_size e + 1) [n]"
    using Extend.prems(2) code_at_ConsD[of code "pc + expr_size e" "code_of f" "[n]"]
    by (simp_all add: code_at_append)
  have "with_ops code (pc + expr_size e) 1 g = g (ucast n)" for g
    using get_ops_code[OF c(3), of 1] by (simp add: with_ops_def value_of_bytes_def)
  then have "expr_step mem reg code (pc + expr_size e) (a # st) s' = (unary_step (u n) (pc + expr_size e + 2) (a # st), s')" for a s'
    using f by (auto simp: extend_op_def control_step_def expr_step_at(4)[OF c(2)] ucast_down_ucast_id is_down
        simp del: unary_step.simps split: if_splits)
  note r = run_unary[OF this]
  have "expr_run mem reg code pc st s =
      resume (expr_eval mem reg e s) (\<lambda>v s. expr_run mem reg code (pc + expr_size e) (v # st) s)"
    using Extend c(1) by simp
  then show ?case using f by (simp add: resume_with_value add.assoc r)
next
  case (Binary f x y)
  then obtain g where f: "binary_op f = Some g" by auto
  have c: "code_at code pc (compile pc x)" "code_at code (pc + expr_size x) (compile (pc + expr_size x) y)"
    "code_at code (pc + expr_size x + expr_size y) [code_of f]"
    using Binary.prems(2) by (simp_all add: code_at_append add.assoc)
  have "expr_run mem reg code pc st s =
      resume (expr_eval mem reg x s) (\<lambda>v s. expr_run mem reg code (pc + expr_size x) (v # st) s)"
    using Binary c(1) by simp
  moreover have "expr_run mem reg code (pc + expr_size x) (a # st) s' =
      resume (expr_eval mem reg y s') (\<lambda>v s. expr_run mem reg code (pc + expr_size x + expr_size y) (v # a # st) s)" for a s'
    using Binary c(2) by simp
  ultimately show ?case using f by (simp add: resume_with_value add.assoc run_binary[OF expr_step_at(1)[OF c(3) f], unfolded add.assoc])
next
  case (Conditional c x y)
  define j no g yes fin where "j = pc + expr_size c" and "no = j + 3" and "g = no + expr_size y"
    and "yes = g + 3" and "fin = yes + expr_size x"
  note defs = j_def no_def g_def yes_def fin_def
  have k: "code_at code pc (compile pc c)" "code_at code j (jump_to If_goto yes)"
    "code_at code no (compile no y)" "code_at code g (jump_to Goto fin)" "code_at code yes (compile yes x)"
    using Conditional.prems(2) by (simp_all add: code_at_append Let_def defs add.assoc)
  have b: "yes < 65536" "fin < 65536" using Conditional.prems(3) by (simp_all add: defs)
  have "expr_step mem reg code j (a # st) s' = (Value (Go (if a = 0 then no else yes) st), s')" for a s'
    by (simp add: control_step_def expr_step_at(4)[OF jump_target(2)[OF k(2) b(1)]] jump_target(1)[OF k(2) b(1)]
        unat_of_nat_small[OF b(1)]) (simp add: no_def)
  then have if_goto: "expr_run mem reg code j (a # st) s' = expr_run mem reg code (if a = 0 then no else yes) st s'" for a s'
    by (rule run_simps(1))
  have "expr_step mem reg code g st' s' = (Value (Go fin st'), s')" for st' s'
    by (simp add: control_step_def expr_step_at(4)[OF jump_target(2)[OF k(4) b(2)]] jump_target(1)[OF k(4) b(2)]
        unat_of_nat_small[OF b(2)])
  then have goto: "expr_run mem reg code g st' s' = expr_run mem reg code fin st' s'" for st' s'
    by (rule run_simps(1))
  have c: "expr_run mem reg code pc st s = resume (expr_eval mem reg c s) (\<lambda>v s. expr_run mem reg code j (v # st) s)"
    using Conditional k(1) by (simp add: j_def)
  have y: "expr_run mem reg code no st s' = resume (expr_eval mem reg y s') (\<lambda>v s. expr_run mem reg code g (v # st) s)" for s'
    using Conditional k(3) by (simp add: defs)
  have x: "expr_run mem reg code yes st s' = resume (expr_eval mem reg x s') (\<lambda>v s. expr_run mem reg code fin (v # st) s)" for s'
    using Conditional k(5) by (simp add: defs)
  have "fin = pc + expr_size (Conditional c x y)" by (simp add: defs)
  moreover have "expr_run mem reg code j (v # st) s' =
      resume (if v \<noteq> 0 then expr_eval mem reg x s' else expr_eval mem reg y s') (\<lambda>v s. expr_run mem reg code fin (v # st) s)" for v s'
    using if_goto[of v s'] x y goto by (cases "v = 0") simp_all
  ultimately show ?case using c by (simp add: resume_with_value)
qed

text \<open>So the bytecode of an expression, followed by \<open>End\<close>, returns its value or its error.\<close>

theorem execute_compile:
  fixes s :: 's
  assumes "expr_ok e" "expr_size e < 65536"
  shows "expr_execute mem reg (compile 0 e @ [code_of End_op]) s =
    resume (expr_eval mem reg e s) (\<lambda>v s. Some (Value \<lparr>er_top = v, er_next_to_top = None\<rparr>, s))"
proof -
  let ?c = "compile 0 e @ [code_of End_op]"
  have at: "code_at ?c 0 (compile 0 e)" by (simp add: code_at_def)
  have "expr_step mem reg ?c (expr_size e) [v] s' = (Value (Finish \<lparr>er_top = v, er_next_to_top = None\<rparr>), s')" for v and s' :: 's
    using bytecode_of_code[of End_op] by (simp add: expr_step_def nth_append shuffle_step_def)
  then show ?thesis
    using assms(2) by (simp add: expr_execute_def run_compile[OF assms(1) at] run_simps(2))
qed

section \<open>Termination\<close>

text \<open>Bytecode whose jumps all go forward, wherever they may be entered, always returns.\<close>

definition jump_operand :: "u8 list \<Rightarrow> nat \<Rightarrow> nat" where
  "jump_operand code i = unat (u16_of_bytes (code ! (i + 2)) (code ! (i + 1)))"

definition jumps_forward :: "u8 list \<Rightarrow> bool" where
  "jumps_forward code \<longleftrightarrow>
     (\<forall>i < length code. bytecode_of (code ! i) \<in> {Some If_goto, Some Goto} \<and> i + 2 < length code
        \<longrightarrow> i < jump_operand code i)"

lemma unary_step_pc: "unary_step u n st = Value (Go pc' st') \<Longrightarrow> pc' = n"
  by (cases st) (auto split: expected.splits)

lemma binary_step_pc: "binary_step f n st = Value (Go pc' st') \<Longrightarrow> pc' = n + 1"
  by (cases "(f, n, st)" rule: binary_step.cases) (auto split: expected.splits)

lemma shuffle_step_pc: "shuffle_step f n st = Value (Go pc' st') \<Longrightarrow> pc' = n + 1"
  unfolding shuffle_step_def by (cases f; cases st; cases "tl st"; cases "tl (tl st)") auto

lemma with_ops_jump:
  assumes "with_ops code pc 2 (\<lambda>v. Value (Go (unat v) st)) = Value (Go pc' st')"
  shows "pc + 2 < length code \<and> pc' = jump_operand code pc"
proof -
  from assms have l: "pc + 2 < length code" by (auto simp: with_ops_def get_ops_def split: if_splits)
  then have "take 2 (drop (pc + 1) code) = [code ! (pc + 1), code ! (pc + 2)]"
    by (simp add: take_Suc_conv_app_nth numeral_2_eq_2 hd_drop_conv_nth flip: Suc_eq_plus1)
  with l assms show ?thesis
    by (auto simp: with_ops_def get_ops_def value_of_bytes_def jump_operand_def unat_ucast_up)
qed

lemma with_ops_value:
  "with_ops code pc n f = Value r \<Longrightarrow> \<exists>v. f v = Value r"
  by (auto simp: with_ops_def split: option.splits)

lemma control_step_pc:
  assumes "control_step code f pc st = Value (Go pc' st')"
  shows "pc < pc' \<or> f \<in> {If_goto, Goto} \<and> pc + 2 < length code \<and> pc' = jump_operand code pc"
proof (cases f)
  case If_goto
  then show ?thesis using assms with_ops_jump by (auto simp: control_step_def split: list.splits if_splits)
next
  case Goto
  then show ?thesis using assms with_ops_jump by (auto simp: control_step_def)
qed (use assms in \<open>auto simp: control_step_def split: if_splits dest!: with_ops_value unary_step_pc\<close>)

lemma step_forward:
  assumes "jumps_forward code" "expr_step mem reg code pc st s = (Value (Go pc' st'), s')"
  shows "pc < pc' \<and> pc < length code"
proof -
  obtain f where f: "pc < length code" "bytecode_of (code ! pc) = Some f"
    using assms(2) by (auto simp: expr_step_def split: if_splits option.splits)
  consider (binary) g where "binary_op f = Some g" | (unary) u where "unary_op f = Some u"
    | (ref) n where "ref_size f = Some n" | (reg) "f = Reg" | (shuffle) "f \<in> {Dup, Swap, Pop, Rot, End_op}"
    | (control) "binary_op f = None" "unary_op f = None" "ref_size f = None" "f \<noteq> Reg" "f \<notin> {Dup, Swap, Pop, Rot, End_op}"
    by fastforce
  then have "pc < pc'"
  proof cases
    case binary
    then show ?thesis using assms(2) f by (auto simp: expr_step_def dest: binary_step_pc)
  next
    case unary
    then show ?thesis using assms(2) f
      by (auto simp: expr_step_def unary_op_def split: if_splits dest: unary_step_pc)
  next
    case (ref n)
    have "expr_step mem reg code pc st s = ref_step mem n pc st s"
      using ref f by (auto simp: expr_step_def ref_size_def split: if_splits)
    then show ?thesis using assms(2) by (cases st) (auto split: prod.splits expected.splits)
  next
    case reg
    then show ?thesis using assms(2) f by (auto simp: expr_step_def split: option.splits prod.splits expected.splits)
  next
    case shuffle
    then have "expr_step mem reg code pc st s = (shuffle_step f pc st, s)"
      using f by (auto simp: expr_step_def)
    then show ?thesis using assms(2) shuffle_step_pc[of f pc st pc' st'] by simp
  next
    case control
    then have "f \<noteq> Log_not" "f \<noteq> Bit_not" "f \<noteq> Ref8" "f \<noteq> Ref16" "f \<noteq> Ref32"
      by (auto simp: unary_op_def ref_size_def)
    then have "expr_step mem reg code pc st s = (control_step code f pc st, s)"
      using control f by (simp add: expr_step_def)
    then have "control_step code f pc st = Value (Go pc' st')" using assms(2) by simp
    then show ?thesis using control_step_pc assms(1) f by (fastforce simp: jumps_forward_def)
  qed
  with f show ?thesis by simp
qed

theorem forward_terminates:
  assumes "jumps_forward code"
  shows "\<exists>r. expr_run mem reg code pc st s = Some r"
proof (induction "length code - pc" arbitrary: pc st s rule: less_induct)
  case less
  obtain r s' where e: "expr_step mem reg code pc st s = (r, s')" by fastforce
  show ?case
  proof (cases r)
    case (Value fl)
    show ?thesis
    proof (cases fl)
      case (Go pc' st')
      have "pc < pc' \<and> pc < length code"
        by (rule step_forward[OF assms, of mem reg pc st s pc' st' s']) (simp add: e Value Go)
      then have "length code - pc' < length code - pc" by linarith
      then obtain q where q: "expr_run mem reg code pc' st' s' = Some q" using less[of pc' st' s'] by blast
      have "expr_run mem reg code pc st s = expr_run mem reg code pc' st' s'"
        by (rule run_simps(1)) (simp add: e Value Go)
      with q show ?thesis by simp
    next
      case (Finish res)
      have "expr_run mem reg code pc st s = Some (Value res, s')"
        by (rule run_simps(2)) (simp add: e Value Finish)
      then show ?thesis by simp
    qed
  next
    case (Unexpected x)
    have "expr_run mem reg code pc st s = Some (Unexpected x, s')" by (rule run_simps(3)) (simp add: e Unexpected)
    then show ?thesis by simp
  next
    case (Throw x)
    have "expr_run mem reg code pc st s = Some (Throw x, s')" by (rule run_simps(4)) (simp add: e Throw)
    then show ?thesis by simp
  qed
qed

text \<open>A jump to itself is never left.\<close>

lemma goto_self_step: "expr_step mem reg [0x21, 0, 0] 0 st s = (Value (Go 0 st), s)"
  by (simp add: expr_step_def bytecode_of_def bytecode_table_def control_step_def with_ops_def get_ops_def
      value_of_bytes_def u16_of_bytes_def)

lemma goto_self_loops:
  fixes s :: 's
  shows "expr_execute mem reg [0x21, 0, 0] s = None"
proof -
  have never: "\<not> (code = [0x21, 0, 0] \<and> pc = 0)" if "expr_run m r code pc st s' = Some y" for m r code pc st y and s' :: 's
  proof (rule expr_run.raw_induct[where P = "\<lambda>m r code pc st s y. \<not> (code = [0x21, 0, 0] \<and> pc = 0)", OF _ that], goal_cases)
    case (1 run m r code pc st s' y)
    show ?case
    proof
      assume c: "code = [0x21, 0, 0] \<and> pc = 0"
      with 1(2) have "run m r code 0 st s' = Some y" by (simp add: goto_self_step)
      with 1(1) c show False by blast
    qed
  qed
  show ?thesis
  proof (cases "expr_run mem reg [0x21, 0, 0] 0 [] s")
    case (Some y)
    then show ?thesis using never[OF Some] by simp
  qed (simp add: expr_execute_def)
qed

section \<open>Operand order\<close>

text \<open>
  The protocol computes \<open>a - b\<close>, \<open>a / b\<close>, \<open>a << b\<close> with \<open>b\<close> the top of the stack; the machine computes
  \<open>b - a\<close>, \<open>b / a\<close>, \<open>b << a\<close>, and tests \<open>b\<close> before it divides by \<open>a\<close>.
\<close>

lemma operands_swapped:
  "expr_eval mem reg (Binary Sub_op (Num x) (Num y)) s = (Value (y - x), s)"
  "expr_eval mem reg (Binary Div_unsigned (Num 0) (Num 10)) s = (Throw (Undefined_behaviour ''division by zero''), s)"
  "expr_eval mem reg (Binary Less_unsigned (Num x) (Num y)) s = (Value (if y < x then 1 else 0), s)"
  by (simp_all add: with_value_def divide_with_def)

end
