(* ===== verification/OrderedMap.thy ===== *)
theory OrderedMap
  imports Prelude
begin

text \<open>
  \<open>std::map\<close>, as the debugger uses it for breakpoints and watchpoints: the entries in the order of
  their keys, under the comparison \<open>lt\<close> of the key type. The comparison of address ranges is not a
  weak order, so a search is modelled as far as it is determined: when the keys below the one sought
  come before all others and the keys above it after, every search tree of these entries finds the
  same one. Otherwise the outcome is undefined behaviour. The locale \<open>key_order\<close> says for which keys
  a comparison never gets there.
\<close>

section \<open>Search, insertion and removal\<close>

definition keys_below :: "('k \<Rightarrow> 'k \<Rightarrow> bool) \<Rightarrow> 'k \<Rightarrow> ('k \<times> 'v) list \<Rightarrow> ('k \<times> 'v) list" where
  "keys_below lt k m = takeWhile (\<lambda>e. lt (fst e) k) m"

definition keys_from :: "('k \<Rightarrow> 'k \<Rightarrow> bool) \<Rightarrow> 'k \<Rightarrow> ('k \<times> 'v) list \<Rightarrow> ('k \<times> 'v) list" where
  "keys_from lt k m = dropWhile (\<lambda>e. lt (fst e) k) m"

definition partitioned :: "('k \<Rightarrow> 'k \<Rightarrow> bool) \<Rightarrow> 'k \<Rightarrow> ('k \<times> 'v) list \<Rightarrow> bool" where
  "partitioned lt k m \<longleftrightarrow>
     list_all (\<lambda>e. \<not> lt (fst e) k) (keys_from lt k m) \<and>
     list_all (\<lambda>e. lt k (fst e)) (dropWhile (\<lambda>e. \<not> lt k (fst e)) m)"

definition unordered_keys :: exn where
  "unordered_keys = Undefined_behaviour ''search in a map whose keys are not ordered''"

definition map_find :: "('k \<Rightarrow> 'k \<Rightarrow> bool) \<Rightarrow> 'k \<Rightarrow> ('k \<times> 'v) list \<Rightarrow> exn + ('k \<times> 'v) option" where
  "map_find lt k m =
     (if \<not> partitioned lt k m then Inl unordered_keys
      else case keys_from lt k m of
             [] \<Rightarrow> Inr None
           | e # _ \<Rightarrow> Inr (if lt k (fst e) then None else Some e))"

text \<open>\<open>emplace\<close> leaves the map as it is when an equivalent key is there.\<close>

definition map_emplace :: "('k \<Rightarrow> 'k \<Rightarrow> bool) \<Rightarrow> 'k \<Rightarrow> 'v \<Rightarrow> ('k \<times> 'v) list \<Rightarrow> exn + ('k \<times> 'v) list" where
  "map_emplace lt k v m =
     (case map_find lt k m of
        Inl x \<Rightarrow> Inl x
      | Inr (Some e) \<Rightarrow> Inr m
      | Inr None \<Rightarrow> Inr (keys_below lt k m @ (k, v) # keys_from lt k m))"

text \<open>\<open>erase\<close> with the iterator that \<open>find\<close> gave.\<close>

definition map_erase :: "('k \<Rightarrow> 'k \<Rightarrow> bool) \<Rightarrow> 'k \<Rightarrow> ('k \<times> 'v) list \<Rightarrow> ('k \<times> 'v) list" where
  "map_erase lt k m = keys_below lt k m @ tl (keys_from lt k m)"

definition keys_sorted :: "('k \<Rightarrow> 'k \<Rightarrow> bool) \<Rightarrow> ('k \<Rightarrow> bool) \<Rightarrow> ('k \<times> 'v) list \<Rightarrow> bool" where
  "keys_sorted lt ok m \<longleftrightarrow> sorted_wrt (\<lambda>a b. lt (fst a) (fst b)) m \<and> list_all (\<lambda>e. ok (fst e)) m"

lemma below_from [simp]: "keys_below lt k m @ keys_from lt k m = m"
  by (simp add: keys_below_def keys_from_def)

text \<open>Whatever the comparison is, an insertion puts the key where it is ordered with all others.\<close>

lemma emplace_keeps_sorted:
  assumes "keys_sorted lt (\<lambda>_. True) m" "map_emplace lt k v m = Inr m'"
  shows "keys_sorted lt (\<lambda>_. True) m' \<and> set m' \<subseteq> insert (k, v) (set m)"
proof (cases "map_find lt k m")
  case (Inr r)
  show ?thesis
  proof (cases r)
    case None
    then have p: "partitioned lt k m" using Inr by (simp add: map_find_def split: if_splits)
    obtain b f where m: "m = b @ f" and k: "keys_below lt k m = b" "keys_from lt k m = f"
      using below_from[of lt k m] by metis
    have b: "lt (fst e) k" if "e \<in> set b" for e
      using that k(1) by (auto simp: keys_below_def dest: set_takeWhileD)
    have f: "lt k (fst e)" if e: "e \<in> set f" for e
    proof -
      obtain d ds where d: "f = d # ds" "lt k (fst d)"
        using e None Inr k(2) by (cases f) (auto simp: map_find_def split: if_splits)
      have all: "\<forall>e \<in> set (dropWhile (\<lambda>e. \<not> lt k (fst e)) m). lt k (fst e)"
        using p unfolding partitioned_def list_all_iff by blast
      show ?thesis
      proof (cases "list_all (\<lambda>e. \<not> lt k (fst e)) b")
        case True
        then have "dropWhile (\<lambda>e. \<not> lt k (fst e)) m = f" using d by (simp add: m list_all_iff)
        with all e show ?thesis by blast
      next
        case False
        then obtain c where "c \<in> set b" "\<not> \<not> lt k (fst c)" unfolding list_all_iff by blast
        then have "dropWhile (\<lambda>e. \<not> lt k (fst e)) m = dropWhile (\<lambda>e. \<not> lt k (fst e)) b @ f"
          unfolding m by (rule dropWhile_append1)
        then have "set f \<subseteq> set (dropWhile (\<lambda>e. \<not> lt k (fst e)) m)" by simp
        with all e show ?thesis by blast
      qed
    qed
    have "keys_sorted lt (\<lambda>_. True) (b @ f)" using assms(1) by (simp only: m)
    then have "keys_sorted lt (\<lambda>_. True) (b @ (k, v) # f)"
      using b f by (auto simp: keys_sorted_def sorted_wrt_append)
    moreover have "m' = b @ (k, v) # f" using assms(2) Inr None k by (simp add: map_emplace_def)
    ultimately show ?thesis by (auto simp: m)
  next
    case (Some e)
    then show ?thesis using assms Inr by (auto simp: map_emplace_def)
  qed
qed (use assms in \<open>simp add: map_emplace_def\<close>)

lemma erase_keeps_sorted:
  assumes "keys_sorted lt ok m"
  shows "keys_sorted lt ok (map_erase lt k m) \<and> set (map_erase lt k m) \<subseteq> set m"
proof -
  obtain b f where m: "m = b @ f" and k: "keys_below lt k m = b" "keys_from lt k m = f"
    using below_from[of lt k m] by metis
  have "keys_sorted lt ok (b @ f)" using assms by (simp only: m)
  then have "keys_sorted lt ok (b @ tl f)" by (cases f) (auto simp: keys_sorted_def sorted_wrt_append)
  moreover have "set (b @ tl f) \<subseteq> set m" by (cases f) (auto simp: m)
  ultimately show ?thesis by (simp only: map_erase_def k)
qed

section \<open>Keys with a strict order\<close>

locale key_order =
  fixes lt :: "'k \<Rightarrow> 'k \<Rightarrow> bool" and ok :: "'k \<Rightarrow> bool"
  assumes irrefl: "ok a \<Longrightarrow> \<not> lt a a"
    and transitive: "ok a \<Longrightarrow> ok b \<Longrightarrow> ok c \<Longrightarrow> lt a b \<Longrightarrow> lt b c \<Longrightarrow> lt a c"
begin

lemma asym: "ok a \<Longrightarrow> ok b \<Longrightarrow> lt a b \<Longrightarrow> \<not> lt b a"
  using irrefl transitive by blast

lemma sorted_partitioned:
  assumes "keys_sorted lt ok m" "ok k"
  shows "partitioned lt k m"
  using assms(1)
proof (induction m)
  case (Cons e m)
  then have IH: "partitioned lt k m" and e: "ok (fst e)" "\<And>d. d \<in> set m \<Longrightarrow> ok (fst d) \<and> lt (fst e) (fst d)"
    by (simp_all add: keys_sorted_def list_all_iff)
  consider "lt (fst e) k" "\<not> lt k (fst e)" | "\<not> lt (fst e) k" "lt k (fst e)" | "\<not> lt (fst e) k" "\<not> lt k (fst e)"
    using e(1) assms(2) asym by blast
  then show ?case
  proof cases
    case 1
    then show ?thesis using IH by (simp add: partitioned_def keys_from_def)
  next
    case 2
    then have "list_all (\<lambda>d. \<not> lt (fst d) k) m" "list_all (\<lambda>d. lt k (fst d)) m"
      using e transitive[of "fst e" _ k] transitive[of k "fst e"] assms(2) unfolding list_all_iff by blast+
    then show ?thesis using 2 by (simp add: partitioned_def keys_from_def)
  next
    case 3
    then have "list_all (\<lambda>d. \<not> lt (fst d) k) m"
      using e transitive[of "fst e" _ k] assms(2) unfolding list_all_iff by blast
    then show ?thesis using 3 IH by (simp add: partitioned_def keys_from_def)
  qed
qed (simp add: partitioned_def keys_from_def)

lemma from_props:
  assumes "keys_sorted lt ok m" "ok k"
  shows "e \<in> set (keys_below lt k m) \<Longrightarrow> lt (fst e) k" "e \<in> set (keys_from lt k m) \<Longrightarrow> \<not> lt (fst e) k"
  using sorted_partitioned[OF assms]
  by (auto simp: keys_below_def partitioned_def list_all_iff dest: set_takeWhileD)

text \<open>A search finds an entry that is not ordered with the key, when there is one.\<close>

lemma find_some:
  assumes "keys_sorted lt ok m" "ok k" "map_find lt k m = Inr (Some e)"
  shows "e \<in> set m \<and> \<not> lt (fst e) k \<and> \<not> lt k (fst e)"
proof -
  obtain es where f: "keys_from lt k m = e # es" "\<not> lt k (fst e)"
    using assms(3) by (auto simp: map_find_def split: if_splits list.splits)
  then have "e \<in> set m" using below_from[of lt k m] by (metis in_set_conv_decomp)
  with f from_props(2)[OF assms(1,2)] show ?thesis by simp
qed

lemma find_none:
  assumes "keys_sorted lt ok m" "ok k" "map_find lt k m = Inr None" "e \<in> set m"
  shows "lt (fst e) k \<or> lt k (fst e)"
proof (cases "e \<in> set (keys_below lt k m)")
  case True
  then show ?thesis using from_props(1)[OF assms(1,2)] by simp
next
  case False
  then have mem: "e \<in> set (keys_from lt k m)" using assms(4) below_from[of lt k m] by (metis Un_iff set_append)
  then obtain d ds where f: "keys_from lt k m = d # ds" "lt k (fst d)"
    using assms(3) by (auto simp: map_find_def split: if_splits list.splits)
  have s: "keys_sorted lt ok (d # ds)"
    using assms(1) f(1) below_from[of lt k m] unfolding keys_sorted_def by (metis sorted_wrt_append list_all_append)
  then have "lt k (fst e)" if "e \<in> set ds"
    using that f(2) assms(2) transitive[of k "fst d" "fst e"] by (auto simp: keys_sorted_def list_all_iff)
  then show ?thesis using f mem by auto
qed

lemma find_total: "keys_sorted lt ok m \<Longrightarrow> ok k \<Longrightarrow> \<exists>r. map_find lt k m = Inr r"
  by (simp add: map_find_def sorted_partitioned split: list.split)

lemma split_at_key:
  obtains b f where "m = b @ f" "keys_below lt k m = b" "keys_from lt k m = f"
  using below_from[of lt k m] by metis

lemma emplace_new:
  assumes "keys_sorted lt ok m" "ok k" "map_find lt k m = Inr None"
  shows "\<exists>m'. map_emplace lt k v m = Inr m' \<and> keys_sorted lt ok m' \<and> set m' = insert (k, v) (set m)"
proof -
  obtain b f where m: "m = b @ f" and k: "keys_below lt k m = b" "keys_from lt k m = f" by (rule split_at_key)
  have "lt (fst e) k" if "e \<in> set b" for e using from_props(1)[OF assms(1,2)] that k(1) by simp
  moreover have "lt k (fst e)" if "e \<in> set f" for e
    using find_none[OF assms, of e] from_props(2)[OF assms(1,2), of e] that k(2) by (auto simp: m)
  moreover have "keys_sorted lt ok (b @ f)" using assms(1) by (simp only: m)
  ultimately have "keys_sorted lt ok (b @ (k, v) # f)"
    using assms(2) by (auto simp: keys_sorted_def sorted_wrt_append)
  moreover have "map_emplace lt k v m = Inr (b @ (k, v) # f)" by (simp add: map_emplace_def assms(3) k)
  ultimately show ?thesis by (auto simp: m)
qed

lemma emplace_keeps: "map_find lt k m = Inr (Some e) \<Longrightarrow> map_emplace lt k v m = Inr m"
  by (simp add: map_emplace_def)

lemma emplace_sorted:
  assumes "keys_sorted lt ok m" "ok k" "map_emplace lt k v m = Inr m'"
  shows "keys_sorted lt ok m'"
proof -
  obtain r where r: "map_find lt k m = Inr r" using find_total[OF assms(1,2)] by blast
  show ?thesis
  proof (cases r)
    case None
    then show ?thesis using emplace_new[OF assms(1,2), of v] r assms(3) by auto
  next
    case (Some e)
    then show ?thesis using emplace_keeps[of k m e v] r assms(1,3) by simp
  qed
qed

text \<open>Removing a key takes exactly the entry that the search finds.\<close>

lemma erase_found:
  assumes "keys_sorted lt ok m" "ok k" "map_find lt k m = Inr (Some e)"
  shows "set (map_erase lt k m) = set m - {e}"
proof -
  obtain b f where m: "m = b @ f" and k: "keys_below lt k m = b" "keys_from lt k m = f" by (rule split_at_key)
  obtain es where f: "f = e # es" using assms(3) k(2) by (auto simp: map_find_def split: if_splits list.splits)
  have s: "keys_sorted lt ok (b @ e # es)" using assms(1) by (simp only: m f)
  have "e \<notin> set b \<union> set es"
  proof
    assume "e \<in> set b \<union> set es"
    then have "lt (fst e) (fst e)" "ok (fst e)"
      using s by (auto simp: keys_sorted_def sorted_wrt_append list_all_iff)
    then show False using irrefl by blast
  qed
  then have "set (b @ es) = set (b @ e # es) - {e}" by auto
  then show ?thesis by (simp add: map_erase_def k f) (simp add: m f)
qed

end

end
