(* ===== verification/StopPoint.thy ===== *)
theory StopPoint
  imports Accessor Command Expression OrderedMap
begin

text \<open>
  \<open>lib/include/gdb-stub/addr-range.hpp\<close>, \<open>lib/include/gdb-stub/stop-point.hpp\<close> and
  \<open>lib/gdb-stub/stop-point.cpp\<close>: address ranges and their comparison, watchpoints and conditional
  hardware breakpoints. Ranges that end below the last address are ordered, so the maps of the
  debugger interpret \<open>key_order\<close>. A condition that is compiled from an expression triggers when the
  expression is not 0.
\<close>

unbundle bit_operations_syntax

section \<open>Address ranges\<close>

record address_range =
  ar_start :: u32
  ar_size :: u32

datatype partial_ordering = Less | Equivalent | Greater | Unordered

definition range_compare :: "address_range \<Rightarrow> address_range \<Rightarrow> partial_ordering" where
  "range_compare r other =
     (let end_addr = ar_start r + ar_size r;
          other_end = ar_start other + ar_size other
      in if ar_start r \<le> ar_start other \<and> other_end \<le> end_addr then Equivalent
         else if ar_start other \<le> ar_start r \<and> end_addr \<le> other_end then Equivalent
         else if other_end < ar_start r then Greater
         else if end_addr < ar_start other then Less
         else Unordered)"

text \<open>\<open>operator<\<close> as the compiler derives it.\<close>

definition range_less :: "address_range \<Rightarrow> address_range \<Rightarrow> bool" where
  "range_less r other \<longleftrightarrow> range_compare r other = Less"

section \<open>Watchpoints and breakpoints\<close>

record watchpoint =
  wp_watch_write :: bool
  wp_watch_read :: bool
  wp_addr_range :: address_range

record hw_breakpoint =
  hb_address :: u32
  hb_cond :: "u8 list option"

definition memory_access_of :: "'m memory_interface \<Rightarrow> (cpu \<times> 'm) memory_access" where
  "memory_access_of memory a s =
     (case memory_accessor_read memory a (snd s) of (r, m) \<Rightarrow> (r, fst s, m))"

definition register_access_of :: "(cpu \<times> 'm) register_access" where
  "register_access_of n s =
     (case cpu_register_read n (fst s) of
        (Some v, c) \<Rightarrow> (Value v, c, snd s)
      | (None, c) \<Rightarrow> (Unexpected (), c, snd s))"

text \<open>\<open>None\<close> is a condition that does not end.\<close>

definition is_triggered_by ::
  "'m memory_interface \<Rightarrow> hw_breakpoint \<Rightarrow> cpu \<times> 'm \<Rightarrow> ((exn + bool) \<times> cpu \<times> 'm) option"
where
  "is_triggered_by memory bp s =
     (if cpu_pc (fst s) \<noteq> hb_address bp then Some (Inr False, s)
      else case hb_cond bp of
             None \<Rightarrow> Some (Inr True, s)
           | Some bytecode_sequence \<Rightarrow>
               map_option
                 (\<lambda>(r, s).
                    (case r of
                       Value result \<Rightarrow> Inr (er_top result \<noteq> 0)
                     | Unexpected _ \<Rightarrow> Inr False
                     | Throw x \<Rightarrow> Inl x, s))
                 (expr_execute (memory_access_of memory) register_access_of bytecode_sequence s))"

definition breakpoint_from :: "u32 \<Rightarrow> u8 list option \<Rightarrow> hw_breakpoint" where
  "breakpoint_from address cond = \<lparr>hb_address = address, hb_cond = cond\<rparr>"

section \<open>Ranges as keys\<close>

definition range_end :: "address_range \<Rightarrow> nat" where
  "range_end r = unat (ar_start r) + unat (ar_size r)"

definition range_ok :: "address_range \<Rightarrow> bool" where
  "range_ok r \<longleftrightarrow> range_end r < 2 ^ 32"

text \<open>Two ranges overlap, or one begins where the other ends.\<close>

definition touches :: "address_range \<Rightarrow> address_range \<Rightarrow> bool" where
  "touches r q \<longleftrightarrow> unat (ar_start r) \<le> range_end q \<and> unat (ar_start q) \<le> range_end r"

definition overlaps :: "address_range \<Rightarrow> address_range \<Rightarrow> bool" where
  "overlaps r q \<longleftrightarrow> unat (ar_start r) < range_end q \<and> unat (ar_start q) < range_end r"

lemma range_end_word: "range_ok r \<Longrightarrow> unat (ar_start r + ar_size r) = range_end r"
  by (simp add: range_ok_def range_end_def unat_word_ariths)

lemma range_less_iff:
  assumes "range_ok r" "range_ok q"
  shows "range_less r q \<longleftrightarrow> range_end r < unat (ar_start q)"
proof -
  have "unat (ar_start r) \<le> range_end r" "unat (ar_start q) \<le> range_end q" by (simp_all add: range_end_def)
  then show ?thesis
    by (auto simp: range_less_def range_compare_def Let_def word_le_nat_alt word_less_nat_alt
        range_end_word[OF assms(1)] range_end_word[OF assms(2)])
qed

lemma not_less_touches:
  "range_ok r \<Longrightarrow> range_ok q \<Longrightarrow> (\<not> range_less r q \<and> \<not> range_less q r) \<longleftrightarrow> touches r q"
  by (auto simp: range_less_iff touches_def)

lemma overlaps_touches: "overlaps r q \<Longrightarrow> touches r q"
  by (simp add: overlaps_def touches_def)

interpretation wp_keys: key_order range_less range_ok
proof
  show "\<not> range_less a a" if "range_ok a" for a
    using that by (simp add: range_less_iff range_end_def)
  show "range_less a c" if "range_ok a" "range_ok b" "range_ok c" "range_less a b" "range_less b c" for a b c
    using that by (simp add: range_less_iff range_end_def)
qed

interpretation bp_keys: key_order "(<) :: u32 \<Rightarrow> u32 \<Rightarrow> bool" "\<lambda>_. True"
  by unfold_locales auto

text \<open>
  A range that ends at the last address wraps to the end 0, and is equivalent to every range below it.
\<close>

lemma last_word_range:
  assumes "range_ok q" "ar_start q < 0xFFFFFFFC"
  shows "range_compare \<lparr>ar_start = 0xFFFFFFFC, ar_size = 4\<rparr> q = Equivalent"
  using assms(2) by (auto simp: range_compare_def Let_def word_le_nat_alt word_less_nat_alt)

section \<open>Conditions\<close>

lemma triggered_elsewhere: "cpu_pc (fst s) \<noteq> hb_address bp \<Longrightarrow> is_triggered_by I bp s = Some (Inr False, s)"
  by (simp add: is_triggered_by_def)

lemma triggered_unconditional:
  "is_triggered_by I \<lparr>hb_address = cpu_pc c, hb_cond = None\<rparr> (c, m) = Some (Inr True, c, m)"
  by (simp add: is_triggered_by_def)

text \<open>A breakpoint whose condition the host compiled from an expression.\<close>

lemma triggered_condition:
  assumes "expr_ok e" "expr_size e < 65536"
  shows "is_triggered_by I \<lparr>hb_address = cpu_pc c, hb_cond = Some (compile 0 e @ [code_of End_op])\<rparr> (c, m) =
    (case expr_eval (memory_access_of I) register_access_of e (c, m) of
       (Value v, s) \<Rightarrow> Some (Inr (v \<noteq> 0), s)
     | (Unexpected _, s) \<Rightarrow> Some (Inr False, s)
     | (Throw x, s) \<Rightarrow> Some (Inl x, s))"
  by (simp add: is_triggered_by_def execute_compile[OF assms] resume_def split: prod.split expected.split)

lemma triggered_terminates:
  assumes "hb_cond bp = Some code" "jumps_forward code"
  shows "\<exists>r. is_triggered_by I bp s = Some r"
  using forward_terminates[OF assms(2), of "memory_access_of I" register_access_of 0 "[]" s] assms(1)
  by (auto simp: is_triggered_by_def expr_execute_def)

text \<open>A condition keeps the invariants of the CPU and of the memory.\<close>

lemma expr_run_preserves:
  assumes "expr_run mem reg code pc st s = Some (r, s')" "P s"
    and mem: "\<And>a s. P s \<Longrightarrow> P (snd (mem a s))" and reg: "\<And>n s. P s \<Longrightarrow> P (snd (reg n s))"
  shows "P s'"
proof -
  have bytes: "P t \<Longrightarrow> P (snd (read_memory_bytes mem a n t))" for a n t
  proof (induction n arbitrary: a t)
    case (Suc n)
    from mem[OF Suc.prems, of a] show ?case
      using Suc.IH by (auto split: prod.splits expected.splits) (metis snd_conv)+
  qed simp
  have b: "read_memory_bytes mem a n t = (x, t') \<Longrightarrow> P t \<Longrightarrow> P t'" for a n t x t'
    using bytes[of t a n] by simp
  have g: "reg n t = (x, t') \<Longrightarrow> P t \<Longrightarrow> P t'" for n t x t' using reg[of t n] by simp
  have refs: "P t \<Longrightarrow> P (snd (ref_step mem n i st t))" for i n st t
    by (cases st) (auto split: prod.splits expected.splits dest: b)
  have step: "P t \<Longrightarrow> P (snd (expr_step mem reg code i st t))" for i st t
    using refs[of t] by (auto simp: expr_step_def split: option.splits prod.splits expected.splits dest: g)
  show ?thesis
  proof (rule expr_run.raw_induct[where P = "\<lambda>m r c pc st s y. m = mem \<and> r = reg \<and> c = code \<and> P s \<longrightarrow> P (snd y)",
      THEN mp, of mem reg code pc st s "(r, s')", simplified], goal_cases)
    case (1 run m g c i st t y)
    then show ?case using step[of t i st]
      by (cases y) (auto split: prod.splits expected.splits flow.splits)
  qed (use assms in simp_all)
qed

end
