(* ===== verification/GdbXml.thy ===== *)
theory GdbXml
  imports Accessor Response
begin

text \<open>
  \<open>lib/include/gdb-stub/gdb-xml.hpp\<close> and \<open>lib/gdb-stub/gdb-xml.cpp\<close>, with the metadata of
  \<open>core/csr.hpp\<close> it prints: the target description the host reads with \<open>qXfer:features:read\<close>. Two of
  the three files are converted to byte arrays by the build, so they are parameters here, which the
  theory \<open>Description\<close> instantiates; the third is generated from the metadata.
\<close>

section \<open>CSR metadata\<close>

datatype csr_type = Int_type | Data_ptr | Code_ptr

record csr_metadata =
  cm_address :: u16
  cm_name :: string
  cm_type :: csr_type

definition csr_meta :: "u16 \<Rightarrow> string \<Rightarrow> csr_type \<Rightarrow> csr_metadata" where
  "csr_meta address name ty = \<lparr>cm_address = address, cm_name = name, cm_type = ty\<rparr>"

text \<open>The constants the classes declare.\<close>

definition mvendorid_metadata :: csr_metadata where
  "mvendorid_metadata = csr_meta 0xF11 ''mvendorid'' Int_type"

definition marchid_metadata :: csr_metadata where
  "marchid_metadata = csr_meta 0xF12 ''marchid'' Int_type"

definition mimpid_metadata :: csr_metadata where
  "mimpid_metadata = csr_meta 0xF13 ''mimpid'' Int_type"

definition mhartid_metadata :: csr_metadata where
  "mhartid_metadata = csr_meta 0xF14 ''mhartid'' Int_type"

definition mconfigptr_metadata :: csr_metadata where
  "mconfigptr_metadata = csr_meta 0xF15 ''mconfigptr'' Data_ptr"

definition misa_metadata :: csr_metadata where
  "misa_metadata = csr_meta 0x301 ''misa'' Int_type"

definition mscratch_metadata :: csr_metadata where
  "mscratch_metadata = csr_meta 0x340 ''mscratch'' Int_type"

definition mcycle_metadata :: csr_metadata where
  "mcycle_metadata = csr_meta 0xB00 ''mcycle'' Int_type"

definition mcycleh_metadata :: csr_metadata where
  "mcycleh_metadata = csr_meta 0xB80 ''mcycleh'' Int_type"

definition minstret_metadata :: csr_metadata where
  "minstret_metadata = csr_meta 0xB02 ''minstret'' Int_type"

definition minstreth_metadata :: csr_metadata where
  "minstreth_metadata = csr_meta 0xB82 ''minstreth'' Int_type"

definition mstatus_metadata :: csr_metadata where
  "mstatus_metadata = csr_meta 0x300 ''mstatus'' Int_type"

definition mstatush_metadata :: csr_metadata where
  "mstatush_metadata = csr_meta 0x310 ''mstatush'' Int_type"

definition mepc_metadata :: csr_metadata where
  "mepc_metadata = csr_meta 0x341 ''mepc'' Code_ptr"

definition mcause_metadata :: csr_metadata where
  "mcause_metadata = csr_meta 0x342 ''mcause'' Int_type"

definition mtval_metadata :: csr_metadata where
  "mtval_metadata = csr_meta 0x343 ''mtval'' Int_type"

definition mip_metadata :: csr_metadata where
  "mip_metadata = csr_meta 0x344 ''mip'' Int_type"

definition mie_metadata :: csr_metadata where
  "mie_metadata = csr_meta 0x304 ''mie'' Int_type"

definition mtvec_metadata :: csr_metadata where
  "mtvec_metadata = csr_meta 0x305 ''mtvec'' Int_type"

definition csr_metadata_set :: "csr_metadata list" where
  "csr_metadata_set =
     [mvendorid_metadata, marchid_metadata, mimpid_metadata, mhartid_metadata,
      mconfigptr_metadata, misa_metadata, mscratch_metadata, mcycle_metadata,
      mcycleh_metadata, minstret_metadata, minstreth_metadata, mstatus_metadata,
      mstatush_metadata, mepc_metadata, mcause_metadata, mtval_metadata,
      mip_metadata, mie_metadata, mtvec_metadata]"

lemmas csr_metadata_defs = mvendorid_metadata_def marchid_metadata_def mimpid_metadata_def mhartid_metadata_def mconfigptr_metadata_def
  misa_metadata_def mscratch_metadata_def mcycle_metadata_def mcycleh_metadata_def minstret_metadata_def
  minstreth_metadata_def mstatus_metadata_def mstatush_metadata_def mepc_metadata_def mcause_metadata_def
  mtval_metadata_def mip_metadata_def mie_metadata_def mtvec_metadata_def
  csr_meta_def

text \<open>The view of the set in the order of the addresses.\<close>

definition csr_metadata_by_address :: "csr_metadata list" where
  "csr_metadata_by_address = sort_key (\<lambda>meta. unat (cm_address meta)) csr_metadata_set"

section \<open>The generated file\<close>

primrec type_to_str :: "csr_type \<Rightarrow> string" where
  "type_to_str Int_type = ''int''"
| "type_to_str Code_ptr = ''code_ptr''"
| "type_to_str Data_ptr = ''data_ptr''"

definition quote :: "string \<Rightarrow> string" where
  "quote s = CHR 0x22 # s @ [CHR 0x22]"

definition to_xml :: "csr_metadata \<Rightarrow> string" where
  "to_xml meta =
     ''<reg name='' @ quote (cm_name meta) @ '' bitsize='' @ quote ''32'' @ '' type=''
     @ quote (type_to_str (cm_type meta)) @ '' regnum='' @ quote (dec_of_nat (unat (cm_address meta) + 128))
     @ ''/>'' @ [CHR 0x0A]"

definition gen_csr_registers :: string where
  "gen_csr_registers =
     ''<?xml version='' @ quote ''1.0'' @ ''?>'' @ ''<!DOCTYPE feature SYSTEM '' @ quote ''gdb-target.dtd'' @ ''>''
     @ ''<feature name='' @ quote ''org.gnu.gdb.riscv.csr'' @ ''>'' @ [CHR 0x0A]
     @ concat (map to_xml csr_metadata_by_address) @ ''</feature>'' @ [CHR 0x0A]"

definition bytes_of_text :: "string \<Rightarrow> u8 list" where
  "bytes_of_text s = map (\<lambda>c. of_char c) s"

section \<open>The files\<close>

record xml_files =
  xf_riscv_32bit_cpu :: "u8 list"
  xf_target :: "u8 list"

text \<open>The span of the generated text reaches one byte past its end, to the terminator.\<close>

definition gdb_xml_files :: "xml_files \<Rightarrow> (string \<times> u8 list) list" where
  "gdb_xml_files files =
     [(''riscv-32bit-cpu.xml'', xf_riscv_32bit_cpu files), (''target.xml'', xf_target files),
      (''riscv-32bit-csr-generated.xml'', bytes_of_text gen_csr_registers @ [0])]"

record xml_file_slice =
  xs_is_end :: bool
  xs_data :: "u8 list"

definition get_xml_file :: "xml_files \<Rightarrow> string \<Rightarrow> u64 \<Rightarrow> u64 \<Rightarrow> xml_file_slice option" where
  "get_xml_file files filename offset len =
     (case map_of (gdb_xml_files files) filename of
        None \<Rightarrow> None
      | Some span \<Rightarrow>
          Some \<lparr>xs_is_end = of_nat (length span) \<le> offset + len,
                xs_data = take (unat len) (drop (unat offset) span)\<rparr>)"

section \<open>The metadata describes the registers\<close>

lemma sorted_metadata:
  "sorted_wrt (\<lambda>m n. cm_address m < cm_address n) csr_metadata_by_address"
  by (simp add: csr_metadata_by_address_def csr_metadata_set_def csr_metadata_defs)

lemma set_metadata: "set csr_metadata_by_address = set csr_metadata_set"
  by (simp add: csr_metadata_by_address_def)

text \<open>The table holds the address of every CSR, and nothing else.\<close>

lemma metadata_complete:
  "csr_slot_of a \<noteq> None \<longleftrightarrow> (\<exists>m \<in> set csr_metadata_by_address. cm_address m = a)"
  unfolding set_metadata by (auto simp: csr_slot_of_def csr_metadata_set_def csr_metadata_defs split: if_splits)

section \<open>The host reads a whole file\<close>

text \<open>
  The host asks for slices of \<open>n\<close> bytes until the reply says that it was the last one. Each request
  moves the offset on, so as many requests as the file has bytes are enough.
\<close>

fun host_reads :: "(u32 \<Rightarrow> xml_file_slice option) \<Rightarrow> u32 \<Rightarrow> nat \<Rightarrow> u32 \<Rightarrow> u8 list option" where
  "host_reads get n 0 offset = None"
| "host_reads get n (Suc fuel) offset =
     (case get offset of
        None \<Rightarrow> None
      | Some part \<Rightarrow>
          if xs_is_end part then Some (xs_data part)
          else map_option (\<lambda>rest. xs_data part @ rest) (host_reads get n fuel (offset + n)))"

lemma slice_sum:
  fixes a b :: u32
  shows "unat (ucast a + ucast b :: u64) = unat a + unat b"
proof -
  have "unat a + unat b < 18446744073709551616"
    using unat_u32_less[of a] unat_u32_less[of b] by linarith
  then show ?thesis by (simp add: unat_word_ariths)
qed

lemma host_reads_slices:
  assumes get: "\<And>offset. unat offset \<le> length file \<Longrightarrow>
      get offset = Some \<lparr>xs_is_end = length file \<le> unat offset + unat n, xs_data = take (unat n) (drop (unat offset) file)\<rparr>"
    and n: "0 < n" "length file < 2 ^ 31" "unat n < 2 ^ 31"
    and "unat offset \<le> length file" "length file - unat offset < fuel"
  shows "host_reads get n fuel offset = Some (drop (unat offset) file)"
  using assms(5,6)
proof (induction fuel arbitrary: offset)
  case (Suc fuel)
  note g = get[OF Suc.prems(1)]
  show ?case
  proof (cases "length file \<le> unat offset + unat n")
    case True
    then show ?thesis using g by simp
  next
    case False
    have pos: "0 < unat n" using n(1) by (simp add: word_less_nat_alt)
    have u: "unat (offset + n) = unat offset + unat n"
      using False n(2) by (simp add: unat_word_ariths)
    have "host_reads get n fuel (offset + n) = Some (drop (unat (offset + n)) file)"
      using Suc.prems False pos by (intro Suc.IH) (simp_all add: u)
    then show ?thesis using g False
      by (simp add: u) (metis append_take_drop_id drop_drop add.commute)
  qed
qed simp

lemma get_xml_file_slice:
  assumes "map_of (gdb_xml_files files) name = Some file" "length file < 2 ^ 31"
  shows "get_xml_file files name (ucast (offset :: u32)) (ucast (n :: u32)) =
    Some \<lparr>xs_is_end = length file \<le> unat offset + unat n, xs_data = take (unat n) (drop (unat offset) file)\<rparr>"
proof -
  have "unat (of_nat (length file) :: u64) = length file"
    using assms(2) by (simp add: unsigned_of_nat take_bit_nat_eq_self)
  then show ?thesis using assms(1) by (simp add: get_xml_file_def word_le_nat_alt slice_sum)
qed

lemma host_reads_file:
  assumes "map_of (gdb_xml_files files) name = Some content" "0 < n" "length content < 2 ^ 31" "unat n < 2 ^ 31"
    and "unat offset \<le> length content" "length content - unat offset < fuel"
  shows "host_reads (\<lambda>a. get_xml_file files name (ucast a) (ucast n)) n fuel offset =
    Some (drop (unat offset) content)"
  using assms by (intro host_reads_slices get_xml_file_slice)

end
