(* ===== verification/Debugger.thy ===== *)
theory Debugger
  imports Emulator Network StopPoint GdbXml "HOL-Library.AList"
begin

text \<open>
  \<open>main/include/emulator-debug.hpp\<close> and \<open>main/src/emulator-debug.cpp\<close>: the emulator with the GDB stub.
  Each handler is an action on the state of the class. \<open>async_run\<close> starts a second thread that runs
  the emulator while the first one watches the network; the two share only the interrupt flag, which
  the second thread reads once per cycle. The schedule in the state says how many cycles the second
  thread gets between two observations of the first, so a statement about every state is one about
  every interleaving.
\<close>

unbundle bit_operations_syntax

section \<open>State\<close>

record debugger =
  db_emulator :: emulator
  db_network :: network
  db_hw_breakpoints :: "(u32 \<times> hw_breakpoint) list"
  db_watchpoints :: "(address_range \<times> watchpoint) list"
  db_xml_files :: xml_files
  db_memory_map_xml :: "u8 list"
  db_junk :: "nat \<Rightarrow> junk"
  db_schedule :: "nat \<Rightarrow> nat"

type_synonym 'a debug = "(debugger, 'a) action"

definition db_cpu :: "debugger \<Rightarrow> cpu" where
  "db_cpu d = em_cpu (db_emulator d)"

definition db_memory :: "debugger \<Rightarrow> platform_memory" where
  "db_memory d = em_memory (db_emulator d)"

definition put_cpu :: "cpu \<Rightarrow> debugger \<Rightarrow> debugger" where
  "put_cpu c d = d\<lparr>db_emulator := (db_emulator d)\<lparr>em_cpu := c\<rparr>\<rparr>"

definition put_memory :: "platform_memory \<Rightarrow> debugger \<Rightarrow> debugger" where
  "put_memory m d = d\<lparr>db_emulator := (db_emulator d)\<lparr>em_memory := m\<rparr>\<rparr>"

definition put_network :: "network \<Rightarrow> debugger \<Rightarrow> debugger" where
  "put_network n d = d\<lparr>db_network := n\<rparr>"

definition on_network :: "(network, 'a) action \<Rightarrow> 'a debug" where
  "on_network f = act_on_part db_network put_network f"

definition on_memory :: "(platform_memory \<Rightarrow> (exn + 'a) \<times> platform_memory) \<Rightarrow> 'a debug" where
  "on_memory f = on_part db_memory put_memory f"

definition on_cpu :: "(cpu \<Rightarrow> 'a \<times> cpu) \<Rightarrow> 'a debug" where
  "on_cpu f = on_part db_cpu put_cpu (\<lambda>c. case f c of (a, c) \<Rightarrow> (Inr a, c))"

text \<open>The constructor: the network handler listens, and no host is connected.\<close>

definition network_new :: "char \<times> char \<Rightarrow> net_read list \<Rightarrow> (nat \<Rightarrow> bool) \<Rightarrow> (nat \<Rightarrow> bool) \<Rightarrow> network" where
  "network_new buf reads write_ok accept_ok =
     \<lparr>nw_decoder = decoder_init buf, nw_connected = False, nw_reads = reads, nw_written = [], nw_accepted = 0,
      nw_write_ok = write_ok, nw_accept_ok = accept_ok\<rparr>"

definition debugger_new ::
  "emulator \<Rightarrow> network \<Rightarrow> xml_files \<Rightarrow> u8 list \<Rightarrow> (nat \<Rightarrow> junk) \<Rightarrow> (nat \<Rightarrow> nat) \<Rightarrow> debugger"
where
  "debugger_new emu n files memory_map j schedule =
     \<lparr>db_emulator = emu, db_network = n, db_hw_breakpoints = [], db_watchpoints = [], db_xml_files = files,
      db_memory_map_xml = memory_map, db_junk = j, db_schedule = schedule\<rparr>"

section \<open>Stop conditions\<close>

definition tick_cycle :: "cpu_result debug" where
  "tick_cycle d =
     (case tick_one_cycle (db_junk d 0) (db_emulator d) of
        (r, e) \<Rightarrow> Some (r, d\<lparr>db_emulator := e, db_junk := \<lambda>n. db_junk d (Suc n)\<rparr>))"

definition check_breakpoint :: "bool debug" where
  "check_breakpoint d =
     (case map_find (<) (cpu_pc (db_cpu d)) (db_hw_breakpoints d) of
        Inl x \<Rightarrow> Some (Inl x, d)
      | Inr None \<Rightarrow> Some (Inr False, d)
      | Inr (Some (_, bp)) \<Rightarrow>
          map_option (\<lambda>(r, c, m). (r, put_memory m (put_cpu c d)))
            (is_triggered_by platform_interface bp (db_cpu d, db_memory d)))"

text \<open>The pair says whether a read and whether a write was hit.\<close>

definition check_watchpoint :: "cpu_result \<Rightarrow> (bool \<times> bool) option debug" where
  "check_watchpoint result d =
     (if dr_memory_opcode result = Ls_None then Some (Inr None, d)
      else let is_write = dr_memory_opcode result = Ls_Store;
               is_read = dr_memory_opcode result = Ls_Load
           in case get_size (dr_memory_funct result) of
                Inl x \<Rightarrow> Some (Inl x, d)
              | Inr n \<Rightarrow>
                  (case map_find range_less \<lparr>ar_start = cr_alu_result result, ar_size = of_nat n\<rparr> (db_watchpoints d) of
                     Inl x \<Rightarrow> Some (Inl x, d)
                   | Inr None \<Rightarrow> Some (Inr None, d)
                   | Inr (Some (_, w)) \<Rightarrow>
                       if \<not> (is_write \<and> wp_watch_write w) \<and> \<not> (is_read \<and> wp_watch_read w) then Some (Inr None, d)
                       else Some (Inr (Some (is_read \<and> wp_watch_read w, is_write \<and> wp_watch_write w)), d)))"

section \<open>Running\<close>

text \<open>One turn of the loops of \<open>run_until_trap\<close> and \<open>run_steps\<close>, up to the test of the interrupt.\<close>

definition run_cycle :: "response option debug" where
  "run_cycle =
     and_do tick_cycle (\<lambda>result.
     and_do check_breakpoint (\<lambda>is_breakpoint.
     and_do (check_watchpoint result) (\<lambda>watchpoint_hit.
       if is_breakpoint then return_value (Some (stop_at_breakpoint True))
       else case watchpoint_hit of
              Some (is_read, is_write) \<Rightarrow>
                return_value (Some (stop_at_watchpoint (cr_alu_result result) is_write is_read))
            | None \<Rightarrow> return_value None)))"

text \<open>The \<open>n\<close>-th element of the sequence is what the \<open>n\<close>-th read of the interrupt flag gives.\<close>

partial_function (option) run_until_trap :: "(nat \<Rightarrow> bool) \<Rightarrow> debugger \<Rightarrow> ((exn + response) \<times> debugger) option" where
  "run_until_trap interrupt d =
     (case run_cycle d of
        None \<Rightarrow> None
      | Some (Inl x, d) \<Rightarrow> Some (Inl x, d)
      | Some (Inr (Some stop), d) \<Rightarrow> Some (Inr stop, d)
      | Some (Inr None, d) \<Rightarrow>
          if interrupt 0 then Some (Inr (stop_at_signal SIGINT), d)
          else run_until_trap (\<lambda>n. interrupt (Suc n)) d)"

primrec run_steps :: "nat \<Rightarrow> (nat \<Rightarrow> bool) \<Rightarrow> response debug" where
  "run_steps 0 interrupt d = Some (Inr (stop_at_signal SIGTRAP), d)"
| "run_steps (Suc cycle_count) interrupt d =
     (case run_cycle d of
        None \<Rightarrow> None
      | Some (Inl x, d) \<Rightarrow> Some (Inl x, d)
      | Some (Inr (Some stop), d) \<Rightarrow> Some (Inr stop, d)
      | Some (Inr None, d) \<Rightarrow>
          if interrupt 0 then Some (Inr (stop_at_signal SIGINT), d)
          else run_steps cycle_count (\<lambda>n. interrupt (Suc n)) d)"

text \<open>The function the second thread runs; \<open>None\<close> is no limit.\<close>

definition run_func :: "nat option \<Rightarrow> (nat \<Rightarrow> bool) \<Rightarrow> response debug" where
  "run_func limit = (case limit of None \<Rightarrow> run_until_trap | Some n \<Rightarrow> run_steps n)"

text \<open>The second thread between two cycles: the cycles left, or its result.\<close>

datatype worker = Running "nat option" | Finished "exn + response"

definition worker_cycle :: "bool \<Rightarrow> worker \<Rightarrow> debugger \<Rightarrow> (worker \<times> debugger) option" where
  "worker_cycle interrupt w d =
     (case w of
        Finished r \<Rightarrow> Some (Finished r, d)
      | Running limit \<Rightarrow>
          if limit = Some 0 then Some (Finished (Inr (stop_at_signal SIGTRAP)), d)
          else case run_cycle d of
                 None \<Rightarrow> None
               | Some (Inl x, d) \<Rightarrow> Some (Finished (Inl x), d)
               | Some (Inr (Some stop), d) \<Rightarrow> Some (Finished (Inr stop), d)
               | Some (Inr None, d) \<Rightarrow>
                   if interrupt then Some (Finished (Inr (stop_at_signal SIGINT)), d)
                   else Some (Running (map_option (\<lambda>n. n - 1) limit), d))"

primrec worker_cycles :: "nat \<Rightarrow> bool \<Rightarrow> worker \<Rightarrow> debugger \<Rightarrow> (worker \<times> debugger) option" where
  "worker_cycles 0 interrupt w d = Some (w, d)"
| "worker_cycles (Suc k) interrupt w d =
     (case worker_cycle interrupt w d of None \<Rightarrow> None | Some (w, d) \<Rightarrow> worker_cycles k interrupt w d)"

text \<open>As many cycles as the schedule says next.\<close>

definition worker_runs :: "bool \<Rightarrow> worker \<Rightarrow> debugger \<Rightarrow> (worker \<times> debugger) option" where
  "worker_runs interrupt w d =
     worker_cycles (db_schedule d 0) interrupt w (d\<lparr>db_schedule := \<lambda>n. db_schedule d (Suc n)\<rparr>)"

text \<open>The destructor of the future waits for the thread to end.\<close>

definition finish_worker :: "bool \<Rightarrow> worker \<Rightarrow> unit debug" where
  "finish_worker interrupt w d =
     (case w of
        Finished _ \<Rightarrow> Some (Inr (), d)
      | Running limit \<Rightarrow> map_option (\<lambda>(_, d). (Inr (), d)) (run_func limit (\<lambda>_. interrupt) d))"

definition send_response :: "response \<Rightarrow> unit debug" where
  "send_response response =
     and_do (on_network (net_send response)) (\<lambda>r. case r of
       Inl _ \<Rightarrow> on_network (change net_close)
     | Inr _ \<Rightarrow> return_value ())"

text \<open>The loop of \<open>async_run\<close>: wait for the result, then look for a command.\<close>

partial_function (option) async_loop :: "worker \<Rightarrow> bool \<Rightarrow> debugger \<Rightarrow> ((exn + unit) \<times> debugger) option" where
  "async_loop w interrupt d =
     (case worker_runs interrupt w d of
        None \<Rightarrow> None
      | Some (Finished (Inl x), d) \<Rightarrow> Some (Inl x, d)
      | Some (Finished (Inr stop), d) \<Rightarrow> send_response stop d
      | Some (Running limit, d) \<Rightarrow>
          (case on_network net_receive d of
             None \<Rightarrow> None
           | Some (Inl x, d) \<Rightarrow> Some (Inl x, d)
           | Some (Inr r, d) \<Rightarrow>
               (case worker_runs interrupt (Running limit) d of
                  None \<Rightarrow> None
                | Some (w, d) \<Rightarrow>
                    (case r of
                       Inl _ \<Rightarrow> async_loop w interrupt d
                     | Inr cmd \<Rightarrow>
                         if cmd = Interrupt_packet \<or> cmd = Ask_halt_reason then async_loop w True d
                         else and_do (on_network (change net_close)) (\<lambda>_. finish_worker interrupt w) d))))"

definition async_run :: "nat option \<Rightarrow> unit debug" where
  "async_run limit = async_loop (Running limit) False"

section \<open>The handlers\<close>

definition handle_qsupport :: "unit debug" where
  "handle_qsupport = send_response Qsupported_response"

definition handle_qxfer_feature :: "string \<Rightarrow> u32 \<Rightarrow> u32 \<Rightarrow> unit debug" where
  "handle_qxfer_feature annex offset len =
     and_do (read_state db_xml_files) (\<lambda>files.
       case get_xml_file files annex (ucast offset) (ucast len) of
         None \<Rightarrow> send_response (Error_message (''Unknown annex: '' @ annex))
       | Some part \<Rightarrow> send_response (Qxfer_response (xs_is_end part) (xs_data part)))"

text \<open>The end of the slice is computed with 32 bits.\<close>

definition handle_qxfer_memory_map :: "u32 \<Rightarrow> u32 \<Rightarrow> unit debug" where
  "handle_qxfer_memory_map offset len =
     and_do (read_state db_memory_map_xml) (\<lambda>xml.
       send_response (Qxfer_response (length xml \<le> unat (offset + len)) (take (unat len) (drop (unat offset) xml))))"

definition handle_query :: "unit debug" where
  "handle_query = send_response (stop_at_signal SIGINT)"

definition handle_mem_read :: "u32 \<Rightarrow> u32 \<Rightarrow> unit debug" where
  "handle_mem_read address len =
     and_do (on_memory (mem_read_bytes platform_interface address (unat len)))
       (\<lambda>data. send_response (Raw_byte_stream data))"

definition handle_mem_write :: "u32 \<Rightarrow> u8 list \<Rightarrow> unit debug" where
  "handle_mem_write address data =
     and_do (on_memory (mem_write_bytes platform_interface address data))
       (\<lambda>ok. send_response (if ok then OK else Error_code 0))"

primrec read_registers :: "u16 list \<Rightarrow> cpu \<Rightarrow> u32 option list \<times> cpu" where
  "read_registers [] c = ([], c)"
| "read_registers (regno # regnos) c =
     (case cpu_register_read (ucast regno) c of
        (v, c) \<Rightarrow> (case read_registers regnos c of (vs, c) \<Rightarrow> (v # vs, c)))"

definition regnums :: "u16 list" where
  "regnums = map of_nat [0..<33] @ map (\<lambda>meta. cm_address meta + 128) csr_metadata_by_address"

definition handle_reg_read :: "unit debug" where
  "handle_reg_read = and_do (on_cpu (read_registers regnums)) (\<lambda>vs. send_response (Register_content vs))"

text \<open>The loop goes through the map in the order of its keys.\<close>

definition in_key_order :: "(u16 \<times> u32) list \<Rightarrow> (u16 \<times> u32) list" where
  "in_key_order values = sort_key fst (AList.clearjunk values)"

definition write_registers :: "(u16 \<times> u32) list \<Rightarrow> cpu \<Rightarrow> cpu" where
  "write_registers values c = fold (\<lambda>(regno, v) c. snd (cpu_register_write (ucast regno) v c)) (in_key_order values) c"

definition handle_reg_write :: "(u16 \<times> u32) list \<Rightarrow> unit debug" where
  "handle_reg_write values = and_do (on_cpu (\<lambda>c. ((), write_registers values c))) (\<lambda>_. send_response OK)"

definition handle_single_reg_read :: "u32 \<Rightarrow> unit debug" where
  "handle_single_reg_read regno =
     and_do (on_cpu (cpu_register_read regno)) (\<lambda>v. send_response (Single_register_content v))"

definition handle_single_reg_write :: "u32 \<Rightarrow> u32 \<Rightarrow> unit debug" where
  "handle_single_reg_write regno v = and_do (on_cpu (cpu_register_write regno v)) (\<lambda>_. send_response OK)"

definition handle_add_breakpoint :: "bool \<Rightarrow> u32 \<Rightarrow> u32 \<Rightarrow> u8 list option \<Rightarrow> unit debug" where
  "handle_add_breakpoint is_hardware address len cond =
     (if \<not> is_hardware then send_response Unsupported_command
      else if len \<noteq> 4 then send_response (Error_message ''Only 4-byte breakpoints are supported'')
      else and_do (read_state (\<lambda>d. map_emplace (<) address (breakpoint_from address cond) (db_hw_breakpoints d)))
             (\<lambda>r. case r of
                Inl x \<Rightarrow> throw x
              | Inr m \<Rightarrow> seq (change (\<lambda>d. d\<lparr>db_hw_breakpoints := m\<rparr>)) (send_response OK)))"

definition handle_remove_breakpoint :: "bool \<Rightarrow> u32 \<Rightarrow> unit debug" where
  "handle_remove_breakpoint is_hardware address =
     (if \<not> is_hardware then send_response Unsupported_command
      else and_do (read_state (\<lambda>d. map_find (<) address (db_hw_breakpoints d))) (\<lambda>r. case r of
             Inl x \<Rightarrow> throw x
           | Inr None \<Rightarrow> send_response (Error_message ''No such breakpoint'')
           | Inr (Some _) \<Rightarrow>
               seq (change (\<lambda>d. d\<lparr>db_hw_breakpoints := map_erase (<) address (db_hw_breakpoints d)\<rparr>))
                 (send_response OK)))"

definition handle_add_watchpoint :: "bool \<Rightarrow> bool \<Rightarrow> u32 \<Rightarrow> u32 \<Rightarrow> unit debug" where
  "handle_add_watchpoint watch_write watch_read address len =
     (if len = 0 then send_response (Error_message ''Watchpoint length must be greater than 0'')
      else if \<not> watch_read \<and> \<not> watch_write
      then send_response (Error_message ''Watchpoint must watch read or write'')
      else let r = \<lparr>ar_start = address, ar_size = len\<rparr>
           in and_do (read_state (\<lambda>d. map_emplace range_less r
                  \<lparr>wp_watch_write = watch_write, wp_watch_read = watch_read, wp_addr_range = r\<rparr> (db_watchpoints d)))
                (\<lambda>q. case q of
                   Inl x \<Rightarrow> throw x
                 | Inr m \<Rightarrow> seq (change (\<lambda>d. d\<lparr>db_watchpoints := m\<rparr>)) (send_response OK)))"

definition handle_remove_watchpoint :: "u32 \<Rightarrow> u32 \<Rightarrow> unit debug" where
  "handle_remove_watchpoint address len =
     (let r = \<lparr>ar_start = address, ar_size = len\<rparr>
      in and_do (read_state (\<lambda>d. map_find range_less r (db_watchpoints d))) (\<lambda>q. case q of
           Inl x \<Rightarrow> throw x
         | Inr None \<Rightarrow> send_response (Error_message ''No such watchpoint'')
         | Inr (Some _) \<Rightarrow>
             seq (change (\<lambda>d. d\<lparr>db_watchpoints := map_erase range_less r (db_watchpoints d)\<rparr>)) (send_response OK)))"

definition set_pc :: "u32 option \<Rightarrow> unit debug" where
  "set_pc address =
     (case address of
        None \<Rightarrow> return_value ()
      | Some a \<Rightarrow> change (\<lambda>d. put_cpu ((db_cpu d)\<lparr>cpu_pc := a\<rparr>) d))"

definition handle_continue :: "u32 option \<Rightarrow> unit debug" where
  "handle_continue address = seq (set_pc address) (async_run None)"

definition handle_step :: "u32 option \<Rightarrow> unit debug" where
  "handle_step address = seq (set_pc address) (async_run (Some 1))"

definition handle_step_single_cycles :: "u32 option \<Rightarrow> u32 option \<Rightarrow> unit debug" where
  "handle_step_single_cycles address cycle_count =
     seq (set_pc address) (async_run (Some (case cycle_count of None \<Rightarrow> 1 | Some n \<Rightarrow> unat n)))"

section \<open>The command loop\<close>

text \<open>The table of handlers; a command that is not in it is special.\<close>

definition command_handler :: "command \<Rightarrow> unit debug option" where
  "command_handler cmd =
     (case cmd of
        Query_supported _ \<Rightarrow> Some handle_qsupport
      | Read_feature_xml annex offset len \<Rightarrow> Some (handle_qxfer_feature annex offset len)
      | Read_memory_map_xml offset len \<Rightarrow> Some (handle_qxfer_memory_map offset len)
      | Ask_halt_reason \<Rightarrow> Some handle_query
      | Read_memory address len \<Rightarrow> Some (handle_mem_read address len)
      | Write_memory address data \<Rightarrow> Some (handle_mem_write address data)
      | Read_register \<Rightarrow> Some handle_reg_read
      | Write_register values \<Rightarrow> Some (handle_reg_write values)
      | Read_single_register regno \<Rightarrow> Some (handle_single_reg_read regno)
      | Write_single_register regno v \<Rightarrow> Some (handle_single_reg_write regno v)
      | Continue address \<Rightarrow> Some (handle_continue address)
      | Step_single_inst address \<Rightarrow> Some (handle_step address)
      | Step_cycles address n \<Rightarrow> Some (handle_step_single_cycles address n)
      | Add_breakpoint hw address len cond \<Rightarrow> Some (handle_add_breakpoint hw address len cond)
      | Remove_breakpoint hw address len \<Rightarrow> Some (handle_remove_breakpoint hw address)
      | Add_watchpoint w r address len \<Rightarrow> Some (handle_add_watchpoint w r address len)
      | Remove_watchpoint w r address len \<Rightarrow> Some (handle_remove_watchpoint address len)
      | _ \<Rightarrow> None)"

datatype special_command_handle_result = Unhandled | Special_continue | Special_stop

definition handle_special_commands :: "command \<Rightarrow> special_command_handle_result debug" where
  "handle_special_commands cmd =
     (case cmd of
        Acknowledge_packet _ \<Rightarrow> return_value Special_continue
      | Restart \<Rightarrow>
          seq (on_memory (\<lambda>m. (Inr (), m\<lparr>pm_ram := reset_content (pm_ram m)\<rparr>))) (return_value Special_continue)
      | Stop \<Rightarrow> return_value Special_stop
      | _ \<Rightarrow> return_value Unhandled)"

text \<open>One turn of the loop of \<open>run\<close>; the result says whether there is another one.\<close>

definition serve_command :: "command \<Rightarrow> bool debug" where
  "serve_command cmd =
     (case command_handler cmd of
        Some handler \<Rightarrow> seq handler (return_value True)
      | None \<Rightarrow>
          and_do (handle_special_commands cmd) (\<lambda>r. case r of
            Unhandled \<Rightarrow> seq (on_network (change net_close)) (return_value False)
          | Special_continue \<Rightarrow> return_value True
          | Special_stop \<Rightarrow> return_value False))"

definition run_turn :: "bool debug" where
  "run_turn =
     and_do (on_network net_receive) (\<lambda>r. case r of
       Inl e \<Rightarrow>
         (case e of
            Internal_fail \<Rightarrow> seq (on_network (change net_close)) (return_value False)
          | Connection_fault \<Rightarrow> seq (on_network (change net_close)) (return_value True)
          | Protocol_fail \<Rightarrow> seq (on_network (change net_close)) (return_value True)
          | Decode_fail \<Rightarrow> seq (send_response Unsupported_command) (return_value True)
          | Protocol_retry \<Rightarrow> return_value True)
     | Inr cmd \<Rightarrow> serve_command cmd)"

partial_function (option) debugger_run :: "debugger \<Rightarrow> ((exn + unit) \<times> debugger) option" where
  "debugger_run d =
     (case run_turn d of
        None \<Rightarrow> None
      | Some (Inl x, d) \<Rightarrow> Some (Inl x, d)
      | Some (Inr again, d) \<Rightarrow> if again then debugger_run d else Some (Inr (), d))"

section \<open>The invariant\<close>

definition debugger_inv :: "debugger \<Rightarrow> bool" where
  "debugger_inv d \<longleftrightarrow>
     emu_inv (db_emulator d) \<and> net_inv (db_network d)
     \<and> keys_sorted (<) (\<lambda>_. True) (db_hw_breakpoints d)
     \<and> (\<forall>(a, bp) \<in> set (db_hw_breakpoints d). hb_address bp = a)
     \<and> keys_sorted range_less (\<lambda>_. True) (db_watchpoints d)
     \<and> (\<forall>(r, w) \<in> set (db_watchpoints d).
          wp_addr_range w = r \<and> ar_size r \<noteq> 0 \<and> (wp_watch_write w \<or> wp_watch_read w))"

lemma debugger_new_inv: "emu_inv e \<Longrightarrow> debugger_inv (debugger_new e (network_new buf rs wok aok) files xml j sched)"
  by (simp add: debugger_inv_def debugger_new_def network_new_def net_inv_def decoder_init_inv keys_sorted_def)

lemma tick_inv: "emu_inv e \<Longrightarrow> tick_one_cycle j e = (r, e') \<Longrightarrow> emu_inv e'"
proof -
  assume inv: "emu_inv e" and t: "tick_one_cycle j e = (r, e')"
  obtain q s m where q: "cpu_step platform_interface j (em_cpu e) (em_memory e) = (q, s, m)"
    by (cases "cpu_step platform_interface j (em_cpu e) (em_memory e)") auto
  have "cpu_inv s" using cpu_step_inv[OF _ q] inv by (simp add: emu_inv_def)
  moreover have "platform_inv m"
  proof -
    obtain q' s' where "execute platform_interface j (em_cpu e) (em_memory e) = (q', s', m)"
      using q by (auto simp: cpu_step_def Let_def split: prod.splits sum.splits)
    then show ?thesis using plat.execute_device_inv inv by (auto simp: emu_inv_def)
  qed
  ultimately show ?thesis using t q
    by (auto simp: tick_one_cycle_def emu_inv_def cpu_inv_def Let_def split: sum.splits prod.splits)
qed

lemma part_simps [simp]:
  "db_cpu (put_cpu c d) = c" "db_memory (put_cpu c d) = db_memory d"
  "db_cpu (put_memory m d) = db_cpu d" "db_memory (put_memory m d) = m"
  "db_network (put_cpu c d) = db_network d" "db_network (put_memory m d) = db_network d"
  "db_cpu (put_network n d) = db_cpu d" "db_memory (put_network n d) = db_memory d"
  "db_network (put_network n d) = n"
  "db_hw_breakpoints (put_cpu c d) = db_hw_breakpoints d" "db_hw_breakpoints (put_memory m d) = db_hw_breakpoints d"
  "db_hw_breakpoints (put_network n d) = db_hw_breakpoints d"
  "db_watchpoints (put_cpu c d) = db_watchpoints d" "db_watchpoints (put_memory m d) = db_watchpoints d"
  "db_watchpoints (put_network n d) = db_watchpoints d"
  by (simp_all add: db_cpu_def db_memory_def put_cpu_def put_memory_def put_network_def)

text \<open>The invariant by the parts of the state.\<close>

lemma debugger_inv_put:
  "debugger_inv d \<Longrightarrow> cpu_inv c \<Longrightarrow> debugger_inv (put_cpu c d)"
  "debugger_inv d \<Longrightarrow> platform_inv m \<Longrightarrow> debugger_inv (put_memory m d)"
  "debugger_inv d \<Longrightarrow> net_inv n \<Longrightarrow> debugger_inv (put_network n d)"
  by (simp_all add: debugger_inv_def emu_inv_def put_cpu_def put_memory_def put_network_def)

lemma debugger_invD:
  assumes "debugger_inv d"
  shows "cpu_inv (db_cpu d)" "platform_inv (db_memory d)" "net_inv (db_network d)"
  using assms by (simp_all add: debugger_inv_def emu_inv_def db_cpu_def db_memory_def)

lemma on_parts_keep [keeps]:
  "preserves net_inv f \<Longrightarrow> preserves debugger_inv (on_network f)"
  "(\<And>c. cpu_inv c \<Longrightarrow> cpu_inv (snd (g c))) \<Longrightarrow> preserves debugger_inv (on_cpu g)"
  "(\<And>m. platform_inv m \<Longrightarrow> platform_inv (snd (h m))) \<Longrightarrow> preserves debugger_inv (on_memory h)"
proof -
  show "preserves debugger_inv (on_network f)" if "preserves net_inv f" for f :: "(network, 'a) action"
    unfolding on_network_def using that
    by (rule preserves_act_on_part[of _ net_inv, rotated 2]) (simp_all add: debugger_inv_put debugger_invD)
  show "preserves debugger_inv (on_cpu g)" if "\<And>c. cpu_inv c \<Longrightarrow> cpu_inv (snd (g c))" for g :: "cpu \<Rightarrow> 'b \<times> cpu"
    unfolding on_cpu_def
    by (rule preserves_on_part) (simp add: debugger_inv_put debugger_invD that case_prod_beta)
  show "preserves debugger_inv (on_memory h)" if "\<And>m. platform_inv m \<Longrightarrow> platform_inv (snd (h m))"
    for h :: "platform_memory \<Rightarrow> (exn + 'c) \<times> platform_memory"
    unfolding on_memory_def by (rule preserves_on_part) (simp add: debugger_inv_put debugger_invD that)
qed

lemma tick_cycle_keeps [keeps]: "preserves debugger_inv tick_cycle"
proof (rule preservesI)
  fix d r d' assume inv: "debugger_inv d" and t: "tick_cycle d = Some (r, d')"
  then obtain e where e: "tick_one_cycle (db_junk d 0) (db_emulator d) = (r, e)"
    "d' = d\<lparr>db_emulator := e, db_junk := \<lambda>n. db_junk d (Suc n)\<rparr>"
    by (auto simp: tick_cycle_def split: prod.splits)
  have "emu_inv e" using tick_inv[OF _ e(1)] inv by (simp add: debugger_inv_def)
  then show "debugger_inv d'" using inv by (simp add: e(2) debugger_inv_def)
qed

lemma check_breakpoint_keeps [keeps]: "preserves debugger_inv check_breakpoint"
proof (rule preservesI)
  fix d r d' assume inv: "debugger_inv d" and c: "check_breakpoint d = Some (r, d')"
  let ?P = "\<lambda>s :: cpu \<times> platform_memory. cpu_inv (fst s) \<and> platform_inv (snd s)"
  have t: "?P (db_cpu d, db_memory d)" using debugger_invD[OF inv] by simp
  have "?P (k, m)" if "is_triggered_by platform_interface bp (db_cpu d, db_memory d) = Some (q, k, m)" for bp q k m
  proof -
    have mem: "?P (snd (memory_access_of platform_interface a s))" if "?P s" for a s
      using that plat.debugger_memory_inv(3)[of "snd s" a]
      by (simp add: memory_access_of_def split: prod.split) (metis snd_conv)
    have reg: "?P (snd (register_access_of n s))" if "?P s" for n and s :: "cpu \<times> platform_memory"
      using that cpu_register_read_inv[of "fst s" n]
      by (auto simp: register_access_of_def split: prod.split option.split)
    show ?thesis
    proof (cases "\<exists>code. cpu_pc (db_cpu d) = hb_address bp \<and> hb_cond bp = Some code")
      case True
      then obtain code where "cpu_pc (db_cpu d) = hb_address bp" "hb_cond bp = Some code" by blast
      with that obtain z where "expr_run (memory_access_of platform_interface) register_access_of code 0 []
          (db_cpu d, db_memory d) = Some (z, k, m)"
        by (auto simp: is_triggered_by_def expr_execute_def)
      then show ?thesis by (rule expr_run_preserves[of _ _ _ _ _ _ _ _ ?P, OF _ t mem reg])
    next
      case False
      then show ?thesis using that t by (auto simp: is_triggered_by_def split: if_splits option.splits)
    qed
  qed
  with c inv show "debugger_inv d'"
    by (auto simp: check_breakpoint_def debugger_inv_put split: sum.splits option.splits)
qed

lemma check_watchpoint_pure: "check_watchpoint result d = Some (r, d') \<Longrightarrow> d' = d"
  by (auto simp: check_watchpoint_def Let_def split: if_splits sum.splits option.splits)

lemma check_watchpoint_keeps [keeps]: "preserves debugger_inv (check_watchpoint result)"
  by (rule preservesI) (auto dest!: check_watchpoint_pure)

lemma run_cycle_keeps [keeps]: "preserves debugger_inv run_cycle"
  unfolding run_cycle_def by (intro keeps) (auto intro!: keeps split: option.split)

lemma run_until_trap_keeps [keeps]: "preserves debugger_inv (run_until_trap i)"
proof (rule preservesI)
  fix d r d' assume inv: "debugger_inv d" and run: "run_until_trap i d = Some (r, d')"
  show "debugger_inv d'"
  proof (rule run_until_trap.raw_induct[where P = "\<lambda>i d y. debugger_inv d \<longrightarrow> debugger_inv (snd y)",
      THEN mp, of i d "(r, d')", simplified], goal_cases)
    case (1 run i d y)
    then show ?case
      by (cases y) (auto split: option.splits sum.splits if_splits dest: preservesD[OF run_cycle_keeps])
  qed (use inv run in simp_all)
qed

lemma run_steps_keeps [keeps]: "preserves debugger_inv (run_steps n i)"
proof (rule preservesI)
  fix d r d' assume "debugger_inv d" "run_steps n i d = Some (r, d')"
  then show "debugger_inv d'"
    by (induction n arbitrary: i d)
      (auto split: option.splits sum.splits if_splits dest: preservesD[OF run_cycle_keeps])
qed

lemma worker_cycles_keep: "debugger_inv d \<Longrightarrow> worker_cycles k i w d = Some (w', d') \<Longrightarrow> debugger_inv d'"
proof (induction k arbitrary: w d)
  case (Suc k)
  then obtain w1 d1 where w: "worker_cycle i w d = Some (w1, d1)" "worker_cycles k i w1 d1 = Some (w', d')"
    by (auto split: option.splits)
  have "debugger_inv d1" using w(1) Suc.prems(1)
    by (auto simp: worker_cycle_def split: worker.splits if_splits option.splits sum.splits dest: preservesD[OF run_cycle_keeps])
  then show ?case by (rule Suc.IH[OF _ w(2)])
qed simp

lemma worker_runs_keep: "worker_runs i w d = Some (w', d') \<Longrightarrow> debugger_inv d \<Longrightarrow> debugger_inv d'"
  unfolding worker_runs_def by (erule worker_cycles_keep[rotated]) (simp add: debugger_inv_def)

lemma send_response_keeps [keeps]: "preserves debugger_inv (send_response r)"
  unfolding send_response_def by (auto intro!: keeps split: sum.split)

lemma finish_worker_keeps [keeps]: "preserves debugger_inv (finish_worker i w)"
proof (rule preservesI)
  fix d r d' assume "debugger_inv d" "finish_worker i w d = Some (r, d')"
  then show "debugger_inv d'"
    by (auto simp: finish_worker_def run_func_def split: worker.splits option.splits
        dest: preservesD[OF run_until_trap_keeps] preservesD[OF run_steps_keeps])
qed

lemma async_loop_keeps [keeps]: "preserves debugger_inv (async_loop w i)"
proof (rule preservesI)
  fix d r d' assume inv: "debugger_inv d" and run: "async_loop w i d = Some (r, d')"
  have c: "preserves debugger_inv (and_do (on_network (change net_close)) (\<lambda>_. finish_worker i w))" for i w
    by (intro keeps)
  have n: "preserves debugger_inv (on_network net_receive)" by (intro keeps)
  show "debugger_inv d'"
  proof (rule async_loop.raw_induct[where P = "\<lambda>w i d y. debugger_inv d \<longrightarrow> debugger_inv (snd y)",
      THEN mp, of w i d "(r, d')", simplified], goal_cases)
    case (1 run w i d y)
    then show ?case
      by (cases y) (auto split: option.splits sum.splits if_splits worker.splits
          dest!: worker_runs_keep preservesD[OF send_response_keeps] preservesD[OF c] preservesD[OF n])
  qed (use inv run in simp_all)
qed


section \<open>Every command keeps the invariant\<close>

lemma mem_access_inv:
  "platform_inv m \<Longrightarrow> platform_inv (snd (mem_read_bytes platform_interface a n m))"
  "platform_inv m \<Longrightarrow> platform_inv (snd (mem_write_bytes platform_interface a data m))"
  by (simp_all add: mem_read_bytes_def mem_write_bytes_def plat.debugger_memory_inv)

lemma read_registers_inv: "cpu_inv c \<Longrightarrow> cpu_inv (snd (read_registers ns c))"
proof (induction ns arbitrary: c)
  case (Cons n ns)
  from Cons.IH[OF cpu_register_read_inv[OF Cons.prems, of "ucast n"]] show ?case
    by (simp add: case_prod_beta)
qed simp

lemma write_registers_inv: "cpu_inv c \<Longrightarrow> cpu_inv (write_registers values c)"
  unfolding write_registers_def
  by (rule fold_invariant[where Q = "\<lambda>_. True"]) (auto simp: cpu_register_write_inv)

lemma reset_ram_inv: "platform_inv m \<Longrightarrow> platform_inv (m\<lparr>pm_ram := reset_content (pm_ram m)\<rparr>)"
  by (simp add: platform_inv_def block_inv_def reset_content_def)

lemma breakpoints_keep [keeps]:
  "preserves debugger_inv (handle_add_breakpoint hw a len cond)" "preserves debugger_inv (handle_remove_breakpoint hw a)"
proof (rule preservesI)
  fix d r d' assume inv: "debugger_inv d" and h: "handle_add_breakpoint hw a len cond d = Some (r, d')"
  have bs: "keys_sorted (<) (\<lambda>_. True) (db_hw_breakpoints d)" using inv by (simp add: debugger_inv_def)
  have new: "debugger_inv (d\<lparr>db_hw_breakpoints := m\<rparr>)"
    if "map_emplace (<) a (breakpoint_from a cond) (db_hw_breakpoints d) = Inr m" for m
    using emplace_keeps_sorted[OF bs that] inv by (auto simp: debugger_inv_def breakpoint_from_def)
  show "debugger_inv d'"
    using h inv by (auto simp: handle_add_breakpoint_def throw_def split: if_splits sum.splits
        dest: preservesD[OF send_response_keeps] new)
next
  show "preserves debugger_inv (handle_remove_breakpoint hw a)"
  proof (rule preservesI)
    fix d r d' assume inv: "debugger_inv d" and h: "handle_remove_breakpoint hw a d = Some (r, d')"
    have bs: "keys_sorted (<) (\<lambda>_. True) (db_hw_breakpoints d)" using inv by (simp add: debugger_inv_def)
    have "debugger_inv (d\<lparr>db_hw_breakpoints := map_erase (<) a (db_hw_breakpoints d)\<rparr>)"
      using erase_keeps_sorted[OF bs, of a] inv by (auto simp: debugger_inv_def)
    then show "debugger_inv d'"
      using h inv by (auto simp: handle_remove_breakpoint_def throw_def split: if_splits sum.splits option.splits
          dest: preservesD[OF send_response_keeps])
  qed
qed

lemma watchpoints_keep [keeps]:
  "preserves debugger_inv (handle_add_watchpoint w rd a len)" "preserves debugger_inv (handle_remove_watchpoint a len)"
proof (rule preservesI)
  fix d r d' assume inv: "debugger_inv d" and h: "handle_add_watchpoint w rd a len d = Some (r, d')"
  let ?k = "\<lparr>ar_start = a, ar_size = len\<rparr>"
  have ws: "keys_sorted range_less (\<lambda>_. True) (db_watchpoints d)" using inv by (simp add: debugger_inv_def)
  have new: "debugger_inv (d\<lparr>db_watchpoints := m\<rparr>)"
    if "map_emplace range_less ?k \<lparr>wp_watch_write = w, wp_watch_read = rd, wp_addr_range = ?k\<rparr> (db_watchpoints d) = Inr m"
      "len \<noteq> 0" "w \<or> rd" for m
    using emplace_keeps_sorted[OF ws that(1)] inv that(2,3) by (auto simp: debugger_inv_def)
  show "debugger_inv d'"
    using h inv by (auto simp: handle_add_watchpoint_def throw_def Let_def split: if_splits sum.splits
        dest: preservesD[OF send_response_keeps] new)
next
  show "preserves debugger_inv (handle_remove_watchpoint a len)"
  proof (rule preservesI)
    fix d r d' assume inv: "debugger_inv d" and h: "handle_remove_watchpoint a len d = Some (r, d')"
    have ws: "keys_sorted range_less (\<lambda>_. True) (db_watchpoints d)" using inv by (simp add: debugger_inv_def)
    have "debugger_inv (d\<lparr>db_watchpoints := map_erase range_less \<lparr>ar_start = a, ar_size = len\<rparr> (db_watchpoints d)\<rparr>)"
      using erase_keeps_sorted[OF ws, of "\<lparr>ar_start = a, ar_size = len\<rparr>"] inv by (auto simp: debugger_inv_def)
    then show "debugger_inv d'"
      using h inv by (auto simp: handle_remove_watchpoint_def throw_def Let_def split: if_splits sum.splits option.splits
          dest: preservesD[OF send_response_keeps])
  qed
qed

lemma set_pc_keeps [keeps]: "preserves debugger_inv (set_pc address)"
  unfolding set_pc_def
  by (intro keeps debugger_inv_put(1)) (simp_all add: cpu_inv_def debugger_invD(1)[unfolded cpu_inv_def])

lemma handlers_keep [keeps]:
  "preserves debugger_inv handle_qsupport" "preserves debugger_inv (handle_qxfer_feature annex offset len)"
  "preserves debugger_inv (handle_qxfer_memory_map offset len)" "preserves debugger_inv handle_query"
  "preserves debugger_inv (handle_mem_read a n)" "preserves debugger_inv (handle_mem_write a data)"
  "preserves debugger_inv handle_reg_read" "preserves debugger_inv (handle_reg_write values)"
  "preserves debugger_inv (handle_single_reg_read regno)" "preserves debugger_inv (handle_single_reg_write regno v)"
  "preserves debugger_inv (handle_continue address)" "preserves debugger_inv (handle_step address)"
  "preserves debugger_inv (handle_step_single_cycles address k)"
  unfolding handle_qsupport_def handle_qxfer_feature_def handle_qxfer_memory_map_def handle_query_def
    handle_mem_read_def handle_mem_write_def handle_reg_read_def handle_reg_write_def handle_single_reg_read_def
    handle_single_reg_write_def handle_continue_def handle_step_def handle_step_single_cycles_def async_run_def
  by (intro keeps; simp add: mem_access_inv read_registers_inv write_registers_inv cpu_register_read_inv
      cpu_register_write_inv)+

lemma serve_command_keeps [keeps]: "preserves debugger_inv (serve_command cmd)"
proof -
  have h: "preserves debugger_inv f" if "command_handler cmd = Some f" for f
    using that by (cases cmd) (auto simp: command_handler_def intro: keeps)
  have s: "preserves debugger_inv (handle_special_commands cmd)"
    unfolding handle_special_commands_def by (cases cmd) (auto intro!: keeps simp: reset_ram_inv)
  show ?thesis
  proof (cases "command_handler cmd")
    case None
    then show ?thesis unfolding serve_command_def
      by (auto intro!: preserves_and_do[OF s] keeps split: special_command_handle_result.split)
  next
    case (Some f)
    then show ?thesis unfolding serve_command_def by (auto intro!: keeps h)
  qed
qed

lemma run_turn_keeps [keeps]: "preserves debugger_inv run_turn"
  unfolding run_turn_def by (auto intro!: keeps split: sum.split net_error.split)

end
