(* ===== verification/Interleaving.thy ===== *)
theory Interleaving
  imports Debugger
begin

text \<open>
  \<open>async_run\<close> with its two threads. The schedule in the state is arbitrary, so the lemmas hold for every
  interleaving: the emulator ends as after one sequential run of \<open>run_until_trap\<close> or \<open>run_steps\<close>, and a
  raised flag ends that run within a cycle.
\<close>

section \<open>The second thread\<close>

text \<open>The state of the debugger that the second thread does not touch.\<close>

definition shared :: "network \<Rightarrow> (nat \<Rightarrow> nat) \<Rightarrow> debugger \<Rightarrow> debugger" where
  "shared n sched d = d\<lparr>db_network := n, db_schedule := sched\<rparr>"

lemma shared_simps [simp]:
  "db_emulator (shared n sched d) = db_emulator d" "db_cpu (shared n sched d) = db_cpu d"
  "db_memory (shared n sched d) = db_memory d" "db_junk (shared n sched d) = db_junk d"
  "db_hw_breakpoints (shared n sched d) = db_hw_breakpoints d"
  "db_watchpoints (shared n sched d) = db_watchpoints d"
  "put_cpu c (shared n sched d) = shared n sched (put_cpu c d)"
  "put_memory m (shared n sched d) = shared n sched (put_memory m d)"
  "shared n' sched' (shared n sched d) = shared n' sched' d"
  "shared (db_network d) (db_schedule d) d = d"
  by (simp_all add: shared_def db_cpu_def db_memory_def put_cpu_def put_memory_def)

lemma run_cycle_shared:
  "run_cycle (shared n sched d) = map_option (\<lambda>(r, d'). (r, shared n sched d')) (run_cycle d)"
proof -
  have t: "tick_cycle (shared n sched d) = map_option (\<lambda>(r, d'). (r, shared n sched d')) (tick_cycle d)" for d
    by (simp add: tick_cycle_def shared_def split: prod.split)
  have b: "check_breakpoint (shared n sched d) = map_option (\<lambda>(r, d'). (r, shared n sched d')) (check_breakpoint d)" for d
    by (simp add: check_breakpoint_def map_option_case split: sum.split option.split prod.split)
  have w: "check_watchpoint r (shared n sched d) = map_option (\<lambda>(r, d'). (r, shared n sched d')) (check_watchpoint r d)" for r d
    by (simp add: check_watchpoint_def Let_def split: sum.split option.split)
  show ?thesis
    by (simp add: run_cycle_def and_do_def t b w return_value_def split: option.split sum.split prod.split)
qed

lemma run_until_trap_shared:
  assumes "run_until_trap i d = Some (r, d')"
  shows "run_until_trap i (shared n sched d) = Some (r, shared n sched d')"
proof -
  have "run_until_trap i (shared n sched d) = Some (fst (r, d'), shared n sched (snd (r, d')))"
  proof (rule run_until_trap.raw_induct[where P = "\<lambda>i d y.
      run_until_trap i (shared n sched d) = Some (fst y, shared n sched (snd y))", OF _ assms], goal_cases)
    case (1 run i d y)
    show ?case
    proof (cases "\<exists>e. run_cycle d = Some (Inr None, e) \<and> \<not> i 0")
      case True
      then obtain e where e: "run_cycle d = Some (Inr None, e)" "\<not> i 0" by blast
      then have "run (\<lambda>n. i (Suc n)) e = Some y" using 1(2) by simp
      then show ?thesis using 1(1) e by (subst run_until_trap.simps) (simp add: run_cycle_shared)
    next
      case False
      then show ?thesis using 1(2)
        by (subst run_until_trap.simps) (auto simp: run_cycle_shared split: option.splits sum.splits if_splits)
    qed
  qed
  then show ?thesis by simp
qed

lemma run_steps_shared:
  "run_steps k i (shared n sched d) = map_option (\<lambda>(r, d'). (r, shared n sched d')) (run_steps k i d)"
  by (induction k arbitrary: i d) (simp_all add: run_cycle_shared split: option.split sum.split)

lemma run_func_shared:
  "run_func limit i d = Some (r, d') \<Longrightarrow> run_func limit i (shared n sched d) = Some (r, shared n sched d')"
  by (cases limit) (simp_all add: run_func_def run_until_trap_shared run_steps_shared)

section \<open>Every interleaving is a sequential run\<close>

text \<open>What the second thread will return, when its reads of the flag give the sequence \<open>i\<close>.\<close>

definition outcome :: "worker \<Rightarrow> (nat \<Rightarrow> bool) \<Rightarrow> debugger \<Rightarrow> ((exn + response) \<times> debugger) option" where
  "outcome w i d = (case w of Finished r \<Rightarrow> Some (r, d) | Running limit \<Rightarrow> run_func limit i d)"

lemma outcome_shared:
  "outcome w i d = Some (r, d') \<Longrightarrow> outcome w i (shared n sched d) = Some (r, shared n sched d')"
  by (cases w) (simp_all add: outcome_def run_func_shared)

lemma worker_cycle_outcome:
  assumes "worker_cycle b w d = Some (w', d')"
  shows "\<exists>j \<le> 1. \<forall>i. (\<forall>k < j. i k = b) \<longrightarrow> outcome w i d = outcome w' (\<lambda>k. i (k + j)) d'"
proof (cases w)
  case (Finished r)
  then show ?thesis using assms by (intro exI[of _ 0]) (simp add: worker_cycle_def outcome_def)
next
  case (Running limit)
  show ?thesis
  proof (cases "limit = Some 0")
    case True
    then show ?thesis using assms Running
      by (intro exI[of _ 0]) (auto simp: worker_cycle_def outcome_def run_func_def)
  next
    case False
    have "outcome w i d = outcome w' (\<lambda>k. i (Suc k)) d'" if "i 0 = b" for i
    proof (cases limit)
      case None
      show ?thesis using assms that Running None
        by (auto simp: worker_cycle_def outcome_def run_func_def run_until_trap.simps[of i]
            split: option.splits sum.splits if_splits)
    next
      case (Some n)
      then obtain m where "n = Suc m" using False by (cases n) auto
      then show ?thesis using assms that Running Some
        by (auto simp: worker_cycle_def outcome_def run_func_def split: option.splits sum.splits if_splits)
    qed
    then show ?thesis by (intro exI[of _ 1]) simp
  qed
qed

lemma worker_cycles_outcome:
  assumes "worker_cycles m b w d = Some (w', d')"
  shows "\<exists>j. \<forall>i. (\<forall>k < j. i k = b) \<longrightarrow> outcome w i d = outcome w' (\<lambda>k. i (k + j)) d'"
  using assms
proof (induction m arbitrary: w d)
  case 0
  then show ?case by (intro exI[of _ 0]) simp
next
  case (Suc m)
  then obtain w1 d1 where w: "worker_cycle b w d = Some (w1, d1)" "worker_cycles m b w1 d1 = Some (w', d')"
    by (auto split: option.splits)
  obtain j1 where j1: "(\<forall>k < j1. i k = b) \<longrightarrow> outcome w i d = outcome w1 (\<lambda>k. i (k + j1)) d1" for i
    using worker_cycle_outcome[OF w(1)] by blast
  obtain j2 where j2: "(\<forall>k < j2. i k = b) \<longrightarrow> outcome w1 i d1 = outcome w' (\<lambda>k. i (k + j2)) d'" for i
    using Suc.IH[OF w(2)] by blast
  have "outcome w i d = outcome w' (\<lambda>k. i (k + (j1 + j2))) d'" if "\<forall>k < j1 + j2. i k = b" for i
    using j1[of i] j2[of "\<lambda>k. i (k + j1)"] that by (simp add: add.assoc add.commute add.left_commute)
  then show ?case by blast
qed

lemma worker_runs_outcome:
  assumes "worker_runs b w d = Some (w', d')"
  shows "\<exists>j. \<forall>i. (\<forall>k < j. i k = b) \<longrightarrow>
    (\<forall>r e. outcome w' (\<lambda>k. i (k + j)) d' = Some (r, e) \<longrightarrow>
       (\<exists>e'. outcome w i d = Some (r, e') \<and> db_emulator e' = db_emulator e))"
proof -
  let ?d = "d\<lparr>db_schedule := \<lambda>n. db_schedule d (Suc n)\<rparr>"
  have s: "shared (db_network d) (db_schedule d) ?d = d" by (simp add: shared_def)
  from worker_cycles_outcome[OF assms[unfolded worker_runs_def]]
  obtain j where j: "\<forall>i. (\<forall>k < j. i k = b) \<longrightarrow> outcome w i ?d = outcome w' (\<lambda>k. i (k + j)) d'" ..
  show ?thesis
  proof (intro exI[of _ j] allI impI)
    fix i r e assume "\<forall>k < j. i k = b" "outcome w' (\<lambda>k. i (k + j)) d' = Some (r, e)"
    then have "outcome w i ?d = Some (r, e)" using j by simp
    from outcome_shared[OF this, of "db_network d" "db_schedule d"]
    have "outcome w i d = Some (r, shared (db_network d) (db_schedule d) e)" unfolding s .
    then show "\<exists>e'. outcome w i d = Some (r, e') \<and> db_emulator e' = db_emulator e"
      by auto
  qed
qed

lemma on_network_shared: "on_network f d = Some (r, d') \<Longrightarrow> \<exists>n. d' = shared n (db_schedule d) d"
  by (auto simp: on_network_def act_on_part_def put_network_def shared_def)


text \<open>The flag only ever goes up.\<close>

definition flag_sequence :: "bool \<Rightarrow> (nat \<Rightarrow> bool) \<Rightarrow> bool" where
  "flag_sequence b i \<longleftrightarrow> mono i \<and> (b \<longrightarrow> i 0)"

text \<open>The run from \<open>d\<close> on, whatever the flag does from now on, ends with the emulator of \<open>e\<close>.\<close>

definition runs_to :: "worker \<Rightarrow> bool \<Rightarrow> debugger \<Rightarrow> exn + response \<Rightarrow> emulator \<Rightarrow> bool" where
  "runs_to w b d q e \<longleftrightarrow> (\<exists>i d'. flag_sequence b i \<and> outcome w i d = Some (q, d') \<and> db_emulator d' = e)"

lemma runs_to_earlier:
  assumes "worker_runs b w d = Some (w', d')" "runs_to w' b d' q e"
  shows "runs_to w b d q e"
proof -
  obtain i' d1 where i': "flag_sequence b i'" "outcome w' i' d' = Some (q, d1)" "db_emulator d1 = e"
    using assms(2) by (auto simp: runs_to_def)
  from worker_runs_outcome[OF assms(1)] obtain j where
    j: "\<forall>i. (\<forall>k < j. i k = b) \<longrightarrow> (\<forall>r e. outcome w' (\<lambda>k. i (k + j)) d' = Some (r, e) \<longrightarrow>
       (\<exists>e'. outcome w i d = Some (r, e') \<and> db_emulator e' = db_emulator e))" ..
  define i where "i = (\<lambda>n. if n < j then b else i' (n - j))"
  have "\<forall>k < j. i k = b" "(\<lambda>k. i (k + j)) = i'" by (auto simp: i_def)
  then obtain e' where "outcome w i d = Some (q, e')" "db_emulator e' = e" using j i'(2,3) by metis
  moreover have "flag_sequence b i"
  proof -
    have m: "i' x" if "i' y" "y \<le> x" for x y using i'(1) that by (auto simp: flag_sequence_def mono_def)
    have "b \<Longrightarrow> i' x" for x using i'(1) m[of 0 x] by (simp add: flag_sequence_def)
    then show ?thesis using m unfolding flag_sequence_def mono_def i_def by (auto split: if_splits)
  qed
  ultimately show ?thesis by (auto simp: runs_to_def)
qed

lemma runs_to_shared: "runs_to w b (shared n sched d) q e \<Longrightarrow> runs_to w b d q e"
proof -
  assume "runs_to w b (shared n sched d) q e"
  then obtain i d' where i: "flag_sequence b i" "outcome w i (shared n sched d) = Some (q, d')" "db_emulator d' = e"
    by (auto simp: runs_to_def)
  have "outcome w i d = Some (q, shared (db_network d) (db_schedule d) d')"
    using outcome_shared[OF i(2), of "db_network d" "db_schedule d"] by simp
  then show ?thesis using i by (auto simp: runs_to_def)
qed

lemma runs_to_weaken: "runs_to w True d q e \<Longrightarrow> runs_to w b d q e"
  by (auto simp: runs_to_def flag_sequence_def)

lemma send_response_emulator: "send_response r d = Some (q, d') \<Longrightarrow> db_emulator d' = db_emulator d"
  by (auto simp: send_response_def and_do_some return_value_def dest!: on_network_shared split: sum.splits)
    (metis sum.exhaust old.unit.exhaust)

lemma finish_worker_runs:
  assumes "finish_worker b w d = Some (r, d')"
  shows "\<exists>q. runs_to w b d q (db_emulator d')"
proof -
  have f: "flag_sequence b (\<lambda>_. b)" by (simp add: flag_sequence_def mono_def)
  have "\<exists>q. outcome w (\<lambda>_. b) d = Some (q, d')"
    using assms by (auto simp: finish_worker_def outcome_def split: worker.splits)
  then show ?thesis using f by (auto simp: runs_to_def)
qed

text \<open>
  However the two threads interleave, \<open>async_run\<close> leaves the emulator as one sequential run does, in
  which the interrupt flag is clear up to some cycle and set from there on.
\<close>

lemma async_loop_sequential:
  assumes "async_loop w b d = Some (Inr (), d')"
  shows "\<exists>q. runs_to w b d q (db_emulator d')"
proof -
  have "fst (Inr () :: exn + unit, d') = Inr () \<longrightarrow> (\<exists>q. runs_to w b d q (db_emulator (snd (Inr () :: exn + unit, d'))))"
  proof (rule async_loop.raw_induct[where P = "\<lambda>w b d y. fst y = Inr () \<longrightarrow> (\<exists>q. runs_to w b d q (db_emulator (snd y)))",
      OF _ assms], goal_cases)
    case (1 run w b d y)
    show ?case
    proof
      assume y: "fst y = Inr ()"
      obtain w1 d1 where w1: "worker_runs b w d = Some (w1, d1)" using 1(2) by (auto split: option.splits)
      have "\<exists>q. runs_to w1 b d1 q (db_emulator (snd y))"
      proof (cases w1)
        case (Finished r)
        then obtain stop where "r = Inr stop" "send_response stop d1 = Some y"
          using 1(2) w1 y by (cases r) auto
        then have "db_emulator (snd y) = db_emulator d1" by (cases y) (auto dest: send_response_emulator)
        moreover have "flag_sequence b (\<lambda>_. b)" by (simp add: flag_sequence_def mono_def)
        ultimately show ?thesis using Finished by (auto simp: runs_to_def outcome_def)
      next
        case (Running limit)
        then obtain r d2 w2 d3 where
          r: "on_network net_receive d1 = Some (Inr r, d2)" "worker_runs b (Running limit) d2 = Some (w2, d3)"
          and c: "run w2 b d3 = Some y \<or> run w2 True d3 = Some y
            \<or> and_do (on_network (change net_close)) (\<lambda>_. finish_worker b w2) d3 = Some y"
          using 1(2) w1 y by (auto split: option.splits sum.splits if_splits)
        have "\<exists>q. runs_to w2 b d3 q (db_emulator (snd y))"
          using c
        proof (elim disjE)
          assume "run w2 b d3 = Some y"
          then show ?thesis using 1(1) y by blast
        next
          assume "run w2 True d3 = Some y"
          then show ?thesis using 1(1) y runs_to_weaken by blast
        next
          assume "and_do (on_network (change net_close)) (\<lambda>_. finish_worker b w2) d3 = Some y"
          then obtain d4 where d4: "on_network (change net_close) d3 = Some (Inr (), d4)"
            "finish_worker b w2 d4 = Some y"
            using y by (cases y) (auto simp: and_do_some)
          from on_network_shared[OF d4(1)] obtain n where n: "d4 = shared n (db_schedule d3) d3" ..
          obtain q where "runs_to w2 b d4 q (db_emulator (snd y))"
            using finish_worker_runs[of b w2 d4 "fst y" "snd y"] d4(2) by auto
          then show ?thesis using runs_to_shared unfolding n by blast
        qed
        then obtain q where "runs_to (Running limit) b d2 q (db_emulator (snd y))"
          using runs_to_earlier[OF r(2)] by blast
        moreover obtain n where "d2 = shared n (db_schedule d1) d1" using on_network_shared[OF r(1)] ..
        ultimately show ?thesis using runs_to_shared Running by blast
      qed
      then show "\<exists>q. runs_to w b d q (db_emulator (snd y))" using runs_to_earlier[OF w1] by blast
    qed
  qed
  then show ?thesis by simp
qed

text \<open>Once the flag is up, the second thread ends with the next cycle.\<close>

lemma interrupt_ends_cycle:
  assumes "worker_cycle True w d = Some (w', d')"
  shows "\<exists>r. w' = Finished r"
  using assms by (auto simp: worker_cycle_def split: worker.splits if_splits option.splits sum.splits)

lemma finished_stays: "worker_cycles k b (Finished r) d = Some (Finished r, d)"
  by (induction k) (simp_all add: worker_cycle_def)

text \<open>So the reply goes out before the network is read again.\<close>

lemma worker_finished_runs:
  assumes "0 < db_schedule d 0"
    and "run_cycle (d\<lparr>db_schedule := \<lambda>n. db_schedule d (Suc n)\<rparr>) = Some (Inr stop, e)" "limit \<noteq> Some 0"
  shows "worker_runs True (Running limit) d =
    Some (Finished (Inr (case stop of None \<Rightarrow> stop_at_signal SIGINT | Some r \<Rightarrow> r)), e)"
proof -
  obtain k where "db_schedule d 0 = Suc k" using assms(1) by (cases "db_schedule d 0") auto
  then show ?thesis using assms(2,3)
    by (cases stop) (simp_all add: worker_runs_def worker_cycle_def finished_stays)
qed

lemma interrupt_replies:
  assumes "0 < db_schedule d 0" "run_cycle d = Some (Inr stop, e)" "limit \<noteq> Some 0"
  shows "\<exists>f. async_loop (Running limit) True d =
      send_response (case stop of None \<Rightarrow> stop_at_signal SIGINT | Some r \<Rightarrow> r) f
    \<and> db_emulator f = db_emulator e \<and> db_network f = db_network d"
proof -
  let ?d = "shared (db_network d) (\<lambda>n. db_schedule d (Suc n)) d"
  have d: "?d = d\<lparr>db_schedule := \<lambda>n. db_schedule d (Suc n)\<rparr>" by (simp add: shared_def)
  let ?f = "shared (db_network d) (\<lambda>n. db_schedule d (Suc n)) e"
  have "run_cycle ?d = Some (Inr stop, ?f)" using assms(2) by (simp add: run_cycle_shared)
  from worker_finished_runs[OF assms(1) this[unfolded d] assms(3)] show ?thesis
    by (intro exI[of _ ?f]) (subst async_loop.simps, simp add: shared_def)
qed

end
