(* ===== verification/Examples.thy ===== *)
theory Examples
  imports Emulator
begin

text \<open>
  Concrete states, at which the properties are instantiated: a platform whose ROM holds one
  instruction word, and a CPU about to fetch it.
\<close>
unbundle bit_operations_syntax

definition demo_memory :: "u32 \<Rightarrow> platform_memory" where
  "demo_memory w =
     \<lparr>pm_rom = (block_memory_new 0x20000 Fill_None (\<lambda>_ _ _. 0))
        \<lparr>bm_storage := [0 \<mapsto> (\<lambda>_. 0)(0 := w)], bm_write_lock := True\<rparr>,
      pm_ram = block_memory_new 0x80000000 Fill_Zero (\<lambda>_ _ _. 0),
      pm_uart = uart_init [] (\<lambda>_. 0), pm_clock_periph = clock_init\<rparr>"

definition demo_cpu :: cpu where
  "demo_cpu = cpu_init 0x00100000"

definition demo_junk :: junk where
  "demo_junk = \<lparr>jk_alu_result = 0, jk_branch_result = False, jk_csr_result = 0, jk_memory_load_value = 0,
     jk_writeback_value = 0\<rparr>"

lemma demo_inv: "platform_inv (demo_memory w)" "cpu_inv demo_cpu"
proof -
  have "block_inv (block_memory_new 0x20000 Fill_None (\<lambda>_ _ _. 0))"
    "block_inv (block_memory_new 0x80000000 Fill_Zero (\<lambda>_ _ _. 0))"
    by (rule block_memory_new_inv, simp)+
  then show "platform_inv (demo_memory w)"
    by (simp add: platform_inv_def demo_memory_def block_inv_def block_memory_new_def)
  show "cpu_inv demo_cpu" by (simp add: demo_cpu_def cpu_init_inv)
qed

lemma demo_fetch:
  "fst (inst_fetch platform_interface (cpu_pc demo_cpu) (cpu_inst_fetch demo_cpu, demo_memory w)) = Value w"
  by (simp add: inst_fetch_def demo_cpu_def cpu_init_def cache_hit_def fetch_cache_init_def page_of_def
      word_index_def platform_defs get_memory_def demo_memory_def ram_start_def rom_start_def
      block_size_def block_memory_new_def block_read_page_def page_size_bytes_def Let_def touch_page_def
      deref_page_def periph_size_def)

lemma demo_no_interrupt: "\<not> timer_interrupt_pending (cpu_csr demo_cpu)"
  by (simp add: timer_interrupt_pending_def demo_cpu_def cpu_init_def csr_init_def mstatus_init_def)

lemma demo_created:
  obtains e where "emulator_create (Some (4, [0x13, 0, 0, 0])) Fill_Zero No_capture True (\<lambda>_ _ _. 0)
    (uart_init [] (\<lambda>_. 0)) = Inr e"
proof -
  obtain m where "platform_new [0x13, 0, 0, 0] Fill_Zero (\<lambda>_ _ _. 0) (uart_init [] (\<lambda>_. 0)) = Inr m"
    using platform_new_fits[of "[0x13, 0, 0, 0]" Fill_Zero "\<lambda>_ _ _. 0" "uart_init [] (\<lambda>_. 0)"] by auto
  then show thesis using that by (simp add: emulator_create_def)
qed

lemma demo_illegal:
  obtains r s' m' where "execute platform_interface j demo_cpu (demo_memory 0) = (Inr r, s', m')"
    "cr_trap r = Some Illegal_instruction"
proof -
  obtain c n where f: "inst_fetch platform_interface (cpu_pc demo_cpu) (cpu_inst_fetch demo_cpu, demo_memory 0)
      = (Value 0, c, n)"
    using demo_fetch[of 0] by (cases "inst_fetch platform_interface (cpu_pc demo_cpu) (cpu_inst_fetch demo_cpu, demo_memory 0)") auto
  have "\<not> bs_eq_int (bs_slice 1 0 (instr_bits 0) :: 2 bitset) 0b11"
    by (simp add: bs_eq_int_def bs_slice_def instr_bits_def bs_of_def bs_mask_def mask_eq_exp_minus_1)
  then have "inst_decode rf 0 pc = Inl Illegal_instruction" for rf pc
    by (simp add: inst_decode_def)
  with f that show thesis by (simp add: execute_def Let_def)
qed

end
