(* ===== verification/Stepping.thy ===== *)
theory Stepping
  imports Debugger
begin

text \<open>
  What the debugger's runs stop for. Breakpoints are found exactly where they are set; watchpoints are
  found with the comparison of address ranges, so one that only adjoins the access counts too, and can
  hide another. A run without stop points is a run of the emulator.
\<close>

section \<open>What a cycle stops for\<close>

lemma tick_cycle_frame:
  "tick_cycle d = Some (r, d') \<Longrightarrow> db_hw_breakpoints d' = db_hw_breakpoints d \<and> db_watchpoints d' = db_watchpoints d
     \<and> db_network d' = db_network d"
  by (auto simp: tick_cycle_def split: prod.splits)

lemma cpu_register_read_pc: "cpu_pc (snd (cpu_register_read n c)) = cpu_pc c"
  by (auto simp: cpu_register_read_def split: prod.splits sum.splits)

lemma triggered_pc:
  assumes "is_triggered_by I bp s = Some (r, s')"
  shows "cpu_pc (fst s') = cpu_pc (fst s)"
proof (cases "\<exists>code. cpu_pc (fst s) = hb_address bp \<and> hb_cond bp = Some code")
  case True
  then obtain code where "cpu_pc (fst s) = hb_address bp" "hb_cond bp = Some code" by blast
  with assms obtain z where "expr_run (memory_access_of I) register_access_of code 0 [] s = Some (z, s')"
    by (auto simp: is_triggered_by_def expr_execute_def)
  then show ?thesis
  proof (rule expr_run_preserves[where P = "\<lambda>t. cpu_pc (fst t) = cpu_pc (fst s)"])
    show "cpu_pc (fst (snd (memory_access_of I a t))) = cpu_pc (fst s)" if "cpu_pc (fst t) = cpu_pc (fst s)" for a t
      using that by (simp add: memory_access_of_def split: prod.split)
    show "cpu_pc (fst (snd (register_access_of n t))) = cpu_pc (fst s)" if "cpu_pc (fst t) = cpu_pc (fst s)"
      for n and t :: "cpu \<times> 'a"
      using that cpu_register_read_pc[of n "fst t"]
      by (simp add: register_access_of_def case_prod_beta split: option.split)
  qed simp
next
  case False
  then show ?thesis using assms by (auto simp: is_triggered_by_def split: if_splits option.splits)
qed

lemma check_breakpoint_frame:
  assumes "check_breakpoint d = Some (r, d')"
  shows "cpu_pc (db_cpu d') = cpu_pc (db_cpu d) \<and> db_hw_breakpoints d' = db_hw_breakpoints d
    \<and> db_watchpoints d' = db_watchpoints d \<and> db_network d' = db_network d"
  using assms
  by (auto simp: check_breakpoint_def split: sum.splits option.splits dest!: triggered_pc)

lemma key_unique: "keys_sorted (<) (\<lambda>_. True) m \<Longrightarrow> (a :: u32, x) \<in> set m \<Longrightarrow> (a, y) \<in> set m \<Longrightarrow> x = y"
proof (induction m)
  case (Cons e m)
  then have "\<forall>d \<in> set m. fst e < fst d" by (simp add: keys_sorted_def)
  with Cons show ?case by (auto simp: keys_sorted_def)
qed simp

text \<open>The breakpoint at an address.\<close>

lemma breakpoint_found:
  assumes "debugger_inv d" "map_find (<) a (db_hw_breakpoints d) = Inr (Some e)"
  shows "e \<in> set (db_hw_breakpoints d) \<and> fst e = a"
proof -
  have s: "keys_sorted (<) (\<lambda>_. True) (db_hw_breakpoints d)" using assms by (simp add: debugger_inv_def)
  show ?thesis using bp_keys.find_some[OF s TrueI assms(2)] by auto
qed

lemma breakpoint_lookup:
  assumes "debugger_inv d" "(a, bp) \<in> set (db_hw_breakpoints d)"
  shows "map_find (<) a (db_hw_breakpoints d) = Inr (Some (a, bp))"
proof -
  have s: "keys_sorted (<) (\<lambda>_. True) (db_hw_breakpoints d)" using assms by (simp add: debugger_inv_def)
  obtain r where r: "map_find (<) a (db_hw_breakpoints d) = Inr r" using bp_keys.find_total[OF s TrueI] by blast
  then obtain e where e: "r = Some e" using bp_keys.find_none[OF s TrueI, of a "(a, bp)"] assms(2) by (cases r) auto
  then have "e \<in> set (db_hw_breakpoints d)" "fst e = a" using breakpoint_found[OF assms(1)] r by auto
  then have "e = (a, bp)" using key_unique[OF s, of a "snd e" bp] assms(2) by (cases e) auto
  then show ?thesis using r e by simp
qed

lemma breakpoints_distinct:
  assumes "debugger_inv d"
  shows "distinct (map fst (db_hw_breakpoints d))"
proof -
  have "sorted_wrt (<) (map fst (db_hw_breakpoints d))"
    using assms by (simp add: debugger_inv_def keys_sorted_def sorted_wrt_map)
  then show ?thesis by (simp add: strict_sorted_iff)
qed

lemma tick_cycle_inv: "debugger_inv d \<Longrightarrow> tick_cycle d = Some (r, d') \<Longrightarrow> debugger_inv d'"
  using preservesD[OF tick_cycle_keeps] by blast

text \<open>The parts of a cycle that ends without an exception.\<close>

lemma run_cycle_cases:
  assumes "run_cycle d = Some (Inr stop, d')"
  obtains result d1 hit wp where
    "tick_cycle d = Some (Inr result, d1)" "check_breakpoint d1 = Some (Inr hit, d')"
    "check_watchpoint result d' = Some (Inr wp, d')"
    "stop = (if hit then Some (stop_at_breakpoint True)
      else map_option (\<lambda>(r, w). stop_at_watchpoint (cr_alu_result result) w r) wp)"
proof -
  from assms obtain result d1 hit d2 wp d3 where c:
    "tick_cycle d = Some (Inr result, d1)" "check_breakpoint d1 = Some (Inr hit, d2)"
    "check_watchpoint result d2 = Some (Inr wp, d3)"
    "(if hit then return_value (Some (stop_at_breakpoint True))
      else case wp of Some (r, w) \<Rightarrow> return_value (Some (stop_at_watchpoint (cr_alu_result result) w r))
         | None \<Rightarrow> return_value None) d3 = Some (Inr stop, d')"
    by (auto simp: run_cycle_def and_do_some)
  have "d3 = d2" using check_watchpoint_pure[OF c(3)] by simp
  moreover have "d' = d3" "stop = (if hit then Some (stop_at_breakpoint True)
      else map_option (\<lambda>(r, w). stop_at_watchpoint (cr_alu_result result) w r) wp)"
    using c(4) by (auto simp: return_value_def split: if_splits option.splits)
  ultimately show thesis using that c by blast
qed

text \<open>
  A cycle stops at a breakpoint only when one is set at the new program counter, and never passes an
  unconditional one.
\<close>

lemma breakpoint_sound:
  assumes "debugger_inv d" "run_cycle d = Some (Inr (Some (stop_at_breakpoint True)), d')"
  shows "\<exists>bp. (cpu_pc (db_cpu d'), bp) \<in> set (db_hw_breakpoints d)"
proof -
  from assms(2) show ?thesis
  proof (cases rule: run_cycle_cases)
    case (1 result d1 hit wp)
    have "hit" using 1(4) by (cases hit; cases wp) (auto simp: stop_at_breakpoint_def stop_at_watchpoint_def)
    then obtain e where "map_find (<) (cpu_pc (db_cpu d1)) (db_hw_breakpoints d1) = Inr (Some e)"
      using 1(2) by (auto simp: check_breakpoint_def split: sum.splits option.splits)
    then show ?thesis
      using breakpoint_found[OF tick_cycle_inv[OF assms(1) 1(1)]] check_breakpoint_frame[OF 1(2)] tick_cycle_frame[OF 1(1)]
      by (cases e) fastforce
  qed
qed

lemma breakpoint_complete:
  assumes "debugger_inv d" "run_cycle d = Some (Inr stop, d')" "(cpu_pc (db_cpu d'), bp) \<in> set (db_hw_breakpoints d)"
    and "hb_cond bp = None"
  shows "stop = Some (stop_at_breakpoint True)"
  using assms(2)
proof (cases rule: run_cycle_cases)
  case (1 result d1 hit wp)
  note inv = tick_cycle_inv[OF assms(1) 1(1)]
  have pc: "cpu_pc (db_cpu d') = cpu_pc (db_cpu d1)" using check_breakpoint_frame[OF 1(2)] by simp
  have mem: "(cpu_pc (db_cpu d1), bp) \<in> set (db_hw_breakpoints d1)"
    using assms(3) tick_cycle_frame[OF 1(1)] pc by simp
  have a: "hb_address bp = cpu_pc (db_cpu d1)" using inv mem by (auto simp: debugger_inv_def)
  have hit using 1(2) assms(4) a breakpoint_lookup[OF inv mem] by (simp add: check_breakpoint_def is_triggered_by_def)
  then show ?thesis using 1(4) by simp
qed

section \<open>Watchpoints\<close>

definition access_range :: "cpu_result \<Rightarrow> address_range option" where
  "access_range result =
     (if dr_memory_opcode result = Ls_None then None
      else case get_size (dr_memory_funct result) of
             Inl _ \<Rightarrow> None
           | Inr n \<Rightarrow> Some \<lparr>ar_start = cr_alu_result result, ar_size = of_nat n\<rparr>)"

definition watches :: "watchpoint \<Rightarrow> cpu_result \<Rightarrow> bool" where
  "watches w result \<longleftrightarrow> dr_memory_opcode result = Ls_Store \<and> wp_watch_write w
     \<or> dr_memory_opcode result = Ls_Load \<and> wp_watch_read w"

definition ranges_ok :: "debugger \<Rightarrow> bool" where
  "ranges_ok d \<longleftrightarrow> (\<forall>(r, w) \<in> set (db_watchpoints d). range_ok r)"

lemma ranges_sorted: "debugger_inv d \<Longrightarrow> ranges_ok d \<Longrightarrow> keys_sorted range_less range_ok (db_watchpoints d)"
  by (auto simp: debugger_inv_def ranges_ok_def keys_sorted_def list_all_iff)

text \<open>A reported hit is a watchpoint of that kind of access, next to the bytes accessed or over them.\<close>

lemma watchpoint_sound:
  assumes "debugger_inv d" "ranges_ok d" "check_watchpoint result d = Some (Inr (Some (rd, wr)), d')"
    and "\<And>r. access_range result = Some r \<Longrightarrow> range_ok r"
  shows "\<exists>r w. (r, w) \<in> set (db_watchpoints d) \<and> watches w result \<and> (\<exists>q. access_range result = Some q \<and> touches r q)
    \<and> (rd \<longleftrightarrow> dr_memory_opcode result = Ls_Load) \<and> (wr \<longleftrightarrow> dr_memory_opcode result = Ls_Store)"
proof -
  obtain q e where q: "access_range result = Some q" "map_find range_less q (db_watchpoints d) = Inr (Some e)"
    "watches (snd e) result" "rd \<longleftrightarrow> dr_memory_opcode result = Ls_Load" "wr \<longleftrightarrow> dr_memory_opcode result = Ls_Store"
    using assms(3) by (cases "dr_memory_opcode result")
      (auto simp: check_watchpoint_def access_range_def watches_def Let_def split: if_splits sum.splits option.splits)
  have s: "keys_sorted range_less range_ok (db_watchpoints d)" by (rule ranges_sorted[OF assms(1,2)])
  have e: "e \<in> set (db_watchpoints d)" "\<not> range_less (fst e) q" "\<not> range_less q (fst e)"
    using wp_keys.find_some[OF s assms(4)[OF q(1)] q(2)] by auto
  then have "range_ok (fst e)" using assms(2) by (auto simp: ranges_ok_def)
  then have "touches (fst e) q" using e(2,3) not_less_touches assms(4)[OF q(1)] by blast
  then show ?thesis using e(1) q by (metis prod.collapse)
qed

text \<open>
  An access that no reported hit belongs to: then some watchpoint that touches it does not watch this
  kind of access, or none overlaps it.
\<close>

lemma watchpoint_complete:
  assumes "debugger_inv d" "ranges_ok d" "check_watchpoint result d = Some (Inr None, d')"
    and "access_range result = Some q" "range_ok q" "(r, w) \<in> set (db_watchpoints d)" "overlaps r q"
  shows "\<exists>r' w'. (r', w') \<in> set (db_watchpoints d) \<and> touches r' q \<and> \<not> watches w' result"
proof -
  have s: "keys_sorted range_less range_ok (db_watchpoints d)" by (rule ranges_sorted[OF assms(1,2)])
  obtain f where f: "map_find range_less q (db_watchpoints d) = Inr f" using wp_keys.find_total[OF s assms(5)] by blast
  show ?thesis
  proof (cases f)
    case None
    have "range_ok r" using assms(2,6) by (auto simp: ranges_ok_def)
    then have "\<not> touches r q"
      using wp_keys.find_none[OF s assms(5) f[unfolded None] assms(6)] not_less_touches[OF _ assms(5)] by auto
    then show ?thesis using overlaps_touches[OF assms(7)] by simp
  next
    case (Some e)
    note fs = wp_keys.find_some[OF s assms(5) f[unfolded Some]]
    then have "range_ok (fst e)" using assms(2) by (auto simp: ranges_ok_def)
    then have "touches (fst e) q" using fs not_less_touches assms(5) by blast
    moreover have "\<not> watches (snd e) result"
      using assms(3,4) f Some
      by (cases e) (auto simp: check_watchpoint_def access_range_def watches_def Let_def split: if_splits sum.splits)
    ultimately show ?thesis using fs by (metis prod.collapse)
  qed
qed

text \<open>
  The watchpoint that ends where the access begins hides the one that the access overlaps.
\<close>

lemma adjacent_watchpoint_hides:
  assumes "dr_memory_opcode result = Ls_Load" "dr_memory_funct result = Load_word" "cr_alu_result result = 0x80000004"
    and "db_watchpoints d = [(\<lparr>ar_start = 0x80000000, ar_size = 4\<rparr>, \<lparr>wp_watch_write = True, wp_watch_read = False,
        wp_addr_range = \<lparr>ar_start = 0x80000000, ar_size = 4\<rparr>\<rparr>),
      (\<lparr>ar_start = 0x80000005, ar_size = 1\<rparr>, \<lparr>wp_watch_write = False, wp_watch_read = True,
        wp_addr_range = \<lparr>ar_start = 0x80000005, ar_size = 1\<rparr>\<rparr>)]"
  shows "check_watchpoint result d = Some (Inr None, d)"
  using assms
  by (simp add: check_watchpoint_def map_find_def partitioned_def keys_from_def range_less_def range_compare_def Let_def)

section \<open>Stepping\<close>

text \<open>
  A load or store with a reserved function code has no size: outside the debugger it traps, in the
  debugger the check for watchpoints throws.
\<close>

definition sized_request :: "cpu_result \<Rightarrow> bool" where
  "sized_request r \<longleftrightarrow> dr_memory_opcode r = Ls_None \<or> dr_memory_funct r \<noteq> Funct_None"

lemma get_size_sized: "f \<noteq> Funct_None \<Longrightarrow> \<exists>n. get_size f = Inr n"
  by (cases f) auto

lemma unsized_request_throws:
  "\<not> sized_request r \<Longrightarrow> check_watchpoint r d = Some (Inl (Logic_error ''Invalid funct''), d)"
  by (simp add: sized_request_def check_watchpoint_def)

text \<open>The emulator for \<open>n\<close> cycles, none of which throws or has an unsized request.\<close>

primrec tick_cycles :: "nat \<Rightarrow> (nat \<Rightarrow> junk) \<Rightarrow> emulator \<Rightarrow> emulator option" where
  "tick_cycles 0 j e = Some e"
| "tick_cycles (Suc n) j e =
     (case tick_one_cycle (j 0) e of
        (Inl x, e) \<Rightarrow> None
      | (Inr r, e) \<Rightarrow> if sized_request r then tick_cycles n (\<lambda>k. j (Suc k)) e else None)"

text \<open>A cycle without stop points is a cycle of the emulator.\<close>

lemma run_cycle_plain:
  assumes "db_hw_breakpoints d = []" "db_watchpoints d = []"
    and "tick_one_cycle (db_junk d 0) (db_emulator d) = (Inr r, e)" "sized_request r"
  shows "run_cycle d = Some (Inr None, d\<lparr>db_emulator := e, db_junk := \<lambda>n. db_junk d (Suc n)\<rparr>)"
proof -
  let ?d = "d\<lparr>db_emulator := e, db_junk := \<lambda>n. db_junk d (Suc n)\<rparr>"
  have "tick_cycle d = Some (Inr r, ?d)" using assms(3) by (simp add: tick_cycle_def)
  moreover have "check_breakpoint ?d = Some (Inr False, ?d)"
    using assms(1) by (simp add: check_breakpoint_def map_find_def partitioned_def keys_from_def)
  moreover have "check_watchpoint r ?d = Some (Inr None, ?d)"
    using assms(2,4) get_size_sized[of "dr_memory_funct r"]
    by (auto simp: check_watchpoint_def sized_request_def map_find_def partitioned_def keys_from_def Let_def)
  ultimately show ?thesis by (simp add: run_cycle_def and_do_def return_value_def)
qed

lemma run_cycle_unsized:
  assumes "tick_one_cycle (db_junk d 0) (db_emulator d) = (Inr r, e)" "\<not> sized_request r" "db_hw_breakpoints d = []"
  shows "run_cycle d = Some (Inl (Logic_error ''Invalid funct''), d\<lparr>db_emulator := e, db_junk := \<lambda>n. db_junk d (Suc n)\<rparr>)"
proof -
  let ?d = "d\<lparr>db_emulator := e, db_junk := \<lambda>n. db_junk d (Suc n)\<rparr>"
  have "tick_cycle d = Some (Inr r, ?d)" using assms(1) by (simp add: tick_cycle_def)
  moreover have "check_breakpoint ?d = Some (Inr False, ?d)"
    using assms(3) by (simp add: check_breakpoint_def map_find_def partitioned_def keys_from_def)
  ultimately show ?thesis
    using unsized_request_throws[OF assms(2)] by (simp add: run_cycle_def and_do_def)
qed

lemma run_steps_plain:
  assumes "db_hw_breakpoints d = []" "db_watchpoints d = []"
    and "tick_cycles n (db_junk d) (db_emulator d) = Some e"
  shows "run_steps n (\<lambda>_. False) d =
    Some (Inr (stop_at_signal SIGTRAP), d\<lparr>db_emulator := e, db_junk := \<lambda>k. db_junk d (k + n)\<rparr>)"
  using assms
proof (induction n arbitrary: d)
  case (Suc n)
  obtain r e1 where t: "tick_one_cycle (db_junk d 0) (db_emulator d) = (Inr r, e1)" "sized_request r"
    "tick_cycles n (\<lambda>k. db_junk d (Suc k)) e1 = Some e"
    using Suc.prems(3) by (auto split: prod.splits sum.splits if_splits)
  let ?d = "d\<lparr>db_emulator := e1, db_junk := \<lambda>n. db_junk d (Suc n)\<rparr>"
  have "run_steps n (\<lambda>_. False) ?d = Some (Inr (stop_at_signal SIGTRAP),
      ?d\<lparr>db_emulator := e, db_junk := \<lambda>k. db_junk ?d (k + n)\<rparr>)"
    using Suc.prems t(3) by (intro Suc.IH) simp_all
  then show ?case using run_cycle_plain[OF Suc.prems(1,2) t(1,2)] by simp
qed simp


section \<open>Whole runs\<close>

lemma run_cycle_frame:
  assumes "run_cycle d = Some (Inr stop, d')"
  shows "db_hw_breakpoints d' = db_hw_breakpoints d \<and> db_watchpoints d' = db_watchpoints d"
  using assms by (rule run_cycle_cases) (use tick_cycle_frame check_breakpoint_frame in metis)

text \<open>A run reports a breakpoint only where one is set.\<close>

lemma run_until_trap_breakpoint:
  assumes "debugger_inv d" "run_until_trap i d = Some (Inr (stop_at_breakpoint True), d')"
  shows "\<exists>bp. (cpu_pc (db_cpu d'), bp) \<in> set (db_hw_breakpoints d)"
proof -
  have "debugger_inv d \<and> fst (Inr (stop_at_breakpoint True) :: exn + response, d') = Inr (stop_at_breakpoint True)
      \<longrightarrow> (\<exists>bp. (cpu_pc (db_cpu (snd (Inr (stop_at_breakpoint True) :: exn + response, d'))), bp) \<in> set (db_hw_breakpoints d))"
  proof (rule run_until_trap.raw_induct[where P = "\<lambda>i d y. debugger_inv d \<and> fst y = Inr (stop_at_breakpoint True)
      \<longrightarrow> (\<exists>bp. (cpu_pc (db_cpu (snd y)), bp) \<in> set (db_hw_breakpoints d))", OF _ assms(2)], goal_cases)
    case (1 run i d y)
    show ?case
    proof
      assume a: "debugger_inv d \<and> fst y = Inr (stop_at_breakpoint True)"
      from 1(2) obtain r e where r: "run_cycle d = Some (r, e)" by (auto split: option.splits)
      have e: "debugger_inv e" using preservesD[OF run_cycle_keeps r] a by blast
      show "\<exists>bp. (cpu_pc (db_cpu (snd y)), bp) \<in> set (db_hw_breakpoints d)"
      proof (cases "r = Inr None \<and> \<not> i 0")
        case True
        then have "run (\<lambda>n. i (Suc n)) e = Some y" using 1(2) r by simp
        then show ?thesis using 1(1)[of "\<lambda>n. i (Suc n)" e y] e a run_cycle_frame[of d None e] r True by simp
      next
        case False
        then have "r = Inr (Some (stop_at_breakpoint True)) \<and> snd y = e"
          using 1(2) r a by (auto simp: stop_at_breakpoint_def stop_at_signal_def split: sum.splits option.splits if_splits)
        then show ?thesis using breakpoint_sound[of d e] r a by simp
      qed
    qed
  qed
  then show ?thesis using assms(1) by simp
qed

end
