(* ===== verification/DebugSession.thy ===== *)
theory DebugSession
  imports Debugger
begin

text \<open>
  Sessions of the debugger as the host sees them: one turn of the command loop receives a frame, however
  the network cuts it, confirms it, runs the handler and sends the reply. What the memory and register
  commands do is stated by the bytes the host sends and gets back.
\<close>

section \<open>One exchange with the host\<close>

text \<open>
  The reads deliver the frame of a command, in pieces; or the confirmation of a reply.
\<close>

definition delivers :: "string \<Rightarrow> net_read list \<Rightarrow> net_read list \<Rightarrow> bool" where
  "delivers s rest reads \<longleftrightarrow>
     length (escape s) \<le> max_buffer_size \<and>
     (\<exists>pieces. reads = arriving pieces @ rest \<and> concat pieces = frame_of s \<and> list_all (\<lambda>c. c \<noteq> []) pieces)"

definition confirms :: "net_read list \<Rightarrow> net_read list \<Rightarrow> bool" where
  "confirms rest reads \<longleftrightarrow> (\<exists>late. reads = Read_some ''+'' late # rest)"

text \<open>The host is connected, and no packet is under way.\<close>

definition ready :: "debugger \<Rightarrow> bool" where
  "ready d \<longleftrightarrow> idle (db_network d) \<and> (\<forall>k. nw_write_ok (db_network d) k)"

abbreviation reads_of :: "debugger \<Rightarrow> net_read list" where
  "reads_of d \<equiv> nw_reads (db_network d)"

abbreviation written_by :: "debugger \<Rightarrow> string list" where
  "written_by d \<equiv> nw_written (db_network d)"

text \<open>The handler of a command, without the reply: what it does to the emulator and what it answers.\<close>

definition answers :: "(debugger, unit) action \<Rightarrow> debugger \<Rightarrow> response \<Rightarrow> debugger \<Rightarrow> bool" where
  "answers h d r d' \<longleftrightarrow> h d = send_response r d' \<and> db_network d' = db_network d"

lemma send_response_ready:
  assumes "ready d" "confirms rest (reads_of d)"
  shows "\<exists>n. send_response r d = Some (Inr (), put_network n d) \<and> ready (put_network n d) \<and> nw_reads n = rest
    \<and> nw_written n = written_by d @ [encode (response_to_string r)]"
proof -
  obtain late where "reads_of d = Read_some ''+'' late # rest" using assms(2) by (auto simp: confirms_def)
  from send_acknowledged[OF _ this] assms(1) obtain e where
    e: "net_send r (db_network d) = Some (Inr (Inr ()), (db_network d)\<lparr>nw_reads := rest, nw_decoder := e,
        nw_written := written_by d @ [encode (response_to_string r)]\<rparr>)"
      "idle ((db_network d)\<lparr>nw_reads := rest, nw_decoder := e\<rparr>)" by (auto simp: ready_def)
  then show ?thesis using assms(1)
    by (intro exI[of _ "(db_network d)\<lparr>nw_reads := rest, nw_decoder := e,
        nw_written := written_by d @ [encode (response_to_string r)]\<rparr>"])
      (simp add: send_response_def and_do_def on_network_def act_on_part_def return_value_def idle_def ready_def)
qed

text \<open>The first half of a turn: the text of the frame is confirmed and parsed.\<close>

lemma turn_receives:
  assumes "ready d" "delivers s rest (reads_of d)"
  shows "\<exists>n. ready (put_network n d) \<and> nw_reads n = rest \<and> nw_written n = written_by d @ [buffer ''+'']
    \<and> (\<forall>cmd. parse s = Value cmd \<longrightarrow> run_turn d = serve_command cmd (put_network n d))
    \<and> (parse s = Unexpected () \<longrightarrow>
         run_turn d = seq (send_response Unsupported_command) (return_value True) (put_network n d))"
proof -
  let ?n = "db_network d"
  from assms obtain pieces where hs: "idle ?n" "\<forall>k. nw_write_ok ?n k" "length (escape s) \<le> max_buffer_size"
    "nw_reads ?n = arriving pieces @ rest" "concat pieces = frame_of s" "list_all (\<lambda>c. c \<noteq> []) pieces"
    by (auto simp: ready_def delivers_def)
  from get_packet_frame[OF hs(1,3-6)] obtain e where
    e: "get_packet_from_decoder ?n = Some (Inr (Inr s), ?n\<lparr>nw_reads := rest, nw_decoder := e\<rparr>)"
      "idle (?n\<lparr>nw_reads := rest, nw_decoder := e\<rparr>)" by blast
  define m where "m = ?n\<lparr>nw_reads := rest, nw_decoder := e, nw_written := nw_written ?n @ [buffer ''+'']\<rparr>"
  have "setup_socket ?n = Some (Inr (), ?n)" using hs(1) by (simp add: setup_socket_def idle_def)
  then have "net_receive ?n = Some (Inr (case parse s of Value cmd \<Rightarrow> Inr cmd | _ \<Rightarrow> Inl Decode_fail), m)"
    if "\<not> throws (parse s)"
    using that hs(2) e(1)
    by (cases "parse s") (simp_all add: net_receive_def catch_exception_def seq_def and_do_def max_retry_count_def
        numeral_eq_Suc socket_write_def parse_command_def return_value_def Let_def m_def)
  then have "(\<forall>cmd. parse s = Value cmd \<longrightarrow> run_turn d = serve_command cmd (put_network m d))
    \<and> (parse s = Unexpected () \<longrightarrow>
         run_turn d = seq (send_response Unsupported_command) (return_value True) (put_network m d))"
    by (auto simp: run_turn_def and_do_def on_network_def act_on_part_def)
  then show ?thesis using e(2) hs(2) by (intro exI[of _ m]) (simp add: m_def ready_def idle_def)
qed

text \<open>
  A turn of the command loop receives the command, confirms it, runs its handler and sends the reply,
  and is then ready for the next command.
\<close>

lemma turn_answers:
  assumes "ready d" "delivers s mid (reads_of d)" "confirms rest mid"
    and "gdb_syntax s cmd" "command_handler cmd = Some h"
    and "\<And>n. \<exists>e'. answers h (put_network n d) r e' \<and> Q e'" "\<And>n e'. Q (put_network n e') = Q e'"
  shows "\<exists>d'. run_turn d = Some (Inr True, d') \<and> Q d' \<and> ready d' \<and> reads_of d' = rest
    \<and> written_by d' = written_by d @ [buffer ''+'', encode (response_to_string r)]"
proof -
  obtain n where n: "ready (put_network n d)" "nw_reads n = mid" "nw_written n = written_by d @ [buffer ''+'']"
    "run_turn d = serve_command cmd (put_network n d)"
    using turn_receives[OF assms(1,2)] parse_gdb_syntax[OF assms(4)] by blast
  obtain f where f: "h (put_network n d) = send_response r f" "db_network f = n" "Q f"
    using assms(6)[of n] by (auto simp: answers_def)
  have "ready f" "confirms rest (reads_of f)" using n(1,2) f(2) assms(3) by (simp_all add: ready_def)
  from send_response_ready[OF this, of r] obtain k where
    k: "send_response r f = Some (Inr (), put_network k f)" "ready (put_network k f)" "nw_reads k = rest"
      "nw_written k = written_by f @ [encode (response_to_string r)]" by blast
  then have "run_turn d = Some (Inr True, put_network k f)"
    using assms(5) f(1) n(4) by (simp add: serve_command_def seq_def and_do_def return_value_def)
  then show ?thesis using k f n(3) assms(7) by (intro exI[of _ "put_network k f"]) simp
qed

text \<open>A command that the parser does not know gets the empty reply.\<close>

lemma turn_unsupported:
  assumes "ready d" "delivers s mid (reads_of d)" "confirms rest mid" "parse s = Unexpected ()"
  shows "\<exists>n. run_turn d = Some (Inr True, put_network n d) \<and> ready (put_network n d) \<and> nw_reads n = rest
    \<and> nw_written n = written_by d @ [buffer ''+'', ''$#00'']"
proof -
  obtain n where n: "ready (put_network n d)" "nw_reads n = mid" "nw_written n = written_by d @ [buffer ''+'']"
    "run_turn d = seq (send_response Unsupported_command) (return_value True) (put_network n d)"
    using turn_receives[OF assms(1,2)] assms(4) by blast
  have "confirms rest (reads_of (put_network n d))" using n(2) assms(3) by simp
  from send_response_ready[OF n(1) this, of Unsupported_command] obtain k where
    k: "send_response Unsupported_command (put_network n d) = Some (Inr (), put_network k (put_network n d))"
      "ready (put_network k (put_network n d))" "nw_reads k = rest"
      "nw_written k = nw_written n @ [encode []]" by auto
  have e: "encode [] = ''$#00''"
    by (simp add: encode_def internal_encode_def encoder_init_def push_repeat_def Let_def get_checksum_def hex2_def hex_char_def char_of_eq_iff)
  have p: "put_network k (put_network n d) = put_network k d" by (simp add: put_network_def)
  show ?thesis using k n(3,4) unfolding p
    by (intro exI[of _ k]) (simp add: e seq_def and_do_def return_value_def)
qed

text \<open>
  A packet that is parsed but has no handler, such as a request for the extended mode, ends the
  session: the connection is closed and the loop left.
\<close>

lemma turn_unhandled:
  assumes "ready d" "delivers s rest (reads_of d)" "parse s = Value cmd" "cmd = Enable_persistant \<or> cmd = Interrupt_packet"
  shows "\<exists>n. run_turn d = Some (Inr False, put_network n d) \<and> \<not> nw_connected n"
proof -
  obtain n where n: "run_turn d = serve_command cmd (put_network n d)"
    using turn_receives[OF assms(1,2)] assms(3) by blast
  show ?thesis using n assms(4)
    by (auto simp: serve_command_def command_handler_def handle_special_commands_def seq_def and_do_def return_value_def
        on_network_def act_on_part_def change_def put_network_def net_close_def)
qed

text \<open>The replies of the register and memory commands have only hexadecimal digits; the host reads them back.\<close>

lemma digits_received:
  assumes "list_all is_xdigit s"
  shows "rsp_receive (encode s) = Some s"
proof (rule encode_received)
  have x: "\<not> is_special c \<and> c \<noteq> CHR 0x00" if "is_xdigit c" for c
    using that by (auto simp: is_xdigit_def is_special_def)
  show "no_special_run s" using assms
    by (induction s rule: no_special_run.induct) (use x in auto)
  show "CHR 0x00 \<notin> set s" using assms x by (auto simp: list_all_iff)
qed

section \<open>Reading memory\<close>

lemma mem_read_answers:
  assumes "platform_inv (db_memory d)" "unat a mod 4 = 0"
    and "\<forall>j < unat n. byte_at (platform_view (db_memory d)) (a + of_nat j) \<noteq> None"
  shows "\<exists>e. answers (handle_mem_read a n) (put_network net d)
      (Raw_byte_stream (map (\<lambda>j. snd (the (byte_at (platform_view (db_memory d)) (a + of_nat j)))) [0..<unat n])) e
    \<and> (db_cpu e = db_cpu d \<and> platform_view (db_memory e) = platform_view (db_memory d))"
proof -
  obtain m where m: "mem_read_bytes platform_interface a (unat n) (db_memory d) =
      (Inr (map (\<lambda>j. snd (the (byte_at (platform_view (db_memory d)) (a + of_nat j)))) [0..<unat n]), m)"
    "platform_view m = platform_view (db_memory d)"
    using plat.debugger_reads[OF assms] by blast
  then show ?thesis
    by (intro exI[of _ "put_memory m (put_network net d)"])
      (simp add: answers_def handle_mem_read_def on_memory_def on_part_def and_do_def)
qed

text \<open>
  The host asks for memory at an aligned address and gets exactly the bytes there, however its packet
  was cut; nothing the program can observe changes.
\<close>

lemma host_reads_memory:
  assumes "debugger_inv d" "ready d" "delivers (''m'' @ s @ '','' @ t) mid (reads_of d)" "confirms rest mid"
    and "hex_num s a" "hex_num t n"
    and "unat a mod 4 = 0" "0 < n" "\<forall>j < unat n. byte_at (platform_view (db_memory d)) (a + of_nat j) \<noteq> None"
  shows "\<exists>d' reply. run_turn d = Some (Inr True, d') \<and> written_by d' = written_by d @ [buffer ''+'', reply]
    \<and> rsp_receive reply =
        Some (hex_bytes (map (\<lambda>j. snd (the (byte_at (platform_view (db_memory d)) (a + of_nat j)))) [0..<unat n]))
    \<and> db_cpu d' = db_cpu d \<and> platform_view (db_memory d') = platform_view (db_memory d)"
proof -
  let ?b = "map (\<lambda>j. snd (the (byte_at (platform_view (db_memory d)) (a + of_nat j)))) [0..<unat n]"
  have ne: "?b \<noteq> []" using assms(8) by (simp add: word_less_nat_alt)
  have r: "response_to_string (Raw_byte_stream ?b) = hex_bytes ?b" using ne by (simp add: hex_bytes_def)
  have h: "command_handler (Read_memory a n) = Some (handle_mem_read a n)" by (simp add: command_handler_def)
  from turn_answers[OF assms(2-4) gdb_syntax.read_memory[OF assms(5,6)] h
      mem_read_answers[OF debugger_invD(2)[OF assms(1)] assms(7,9)]]
  show ?thesis
    unfolding r using digits_received[OF hex_bytes_xdigits[of ?b]] by auto
qed

section \<open>Registers\<close>

lemma reg_read_valid:
  assumes "reg_valid n"
  shows "cpu_register_read n c = (Some (reg_get n c), c)"
proof -
  consider "n < 32" | "n = 32" | sl where "csr_number n = Some sl" "sl \<noteq> Mstatus_low" "sl \<noteq> Mstatus_high"
    using assms by (fastforce simp: reg_valid_def)
  then show ?thesis by cases (simp_all add: reg_get_def accessor_gpr accessor_pc accessor_csr_read)
qed

lemma single_reg_read_answers:
  assumes "reg_valid r"
  shows "\<exists>e. answers (handle_single_reg_read r) (put_network n d) (Single_register_content (Some (reg_get r (db_cpu d)))) e
    \<and> (db_cpu e = db_cpu d \<and> db_memory e = db_memory d)"
  by (intro exI[of _ "put_cpu (db_cpu d) (put_network n d)"])
    (simp add: answers_def handle_single_reg_read_def on_cpu_def on_part_def and_do_def reg_read_valid[OF assms])

lemma single_reg_write_answers:
  "\<exists>e. answers (handle_single_reg_write r v) (put_network n d) OK e
    \<and> (db_cpu e = reg_put r v (db_cpu d) \<and> db_memory e = db_memory d)"
  by (intro exI[of _ "put_cpu (reg_put r v (db_cpu d)) (put_network n d)"])
    (simp add: answers_def handle_single_reg_write_def on_cpu_def on_part_def and_do_def reg_put_def split: prod.split)

text \<open>The host writes a register and reads it: it gets the value it wrote, and no other register changed.\<close>

lemma host_writes_register:
  assumes "debugger_inv d" "ready d" "reg_valid r" "reg_writable r" "hex_num s r" "length s \<le> 4"
    and "delivers (''P'' @ s @ ''='' @ hex8 v) mid (reads_of d)" "confirms reads mid"
    and "delivers (''p'' @ s) mid' reads" "confirms rest mid'"
  shows "\<exists>d1 d2 reply. run_turn d = Some (Inr True, d1) \<and> run_turn d1 = Some (Inr True, d2)
    \<and> written_by d2 = written_by d @ [buffer ''+'', encode ''OK'', buffer ''+'', reply]
    \<and> rsp_receive reply = Some (hex8 v)
    \<and> (\<forall>q. reg_valid q \<and> q \<noteq> r \<longrightarrow> reg_get q (db_cpu d2) = reg_get q (db_cpu d)) \<and> db_memory d2 = db_memory d"
proof -
  have h1: "command_handler (Write_single_register r v) = Some (handle_single_reg_write r v)"
    and h2: "command_handler (Read_single_register r) = Some (handle_single_reg_read r)"
    by (simp_all add: command_handler_def)
  obtain d1 where d1: "run_turn d = Some (Inr True, d1)" "db_cpu d1 = reg_put r v (db_cpu d)" "db_memory d1 = db_memory d"
    "ready d1" "reads_of d1 = reads" "written_by d1 = written_by d @ [buffer ''+'', encode ''OK'']"
    using turn_answers[OF assms(2,7,8) gdb_syntax.write_register[OF assms(5,6)] h1 single_reg_write_answers] by auto
  have del: "delivers (''p'' @ s) mid' (reads_of d1)" using assms(9) d1(5) by simp
  obtain d2 where d2: "run_turn d1 = Some (Inr True, d2)" "db_cpu d2 = db_cpu d1" "db_memory d2 = db_memory d1"
    "written_by d2 = written_by d1 @ [buffer ''+'', encode (response_to_string (Single_register_content (Some (reg_get r (db_cpu d1)))))]"
    using turn_answers[OF d1(4) del assms(10) gdb_syntax.read_register[OF assms(5,6)] h2
        single_reg_read_answers[OF assms(3), of _ d1]] by auto
  have c: "cpu_inv (db_cpu d)" by (rule debugger_invD[OF assms(1)])
  have "reg_get r (db_cpu d1) = v" using debug_regs.get_put_same[OF c assms(3,4)] d1(2) by simp
  moreover have "\<forall>q. reg_valid q \<and> q \<noteq> r \<longrightarrow> reg_get q (db_cpu d2) = reg_get q (db_cpu d)"
    using debug_regs.get_put_other[OF c assms(3)] d1(2) d2(2) by metis
  ultimately show ?thesis using d1 d2 digits_received[OF hex8_xdigits[of v]] by auto
qed

section \<open>Writing memory\<close>

lemma word_byte_ucast: "word_byte 0 (ucast (b :: u8)) = b"
  by (simp add: word_byte_def ucast_down_ucast_id is_down)

lemma aligned_word:
  fixes a :: u32
  assumes "unat a mod 4 = 0"
  shows "a AND 0xfffffffc = a" and "a AND 3 = 0"
proof -
  show "a AND 0xfffffffc = a" using assms by (simp add: word_unat_eq_iff unat_align) (metis mult_div_mod_eq add_0_right)
  show "a AND 3 = 0" using assms by (simp add: word_unat_eq_iff unat_and3)
qed

lemma platform_view_unaligned:
  assumes "a AND 3 \<noteq> 0"
  shows "platform_view m a = None"
proof -
  have "(a - ram_start) AND 3 \<noteq> 0" "(a - rom_start) AND 3 \<noteq> 0"
    using assms by (simp_all add: and_3_minus ram_start_def rom_start_def)
  then show ?thesis by (simp add: platform_view_def block_view_def)
qed

text \<open>The first byte of a write is a store of a byte.\<close>

lemma first_byte_stored:
  assumes "platform_inv m" "unat a mod 4 = 0" "platform_view m (ucast a) = Some (True, w)"
  shows "\<exists>m'. mi_write platform_interface m (ucast a) (push_bit (unat (a mod 4 * 8)) (ucast b))
      (bs_of (push_bit (unat (a mod 4)) 1)) = (Value (), m') \<and> platform_inv m'
    \<and> (\<forall>c. byte_at (platform_view m') c = (if c = a then Some (True, b) else byte_at (platform_view m) c))"
proof -
  have z: "a mod 4 = 0" using assms(2) by (simp add: word_unat_eq_iff unat_mod_4)
  note al = aligned_word[OF assms(2)]
  obtain m' where m': "mi_write platform_interface m (ucast a) (ucast b) (bs_of 1) = (Value (), m')"
    using plat.write_value[OF assms(1,3)] by (metis prod.collapse)
  have "snd (load_store platform_interface Ls_Store Store_byte a (ucast b) m) = m'"
    using m' by (simp add: load_store_def Let_def al)
  then have bytes: "byte_at (platform_view m') c =
      (if unat a \<le> unat c \<and> unat c < unat a + 1 then Some (True, word_byte (unat c - unat a) (ucast b))
       else byte_at (platform_view m) c)" for c
    using plat.store_bytes[where a = a and f = Store_byte and b = c and x = "ucast b" and v = w, OF assms(1)] assms(3)
    by (simp add: is_store_funct_def ls_size.simps al)
  have "byte_at (platform_view m') c = (if c = a then Some (True, b) else byte_at (platform_view m) c)" for c
    using bytes[of c] word_byte_ucast by (auto simp: word_unat_eq_iff)
  moreover have "platform_inv m'" using plat.write_inv[OF assms(1), of "ucast a" "ucast b" "bs_of 1"] m' by simp
  ultimately show ?thesis using m' by (simp add: z)
qed

lemma write_one_byte:
  assumes "platform_inv m" "unat a mod 4 = 0" "platform_view m (ucast a) = Some (True, w)"
  shows "\<exists>m'. mem_write_bytes platform_interface a [b] m = (Inr True, m')
    \<and> (\<forall>c. byte_at (platform_view m') c = (if c = a then Some (True, b) else byte_at (platform_view m) c))"
  using first_byte_stored[OF assms, of b] by (auto simp: mem_write_bytes_def)

text \<open>
  The device is asked for the address of each byte, and takes only addresses of words: a write of more
  than one byte stores the first and then fails.
\<close>

lemma write_more_fails:
  assumes "platform_inv m" "unat a mod 4 = 0" "platform_view m (ucast a) = Some (True, w)"
  shows "\<exists>m'. mem_write_bytes platform_interface a (b # b' # bs) m = (Inr False, m')
    \<and> (\<forall>c. byte_at (platform_view m') c = (if c = a then Some (True, b) else byte_at (platform_view m) c))"
proof -
  obtain m1 where m1: "mi_write platform_interface m (ucast a) (push_bit (unat (a mod 4 * 8)) (ucast b))
      (bs_of (push_bit (unat (a mod 4)) 1)) = (Value (), m1)" "platform_inv m1"
    "\<forall>c. byte_at (platform_view m1) c = (if c = a then Some (True, b) else byte_at (platform_view m) c)"
    using first_byte_stored[OF assms, of b] by blast
  have odd: "unat (a + 1) mod 4 = 1" using unat_succ_mod_4[of a] assms(2) by presburger
  then have u: "(ucast (a + 1) :: u64) AND 3 \<noteq> 0"
    using and_low[of 3 2 "ucast (a + 1) :: u64"] by (simp add: mask_eq_exp_minus_1 word_unat_eq_iff)
  have k: "\<not> bs_eq_int (bs_of (push_bit (unat ((a + 1) mod 4)) 1) :: 4 bitset) 0"
    unfolding unat_mod_4 odd by (simp add: bs_eq_int_def bs_of_def bs_mask_def mask_eq_exp_minus_1)
  obtain e m2 where m2: "mi_write platform_interface m1 (ucast (a + 1)) (push_bit (unat ((a + 1) mod 4 * 8)) (ucast b'))
      (bs_of (push_bit (unat ((a + 1) mod 4)) 1)) = (Unexpected e, m2)"
    using platform_unaligned(2)[OF m1(2) u k] by (metis prod.collapse)
  have "platform_view m2 = platform_view m1"
    using plat.write_view[OF m1(2), of "ucast (a + 1)"] m2 platform_view_none[OF platform_view_unaligned[OF u]]
    by (metis snd_conv)
  with m1 m2 show ?thesis by (simp add: mem_write_bytes_def)
qed

text \<open>
  What \<open>M\<close> answers: the device is asked for every byte at its own address, and refuses all but the first.
\<close>

lemma mem_write_answers:
  assumes "platform_inv (db_memory d)" "unat a mod 4 = 0" "platform_view (db_memory d) (ucast a) = Some (True, w)"
  shows "\<exists>e. answers (handle_mem_write a (b # bs)) (put_network n d) (if bs = [] then OK else Error_code 0) e
    \<and> (db_cpu e = db_cpu d \<and> (\<forall>c. byte_at (platform_view (db_memory e)) c =
         (if c = a then Some (True, b) else byte_at (platform_view (db_memory d)) c)))"
proof -
  obtain m where m: "mem_write_bytes platform_interface a (b # bs) (db_memory d) = (Inr (bs = []), m)"
    "\<forall>c. byte_at (platform_view m) c = (if c = a then Some (True, b) else byte_at (platform_view (db_memory d)) c)"
    using write_one_byte[OF assms, of b] write_more_fails[OF assms, of b "hd bs" "tl bs"] by (cases "bs = []") auto
  then show ?thesis
    by (intro exI[of _ "put_memory m (put_network n d)"])
      (auto simp: answers_def handle_mem_write_def on_memory_def on_part_def and_do_def)
qed

lemma host_writes_memory:
  assumes "debugger_inv d" "ready d" "delivers (''M'' @ s @ '','' @ t @ '':'' @ hex_bytes (b # bs)) mid (reads_of d)"
    and "confirms rest mid" "hex_num s a" "hex_num t n" "length (b # bs) = unat n" "length (b # bs) < 2 ^ 31"
    and "unat a mod 4 = 0" "platform_view (db_memory d) (ucast a) = Some (True, w)"
  shows "\<exists>d'. run_turn d = Some (Inr True, d')
    \<and> written_by d' = written_by d @ [buffer ''+'', encode (if bs = [] then ''OK'' else ''E00'')]
    \<and> db_cpu d' = db_cpu d \<and> (\<forall>c. byte_at (platform_view (db_memory d')) c =
         (if c = a then Some (True, b) else byte_at (platform_view (db_memory d)) c))"
proof -
  have h: "command_handler (Write_memory a (b # bs)) = Some (handle_mem_write a (b # bs))" by (simp add: command_handler_def)
  have r: "response_to_string (if bs = [] then OK else Error_code 0) = (if bs = [] then ''OK'' else ''E00'')"
    by (simp add: hex2_def hex_char_def char_of_eq_iff)
  from turn_answers[OF assms(2-4) gdb_syntax.write_memory[OF assms(5,6,7) _ assms(8)] h
      mem_write_answers[OF debugger_invD(2)[OF assms(1)] assms(9,10), of b bs]]
  show ?thesis unfolding r by auto
qed

section \<open>Every state of a session\<close>

inductive debug_reachable :: "debugger \<Rightarrow> bool" where
  start: "emu_reachable e \<Longrightarrow> debug_reachable (debugger_new e (network_new buf reads write_ok accept_ok) files xml j sched)"
| turn: "debug_reachable d \<Longrightarrow> run_turn d = Some (r, d') \<Longrightarrow> debug_reachable d'"

lemma debug_reachable_inv: "debug_reachable d \<Longrightarrow> debugger_inv d"
proof (induction rule: debug_reachable.induct)
  case (start e buf reads write_ok accept_ok files xml j sched)
  then show ?case by (intro debugger_new_inv emu_reachable_inv)
next
  case (turn d r d')
  then show ?case by (blast dest: preservesD[OF run_turn_keeps])
qed

lemma session_reachable:
  assumes "debugger_run d = Some (r, d')" "debug_reachable d"
  shows "debug_reachable d'"
proof -
  have "debug_reachable d \<longrightarrow> debug_reachable (snd (r, d'))"
  proof (rule debugger_run.raw_induct[where P = "\<lambda>d y. debug_reachable d \<longrightarrow> debug_reachable (snd y)", OF _ assms(1)], goal_cases)
    case (1 run d y)
    obtain q e where q: "run_turn d = Some (q, e)" using 1(2) by (auto split: option.splits)
    show ?case
    proof
      assume "debug_reachable d"
      then have e: "debug_reachable e" using q by (rule debug_reachable.turn)
      show "debug_reachable (snd y)"
      proof (cases "q = Inr True")
        case True
        then have "run e = Some y" using 1(2) q by simp
        then show ?thesis using 1(1) e by blast
      next
        case False
        then show ?thesis using 1(2) q e by (auto split: sum.splits)
      qed
    qed
  qed
  then show ?thesis using assms(2) by simp
qed

end
