(* ===== verification/DebugExamples.thy ===== *)
theory DebugExamples
  imports Examples Stepping DebugSession
begin

text \<open>
  A debugger with the example platform, a host that is connected, and the reads given: the states at
  which the properties of the debugger are instantiated.
\<close>

unbundle bit_operations_syntax

definition demo_emulator :: "u32 \<Rightarrow> emulator" where
  "demo_emulator w =
     \<lparr>em_cpu = demo_cpu, em_memory = demo_memory w, em_inst_executed = 0, em_trap_capture = No_capture,
      em_stop_at_infinite_loop = False\<rparr>"

definition demo_network :: "net_read list \<Rightarrow> network" where
  "demo_network reads = (network_new (CHR 0x00, CHR 0x00) reads (\<lambda>_. True) (\<lambda>_. True))\<lparr>nw_connected := True\<rparr>"

definition demo_debugger :: "u32 \<Rightarrow> net_read list \<Rightarrow> debugger" where
  "demo_debugger w reads =
     debugger_new (demo_emulator w) (demo_network reads)
       \<lparr>xf_riscv_32bit_cpu = [], xf_target = []\<rparr> [] (\<lambda>_. demo_junk) (\<lambda>_. 2)"

lemma demo_fields [simp]:
  "db_cpu (demo_debugger w reads) = demo_cpu" "db_memory (demo_debugger w reads) = demo_memory w"
  "db_network (demo_debugger w reads) = demo_network reads" "db_emulator (demo_debugger w reads) = demo_emulator w"
  "db_hw_breakpoints (demo_debugger w reads) = []" "db_watchpoints (demo_debugger w reads) = []"
  "db_junk (demo_debugger w reads) = (\<lambda>_. demo_junk)" "db_schedule (demo_debugger w reads) = (\<lambda>_. 2)"
  "nw_reads (demo_network reads) = reads" "nw_written (demo_network reads) = []" "nw_write_ok (demo_network reads) = (\<lambda>_. True)"
  by (simp_all add: demo_debugger_def debugger_new_def demo_emulator_def db_cpu_def db_memory_def demo_network_def network_new_def)

lemma demo_debugger_inv: "debugger_inv (demo_debugger w reads)"
proof -
  have "emu_inv (demo_emulator w)" by (simp add: emu_inv_def demo_emulator_def demo_inv)
  then show ?thesis
    by (simp add: debugger_inv_def demo_debugger_def debugger_new_def demo_network_def network_new_def net_inv_def
        decoder_init_inv keys_sorted_def)
qed

lemma demo_ready: "ready (demo_debugger w reads)"
proof -
  have "decoder_inv (nw_decoder (demo_network reads))"
    by (simp add: demo_network_def network_new_def decoder_init_inv)
  then show ?thesis
    by (simp add: ready_def idle_def) (simp add: demo_network_def network_new_def decoder_init_def)
qed

lemma delivers_frame:
  "length (escape s) \<le> max_buffer_size \<Longrightarrow> delivers s rest (Read_some (frame_of s) False # rest)"
  by (auto simp: delivers_def arriving_def frame_of_def intro!: exI[of _ "[frame_of s]"])

lemma confirms_plus: "confirms rest (Read_some ''+'' late # rest)"
  by (simp add: confirms_def)

text \<open>A word that is no instruction: the cycle traps to the vector, and requests nothing of the memory.\<close>

lemma tick_of_execute:
  "execute platform_interface j (em_cpu e) (em_memory e) = (Inr r, s, m) \<Longrightarrow> \<exists>e'. tick_one_cycle j e = (Inr r, e')"
  by (simp add: tick_one_cycle_def cpu_step_def Let_def split: prod.split)

lemma demo_cycle:
  obtains r e where "tick_one_cycle demo_junk (demo_emulator 0) = (Inr r, e)" "cr_trap r = Some Illegal_instruction"
    "sized_request r"
proof -
  obtain c n where f: "inst_fetch platform_interface (cpu_pc demo_cpu) (cpu_inst_fetch demo_cpu, demo_memory 0)
      = (Value 0, c, n)"
    using demo_fetch[of 0] by (cases "inst_fetch platform_interface (cpu_pc demo_cpu) (cpu_inst_fetch demo_cpu, demo_memory 0)") auto
  have "\<not> bs_eq_int (bs_slice 1 0 (instr_bits 0) :: 2 bitset) 0b11"
    by (simp add: bs_eq_int_def bs_slice_def instr_bits_def bs_of_def bs_mask_def mask_eq_exp_minus_1)
  then have d: "inst_decode rf 0 pc = Inl Illegal_instruction" for rf pc
    by (simp add: inst_decode_def)
  define r where "r = (cpu_result_init demo_junk)\<lparr>cr_pc := cpu_pc demo_cpu, cr_inst := 0, cr_trap := Some Illegal_instruction\<rparr>"
  have "execute platform_interface demo_junk demo_cpu (demo_memory 0) = (Inr r, demo_cpu\<lparr>cpu_inst_fetch := c\<rparr>, n)"
    using f d by (simp add: execute_def Let_def r_def)
  then obtain e where "tick_one_cycle demo_junk (demo_emulator 0) = (Inr r, e)"
    using tick_of_execute[of demo_junk "demo_emulator 0"] by (auto simp: demo_emulator_def)
  moreover have "dr_memory_opcode r = Ls_None" by (simp add: r_def cpu_result_init_def decode_result.defs decode_result_default_def)
  ultimately show thesis using that by (simp add: r_def sized_request_def)
qed

text \<open>A load with the reserved function code 3.\<close>

lemma demo_reserved_load:
  obtains r e where "tick_one_cycle demo_junk (demo_emulator 0x00003003) = (Inr r, e)" "\<not> sized_request r"
proof -
  obtain c n where f: "inst_fetch platform_interface (cpu_pc demo_cpu) (cpu_inst_fetch demo_cpu, demo_memory 0x00003003)
      = (Value 0x00003003, c, n)"
    using demo_fetch[of "0x00003003"]
    by (cases "inst_fetch platform_interface (cpu_pc demo_cpu) (cpu_inst_fetch demo_cpu, demo_memory 0x00003003)") auto
  let ?d = "decode_load (cpu_registers demo_cpu) (instr_bits 0x00003003)"
  have d: "inst_decode (cpu_registers demo_cpu) 0x00003003 (cpu_pc demo_cpu) = Inr ?d"
    by (simp add: inst_decode_def opcode_of_def Let_def bs_eq_int_def bs_nat_def bs_slice_def instr_bits_def bs_of_def
        bs_mask_def mask_eq_exp_minus_1)
  have k: "dr_memory_opcode ?d = Ls_Load" "dr_memory_funct ?d = Funct_None" "\<not> dr_ecall ?d"
    "dr_csr_access_info ?d = csr_access_info_default"
    by (simp_all add: decode_load_def Let_def decode_result_default_def bs_nat_def Itype_def bs_slice_def instr_bits_def
        bs_of_def bs_mask_def mask_eq_exp_minus_1)
  have csr: "csr_access csr_access_info_default q = (Inr 0, q)" for q
    by (simp add: csr_access_none csr_access_info_default_def)
  have ls: "load_store platform_interface Ls_Load Funct_None a x n = (Unexpected Load_address_misaligned, n)" for a x
    by (simp add: load_store_def)
  have "\<exists>r s. execute platform_interface demo_junk demo_cpu (demo_memory 0x00003003) = (Inr r, s, n) \<and> \<not> sized_request r"
    using f d k by (simp add: execute_def execute_decoded_def demo_no_interrupt csr ls Let_def sized_request_def)
  then obtain r s where r: "execute platform_interface demo_junk demo_cpu (demo_memory 0x00003003) = (Inr r, s, n)"
    "\<not> sized_request r" by blast
  then obtain e where "tick_one_cycle demo_junk (demo_emulator 0x00003003) = (Inr r, e)"
    using tick_of_execute[of demo_junk "demo_emulator 0x00003003"] by (auto simp: demo_emulator_def)
  then show thesis using that r(2) by blast
qed
section \<open>Single cycles\<close>

lemma demo_emulator_inv: "emu_inv (demo_emulator w)"
  by (simp add: emu_inv_def demo_emulator_def demo_inv)

lemma demo_rom_word: "platform_view (em_memory (demo_emulator w)) 0x00100000 = Some (False, w)"
  by (simp add: demo_emulator_def platform_view_def block_view_def demo_memory_def ram_start_def rom_start_def
      block_memory_new_def page_content_def)

text \<open>An instruction that can be fetched, with the timer interrupt enabled and pending.\<close>

definition demo_waiting :: "u32 \<Rightarrow> emulator" where
  "demo_waiting w = (demo_emulator w)\<lparr>em_cpu := demo_cpu\<lparr>cpu_csr := csr_init
     \<lparr>csr_mip := 0x80, csr_mie := 0x80, csr_mstatus := mstatus_init\<lparr>ms_mie := True\<rparr>\<rparr>\<rparr>\<rparr>"

lemma demo_waiting_pending: "timer_interrupt_pending (cpu_csr (em_cpu (demo_waiting w)))"
  by (simp add: timer_interrupt_pending_def demo_waiting_def Let_def)

lemma demo_interrupt:
  obtains r e where "tick_one_cycle demo_junk (demo_waiting (rv_encode (OPI ADDI 1 0 5))) = (Inr r, e)"
    "cr_trap r = Some Machine_timer_interrupt"
proof -
  let ?i = "rv_encode (OPI ADDI 1 0 5)" and ?s = "em_cpu (demo_waiting (rv_encode (OPI ADDI 1 0 5)))"
  have s: "cpu_pc ?s = cpu_pc demo_cpu" "cpu_inst_fetch ?s = cpu_inst_fetch demo_cpu"
    "em_memory (demo_waiting w) = demo_memory w" for w
    by (simp_all add: demo_waiting_def demo_emulator_def)
  obtain c n where f: "inst_fetch platform_interface (cpu_pc demo_cpu) (cpu_inst_fetch demo_cpu, demo_memory ?i) = (Value ?i, c, n)"
    using demo_fetch[of ?i] by (metis prod.collapse)
  obtain d where d: "inst_decode (cpu_registers ?s) ?i (cpu_pc demo_cpu) = Inr d" "\<not> dr_ecall d"
    using decode_encode[of "cpu_registers ?s" "OPI ADDI 1 0 5" "cpu_pc demo_cpu"] by (simp add: decode_result_default_def)
  have "\<exists>r q. execute platform_interface demo_junk ?s (em_memory (demo_waiting ?i)) = (Inr r, q, n)
      \<and> cr_trap r = Some Machine_timer_interrupt"
    using f d demo_waiting_pending[of ?i] by (simp add: execute_def Let_def s del: rv_encode.simps)
  then show thesis using that tick_of_execute by metis
qed

text \<open>A jump to itself.\<close>

lemma demo_loop:
  obtains r e where "tick_one_cycle demo_junk (demo_emulator (rv_encode (JAL 0 0))\<lparr>em_stop_at_infinite_loop := True\<rparr>) = (Inr r, e)"
    "infinite_loop e r"
proof -
  let ?i = "rv_encode (JAL 0 0)" let ?e = "demo_emulator ?i\<lparr>em_stop_at_infinite_loop := True\<rparr>"
  obtain c n where f: "inst_fetch platform_interface (cpu_pc demo_cpu) (cpu_inst_fetch demo_cpu, demo_memory ?i) = (Value ?i, c, n)"
    using demo_fetch[of ?i] by (metis prod.collapse)
  have csr: "csr_access csr_access_info_default q = (Inr 0, q)" for q
    by (simp add: csr_access_none csr_access_info_default_def)
  have "JAL 0 0 \<noteq> ECALL" by simp
  have "\<exists>r q. execute platform_interface demo_junk demo_cpu (demo_memory ?i) = (Inr r, q, n)
      \<and> cr_trap r = None \<and> cr_pc r = cr_alu_result r \<and> cr_branch_result r"
    unfolding execute_encoded[OF f demo_no_interrupt \<open>JAL 0 0 \<noteq> ECALL\<close>]
    by (simp add: execute_decoded_def execute_commit_def Let_def decode_result_default_def csr fetched_def compare_eq_def)
  then obtain r q where r: "execute platform_interface demo_junk (em_cpu ?e) (em_memory ?e) = (Inr r, q, n)"
    "cr_trap r = None" "cr_pc r = cr_alu_result r" "cr_branch_result r" by (auto simp: demo_emulator_def)
  obtain e where e: "tick_one_cycle demo_junk ?e = (Inr r, e)" using tick_of_execute[OF r(1)] by blast
  have "em_stop_at_infinite_loop e" using e by (cases rule: tick_cases) simp
  then show thesis using that[OF e] r by (simp add: infinite_loop_def)
qed

section \<open>Runs and stop points\<close>

lemma demo_run_cycle:
  obtains e where "run_cycle (demo_debugger 0 reads) = Some (Inr None, (demo_debugger 0 reads)\<lparr>db_emulator := e\<rparr>)"
    "tick_cycles 1 (\<lambda>_. demo_junk) (demo_emulator 0) = Some e"
proof -
  obtain r e where e: "tick_one_cycle demo_junk (demo_emulator 0) = (Inr r, e)" "sized_request r" by (rule demo_cycle)
  have "(demo_debugger 0 reads)\<lparr>db_emulator := e, db_junk := \<lambda>n. db_junk (demo_debugger 0 reads) (Suc n)\<rparr>
      = (demo_debugger 0 reads)\<lparr>db_emulator := e\<rparr>"
    by (simp add: demo_debugger_def debugger_new_def)
  with run_cycle_plain[of "demo_debugger 0 reads" r e] e show thesis using that by simp
qed

lemma demo_async:
  obtains d where "async_run (Some 1) (demo_debugger 0 (Read_some ''+'' False # rest)) = Some (Inr (), d)"
proof -
  let ?d = "demo_debugger 0 (Read_some ''+'' False # rest)"
  obtain e where e: "run_cycle ?d = Some (Inr None, ?d\<lparr>db_emulator := e\<rparr>)" by (rule demo_run_cycle)
  have s: "?d\<lparr>db_schedule := \<lambda>n. db_schedule ?d (Suc n)\<rparr> = ?d" by (simp add: demo_debugger_def debugger_new_def)
  let ?e = "?d\<lparr>db_emulator := e\<rparr>"
  have w: "worker_runs False (Running (Some 1)) ?d = Some (Finished (Inr (stop_at_signal SIGTRAP)), ?e)"
    unfolding worker_runs_def s using e by (simp add: numeral_eq_Suc worker_cycle_def)
  have "ready ?e" using demo_ready[of 0 "Read_some ''+'' False # rest"] by (simp add: ready_def)
  from send_response_ready[OF this, of rest "stop_at_signal SIGTRAP"] obtain n where
    "send_response (stop_at_signal SIGTRAP) ?e = Some (Inr (), put_network n ?e)"
    using confirms_plus[of rest False] by (auto simp: confirms_def)
  then have "async_run (Some 1) ?d = Some (Inr (), put_network n ?e)"
    unfolding async_run_def by (subst async_loop.simps, subst w) simp
  then show thesis by (rule that)
qed
text \<open>A breakpoint at the trap vector, where the illegal word leads.\<close>

definition demo_at_breakpoint :: "u8 list option \<Rightarrow> debugger" where
  "demo_at_breakpoint cond = (demo_debugger 0 [])\<lparr>db_hw_breakpoints := [(0, breakpoint_from 0 cond)]\<rparr>"

lemma demo_breakpoint_inv: "debugger_inv (demo_at_breakpoint cond)"
  using demo_debugger_inv[of 0 "[]"]
  by (simp add: demo_at_breakpoint_def debugger_inv_def keys_sorted_def breakpoint_from_def)

lemma demo_breakpoint_cycle:
  obtains d where "run_cycle (demo_at_breakpoint None) = Some (Inr (Some (stop_at_breakpoint True)), d)" "cpu_pc (db_cpu d) = 0"
proof -
  let ?d = "demo_at_breakpoint None"
  obtain r e where e: "tick_one_cycle demo_junk (demo_emulator 0) = (Inr r, e)" "cr_trap r = Some Illegal_instruction"
    "sized_request r" by (rule demo_cycle)
  have "trap_vector Illegal_instruction (csr_mtvec (cpu_csr demo_cpu)) = 0"
    by (simp add: trap_vector_def demo_cpu_def cpu_init_def csr_init_def mtvec_vectored_def)
  then have pc: "cpu_pc (em_cpu e) = 0" using tick_trap(1)[OF e(1,2)] by (simp add: demo_emulator_def)
  let ?e = "?d\<lparr>db_emulator := e, db_junk := \<lambda>n. db_junk ?d (Suc n)\<rparr>"
  have t: "tick_cycle ?d = Some (Inr r, ?e)"
    using e(1) by (simp add: tick_cycle_def demo_at_breakpoint_def)
  have b: "check_breakpoint ?e = Some (Inr True, ?e)"
    using pc by (simp add: check_breakpoint_def demo_at_breakpoint_def map_find_def partitioned_def keys_from_def
        is_triggered_by_def breakpoint_from_def db_cpu_def put_cpu_def put_memory_def db_memory_def)
  have w: "check_watchpoint r ?e = Some (Inr None, ?e)"
    using e(3) get_size_sized[of "dr_memory_funct r"]
    by (auto simp: check_watchpoint_def demo_at_breakpoint_def sized_request_def map_find_def partitioned_def keys_from_def Let_def)
  have "run_cycle ?d = Some (Inr (Some (stop_at_breakpoint True)), ?e)"
    by (simp add: run_cycle_def and_do_def t b w return_value_def)
  moreover have "cpu_pc (db_cpu ?e) = 0" using pc by (simp add: db_cpu_def)
  ultimately show thesis by (rule that)
qed

lemma demo_session:
  obtains r d0 d where "run_turn d0 = Some (r, d)" "debug_reachable d0"
proof -
  obtain e where "emulator_create (Some (4, [0x13, 0, 0, 0])) Fill_Zero No_capture True (\<lambda>_ _ _. 0) (uart_init [] (\<lambda>_. 0)) = Inr e"
    by (rule demo_created)
  then have "emu_reachable e" by (rule emu_reachable.create)
  then have "debug_reachable (debugger_new e (network_new (CHR 0x00, CHR 0x00) [] (\<lambda>_. True) (\<lambda>_. False))
      \<lparr>xf_riscv_32bit_cpu = [], xf_target = []\<rparr> [] (\<lambda>_. demo_junk) (\<lambda>_. 2))" (is "debug_reachable ?d")
    by (rule debug_reachable.start)
  moreover have "\<exists>r d. run_turn ?d = Some (r, d)"
    by (simp add: run_turn_def and_do_def on_network_def act_on_part_def net_receive_def catch_exception_def seq_def
        setup_socket_def debugger_new_def network_new_def throw_def change_def return_value_def net_close_def put_network_def)
  ultimately show thesis using that by blast
qed

text \<open>Watchpoints on ranges, for reads or for writes, and the load of a word.\<close>

definition demo_watching :: "(address_range \<times> bool) list \<Rightarrow> debugger" where
  "demo_watching ws = (demo_debugger 0 [])\<lparr>db_watchpoints :=
     map (\<lambda>(r, rd). (r, \<lparr>wp_watch_write = \<not> rd, wp_watch_read = rd, wp_addr_range = r\<rparr>)) ws\<rparr>"

lemma demo_watching_inv: "ar_size r \<noteq> 0 \<Longrightarrow> debugger_inv (demo_watching [(r, rd)])"
  using demo_debugger_inv[of 0 "[]"] by (simp add: demo_watching_def debugger_inv_def keys_sorted_def)

definition demo_load :: cpu_result where
  "demo_load = (cpu_result_init demo_junk)\<lparr>dr_memory_opcode := Ls_Load, dr_memory_funct := Load_word, cr_alu_result := 0x80000000\<rparr>"

lemma demo_load_simps [simp]:
  "dr_memory_opcode demo_load = Ls_Load" "dr_memory_funct demo_load = Load_word" "cr_alu_result demo_load = 0x80000000"
  by (simp_all add: demo_load_def)

end
