(* ===== verification/BitsetText.thy ===== *)
theory BitsetText
  imports Bitset Hex
begin

text \<open>
  The string conversions and the compound assignments of \<open>common/bitset.hpp\<close>. The strings are in the notation of Verilog: the width, the base and
  the digits, written from the last digit to the first into a string of zeros. The lemmas read the
  digits back.
\<close>

unbundle bit_operations_syntax

section \<open>The conversions\<close>

definition digit_char :: "bool \<Rightarrow> nat \<Rightarrow> char" where
  "digit_char is_capital n = (if is_capital then ''0123456789ABCDEF'' else ''0123456789abcdef'') ! n"

text \<open>\<open>n\<close> turns of the loop from index \<open>i\<close>.\<close>

primrec hex_loop :: "bool \<Rightarrow> nat \<Rightarrow> nat \<Rightarrow> u64 \<Rightarrow> string \<Rightarrow> string" where
  "hex_loop is_capital 0 i ull convert = convert"
| "hex_loop is_capital (Suc n) i ull convert =
     hex_loop is_capital n (i + 1) (drop_bit 4 ull)
       (convert[length convert - i - 1 := digit_char is_capital (unat (ull AND 0x0F))])"

definition hex_digits :: "bool \<Rightarrow> 'n::len bitset \<Rightarrow> string" where
  "hex_digits is_capital a =
     (let size = (LENGTH('n) + 3) div 4
      in hex_loop is_capital size 0 (bs_value a) (replicate size (CHR ''0'')))"

definition as_hex_string :: "bool \<Rightarrow> 'n::len bitset \<Rightarrow> string" where
  "as_hex_string is_capital a = dec_of_nat LENGTH('n) @ [CHR 0x27, CHR ''h''] @ hex_digits is_capital a"

definition as_dec_string :: "'n::len bitset \<Rightarrow> string" where
  "as_dec_string a = dec_of_nat LENGTH('n) @ [CHR 0x27, CHR ''d''] @ dec_of_nat (unat (bs_value a))"

primrec bin_loop :: "nat \<Rightarrow> nat \<Rightarrow> 'n::len bitset \<Rightarrow> string \<Rightarrow> string" where
  "bin_loop 0 i a convert = convert"
| "bin_loop (Suc n) i a convert =
     bin_loop n (i + 1) a
       (if bs_bool (bs_and a (bs_of (push_bit i 1))) then convert[LENGTH('n) - i - 1 := CHR ''1''] else convert)"

definition bin_digits :: "'n::len bitset \<Rightarrow> string" where
  "bin_digits a = bin_loop LENGTH('n) 0 a (replicate LENGTH('n) (CHR ''0''))"

definition as_bin_string :: "'n::len bitset \<Rightarrow> string" where
  "as_bin_string a = dec_of_nat LENGTH('n) @ [CHR 0x27, CHR ''b''] @ bin_digits a"

section \<open>Compound assignments\<close>

text \<open>
  They update the value, and then end without the reference they are declared to return, which has no
  meaning in C++.
\<close>

definition no_return :: exn where
  "no_return = Undefined_behaviour ''a function with a result ends without one''"

definition bs_or_assign :: "'n::len bitset \<Rightarrow> 'n bitset \<Rightarrow> (exn + 'n bitset) \<times> 'n bitset" where
  "bs_or_assign a b = (Inl no_return, Bitset (bs_value a OR bs_value b))"

definition bs_and_assign :: "'n::len bitset \<Rightarrow> 'n bitset \<Rightarrow> (exn + 'n bitset) \<times> 'n bitset" where
  "bs_and_assign a b = (Inl no_return, Bitset (bs_value a AND bs_value b))"

definition bs_xor_assign :: "'n::len bitset \<Rightarrow> 'n bitset \<Rightarrow> (exn + 'n bitset) \<times> 'n bitset" where
  "bs_xor_assign a b = (Inl no_return, Bitset (bs_value a XOR bs_value b))"

lemma assigned_value:
  assumes "bs_inv a" "bs_inv b"
  shows "snd (bs_or_assign a b) = bs_or a b" "snd (bs_and_assign a b) = bs_and a b" "snd (bs_xor_assign a b) = bs_xor a b"
  using assms
  by (auto simp: bs_or_assign_def bs_and_assign_def bs_xor_assign_def bs_or_def bs_and_def bs_xor_def bs_of_def
      bs_inv_def bit.conj_disj_distrib2 bit_eq_iff bit_simps)

section \<open>Reading the digits back\<close>

text \<open>The loop from the last digit is the recursion from the first.\<close>

primrec hex_of :: "bool \<Rightarrow> nat \<Rightarrow> u64 \<Rightarrow> string" where
  "hex_of is_capital 0 v = []"
| "hex_of is_capital (Suc n) v = hex_of is_capital n (drop_bit 4 v) @ [digit_char is_capital (unat (v AND 0x0F))]"

lemma length_hex_of [simp]: "length (hex_of is_capital n v) = n"
  by (induction n arbitrary: v) simp_all

lemma hex_loop_of:
  "i + n \<le> length c \<Longrightarrow>
     hex_loop is_capital n i v c = take (length c - i - n) c @ hex_of is_capital n v @ drop (length c - i) c"
proof (induction n arbitrary: i v c)
  case (Suc n)
  let ?j = "length c - i - 1"
  let ?d = "digit_char is_capital (unat (v AND 0x0F))"
  have j: "?j < length c" "length c - i = Suc ?j" using Suc.prems by auto
  have "drop ?j (c[?j := ?d]) = ?d # drop (Suc ?j) c" using j(1) by (simp add: Cons_nth_drop_Suc[symmetric])
  then show ?case using Suc.IH[of "i + 1" "c[?j := ?d]" "drop_bit 4 v"] Suc.prems j by (simp add: diff_diff_left)
qed simp

lemma digit_char_props:
  assumes "n < 16"
  shows "is_xdigit (digit_char is_capital n)" "hex_val (digit_char is_capital n) = n"
proof -
  have "\<forall>n \<in> set [0..<16]. is_xdigit (digit_char True n) \<and> hex_val (digit_char True n) = n"
    "\<forall>n \<in> set [0..<16]. is_xdigit (digit_char False n) \<and> hex_val (digit_char False n) = n"
    by code_simp+
  then show "is_xdigit (digit_char is_capital n)" "hex_val (digit_char is_capital n) = n"
    using assms by (cases is_capital; simp)+
qed

lemma hex_number_of: "hex_number (hex_of is_capital n v) = unat v mod 16 ^ n"
proof (induction n arbitrary: v)
  case (Suc n)
  have d: "unat (v AND 0x0F) = unat v mod 16"
  proof -
    have "v AND 0x0F = take_bit 4 v" by (simp add: take_bit_eq_mask mask_eq_exp_minus_1)
    then show ?thesis by (simp add: unsigned_take_bit_eq take_bit_eq_mod unat_mod)
  qed
  have "hex_number (hex_of is_capital (Suc n) v) = (unat v div 16 mod 16 ^ n) * 16 + unat v mod 16"
    by (simp add: hex_number_append Suc.IH unat_drop_bit d) (simp add: hex_number_def digit_char_props)
  then show ?case by (simp add: mod_mult2_eq mult.commute)
qed (simp add: hex_number_def)

text \<open>The hexadecimal digits are as many as the width needs and are the value.\<close>

lemma hex_digits_value:
  fixes a :: "'n::len bitset"
  assumes "bs_inv a"
  shows "hex_number (hex_digits is_capital a) = bs_nat a" "length (hex_digits is_capital a) = (LENGTH('n) + 3) div 4"
proof -
  have e: "hex_digits is_capital a = hex_of is_capital ((LENGTH('n) + 3) div 4) (bs_value a)"
    by (simp add: hex_digits_def Let_def hex_loop_of)
  have "LENGTH('n) \<le> 4 * ((LENGTH('n) + 3) div 4)" by linarith
  then have "(2 :: nat) ^ LENGTH('n) \<le> 2 ^ (4 * ((LENGTH('n) + 3) div 4))" by (rule power_increasing) simp
  then have "bs_nat a < 16 ^ ((LENGTH('n) + 3) div 4)"
    using bs_nat_less[OF assms] by (simp add: power_mult)
  then show "hex_number (hex_digits is_capital a) = bs_nat a"
    by (simp add: e hex_number_of bs_nat_def)
  show "length (hex_digits is_capital a) = (LENGTH('n) + 3) div 4" by (simp add: e)
qed

lemma bin_loop_nth:
  fixes a :: "'n::len bitset"
  assumes "i + n \<le> LENGTH('n)" "length c = LENGTH('n)" "LENGTH('n) \<le> 64" "k < LENGTH('n)"
  shows "bin_loop n i a c ! (LENGTH('n) - k - 1) =
      (if i \<le> k \<and> k < i + n \<and> bit (bs_value a) k then CHR ''1'' else c ! (LENGTH('n) - k - 1))
    \<and> length (bin_loop n i a c) = LENGTH('n)"
  using assms
proof (induction n arbitrary: i c)
  case (Suc n)
  let ?c = "if bit (bs_value a) i then c[LENGTH('n) - i - 1 := CHR ''1''] else c"
  have i: "i < LENGTH('n)" "i < 64" using Suc.prems(1,3) by auto
  have "bit (bs_value (bs_and a (bs_of (push_bit i 1)))) j \<longleftrightarrow> j = i \<and> bit (bs_value a) i" for j
    using i by (auto simp: bs_and_def bit_bs_of bit_simps bit_1_iff)
  then have "bs_bool (bs_and a (bs_of (push_bit i 1))) \<longleftrightarrow> bit (bs_value a) i"
    by (auto simp: bs_bool_def word_nonzero_iff_bit)
  then have step: "bin_loop (Suc n) i a c = bin_loop n (i + 1) a ?c" by (simp del: push_bit_of_1)
  have c: "length ?c = LENGTH('n)" using Suc.prems(2) by simp
  have "?c ! (LENGTH('n) - k - 1) = (if k = i \<and> bit (bs_value a) k then CHR ''1'' else c ! (LENGTH('n) - k - 1))"
    using Suc.prems by (auto simp: nth_list_update)
  moreover have "i + 1 + n \<le> LENGTH('n)" using Suc.prems(1) by simp
  note IH = Suc.IH[OF this c Suc.prems(3,4)]
  moreover have "i \<le> k \<and> k < i + Suc n \<longleftrightarrow> k = i \<or> i + 1 \<le> k \<and> k < i + 1 + n" by auto
  ultimately show ?case unfolding step by auto
qed auto

text \<open>The binary digits are the bits, the highest first.\<close>

lemma bin_digits_bits:
  fixes a :: "'n::len bitset"
  assumes "bs_inv a" "k < LENGTH('n)"
  shows "bin_digits a ! (LENGTH('n) - k - 1) = (if bit (bs_value a) k then CHR ''1'' else CHR ''0'')"
    "length (bin_digits a) = LENGTH('n)"
  using bin_loop_nth[of 0 "LENGTH('n)" "replicate LENGTH('n) (CHR ''0'')" k a] assms
  by (simp_all add: bin_digits_def bs_inv_iff)

end
