(* ===== verification/Program.thy ===== *)
theory Program
  imports DebugSession
begin

text \<open>
  \<open>main/src/option.cpp\<close> and \<open>main/src/main.cpp\<close>: the options and the whole program. The argument
  parser is a library: what it leaves in the variables, and the message of its exception, if it threw
  one, are input of the model, as are the files, the standard input, and what the network, the second
  thread and the uninitialised members do.
\<close>

section \<open>Options\<close>

record options =
  op_flash_file_path :: string
  op_ram_fill_policy :: fill_policy
  op_trap_capture :: trap_capture_mode
  op_stop_at_infinite_loop :: bool
  op_enable_debug :: bool
  op_debug_port :: u16

text \<open>What the argument parser stored, and its exception.\<close>

record arguments =
  ar_flash :: string
  ar_fill :: string
  ar_trap :: string
  ar_debug :: bool
  ar_stop_inf_loop :: bool
  ar_remote_port :: u16
  ar_error :: "string option"

definition fill_policy_map :: "(string \<times> fill_policy) list" where
  "fill_policy_map =
     [(''zero'', Fill_Zero), (''one'', Fill_One), (''random'', Fill_Random), (''cdcdcdcd'', Fill_Cdcdcdcd)]"

definition trap_capture_map :: "(string \<times> trap_capture_mode) list" where
  "trap_capture_map = [(''none'', No_capture), (''exception'', Exception_only), (''all'', Capture_all)]"

text \<open>\<open>std::map::at\<close>.\<close>

definition map_at :: "(string \<times> 'a) list \<Rightarrow> string \<Rightarrow> exn + 'a" where
  "map_at m k = (case map_of m k of None \<Rightarrow> Inl Out_of_range_exception | Some v \<Rightarrow> Inr v)"

text \<open>\<open>std::getline\<close>: the next line, empty at the end of the input.\<close>

definition getline :: "string list \<Rightarrow> string \<times> string list" where
  "getline input = (case input of [] \<Rightarrow> ([], []) | line # rest \<Rightarrow> (line, rest))"

text \<open>
  With \<open>NDEBUG\<close> the exception of the parser is passed on as a \<open>std::invalid_argument\<close>, which is a
  logic error; without it the path is read from the standard input.
\<close>

definition parse_args :: "bool \<Rightarrow> string list \<Rightarrow> arguments \<Rightarrow> exn + options" where
  "parse_args ndebug input args =
     (case (case ar_error args of
              Some what \<Rightarrow> if ndebug then Inl (Logic_error what) else Inr (getline input)
            | None \<Rightarrow> Inr (ar_flash args, input)) of
        Inl x \<Rightarrow> Inl x
      | Inr (path, input) \<Rightarrow>
          let path = (if path = [] then fst (getline input) else path)
          in case map_at fill_policy_map (ar_fill args) of
               Inl x \<Rightarrow> Inl x
             | Inr fill \<Rightarrow>
                 (case map_at trap_capture_map (ar_trap args) of
                    Inl x \<Rightarrow> Inl x
                  | Inr capture \<Rightarrow>
                      Inr \<lparr>op_flash_file_path = path, op_ram_fill_policy = fill, op_trap_capture = capture,
                           op_stop_at_infinite_loop = ar_stop_inf_loop args, op_enable_debug = ar_debug args,
                           op_debug_port = ar_remote_port args\<rparr>))"

section \<open>The program\<close>

text \<open>What the program meets: the files, the random engine, the console, the port, the host, the build's files.\<close>

record environment =
  en_files :: "string \<Rightarrow> (nat \<times> u8 list) option"
  en_random :: "nat \<Rightarrow> nat \<Rightarrow> page"
  en_uart :: uart
  en_junk :: "nat \<Rightarrow> junk"
  en_port_free :: "u16 \<Rightarrow> bool"
  en_checksum_buffer :: "char \<times> char"
  en_reads :: "net_read list"
  en_write_ok :: "nat \<Rightarrow> bool"
  en_accept_ok :: "nat \<Rightarrow> bool"
  en_xml_files :: xml_files
  en_memory_map_xml :: "u8 list"
  en_schedule :: "nat \<Rightarrow> nat"

text \<open>The exit code, or a step that has no meaning. Every exception is caught, and gives the code 1.\<close>

datatype exit_status = Exit nat | Undefined

definition caught :: "exn \<Rightarrow> exit_status" where
  "caught x = (case x of Undefined_behaviour _ \<Rightarrow> Undefined | _ \<Rightarrow> Exit 1)"

definition create_emulator :: "environment \<Rightarrow> options \<Rightarrow> exn + emulator" where
  "create_emulator env options =
     emulator_create (en_files env (op_flash_file_path options)) (op_ram_fill_policy options)
       (op_trap_capture options) (op_stop_at_infinite_loop options) (en_random env) (en_uart env)"

definition create_debugger :: "environment \<Rightarrow> options \<Rightarrow> emulator \<Rightarrow> exn + debugger" where
  "create_debugger env options e =
     (if en_port_free env (op_debug_port options)
      then Inr (debugger_new e (network_new (en_checksum_buffer env) (en_reads env) (en_write_ok env) (en_accept_ok env))
             (en_xml_files env) (en_memory_map_xml env) (en_junk env) (en_schedule env))
      else Inl socket_fault)"

text \<open>\<open>None\<close> when the program does not end.\<close>

definition main_program :: "bool \<Rightarrow> string list \<Rightarrow> arguments \<Rightarrow> environment \<Rightarrow> exit_status option" where
  "main_program ndebug input args env =
     (case parse_args ndebug input args of
        Inl x \<Rightarrow> Some (caught x)
      | Inr options \<Rightarrow>
          (case create_emulator env options of
             Inl x \<Rightarrow> Some (caught x)
           | Inr e \<Rightarrow>
               if op_enable_debug options then
                 (case create_debugger env options e of
                    Inl x \<Rightarrow> Some (caught x)
                  | Inr d \<Rightarrow>
                      map_option (\<lambda>(r, _). case r of Inl x \<Rightarrow> caught x | Inr _ \<Rightarrow> Exit 0) (debugger_run d))
               else
                 map_option (\<lambda>(r, _). case r of Exception x \<Rightarrow> caught x | _ \<Rightarrow> Exit 0)
                   (emulator_run (en_junk env) e)))"

section \<open>How the program ends\<close>

text \<open>The run loop is left only for what the options ask for, or by an exception.\<close>

lemma emulator_run_ends:
  assumes "emulator_run j e = Some (q, e')"
  shows "(\<exists>x. q = Exception x) \<or> (\<exists>r. q = Trap_captured r \<and> trap_captured (em_trap_capture e) r)
    \<or> (\<exists>r. q = Infinite_loop r \<and> em_stop_at_infinite_loop e \<and> cr_trap r = None)"
proof -
  let ?P = "\<lambda>e q. (\<exists>x. q = Exception x) \<or> (\<exists>r. q = Trap_captured r \<and> trap_captured (em_trap_capture e) r)
    \<or> (\<exists>r. q = Infinite_loop r \<and> em_stop_at_infinite_loop e \<and> cr_trap r = None)"
  have "?P e (fst (q, e'))"
  proof (rule emulator_run.raw_induct[where P = "\<lambda>j e y. ?P e (fst y)", OF _ assms], goal_cases)
    case (1 run j e y)
    obtain r f where t: "tick_one_cycle (j 0) e = (r, f)" by fastforce
    show ?case
    proof (cases r)
      case (Inl x)
      then show ?thesis using 1(2) t by auto
    next
      case (Inr result)
      have c: "em_trap_capture f = em_trap_capture e" "em_stop_at_infinite_loop f = em_stop_at_infinite_loop e"
        using t unfolding Inr by (auto elim: tick_cases)
      show ?thesis
      proof (cases "trap_captured (em_trap_capture e) result \<or> infinite_loop f result")
        case True
        then show ?thesis using 1(2) t Inr c by (auto simp: infinite_loop_def split: if_splits)
      next
        case False
        then have "run (\<lambda>n. j (Suc n)) f = Some y" using 1(2) t Inr c by simp
        then show ?thesis using 1(1) c by metis
      qed
    qed
  qed
  then show ?thesis by simp
qed

lemma created_options:
  "create_emulator env options = Inr e \<Longrightarrow>
     em_trap_capture e = op_trap_capture options \<and> em_stop_at_infinite_loop e = op_stop_at_infinite_loop options"
  by (auto simp: create_emulator_def emulator_create_def split: option.splits if_splits sum.splits)

text \<open>
  Without a debugger and with nothing to stop for, the program does not end, or ends with an exception:
  it never reports success.
\<close>

lemma main_runs_for_ever:
  assumes "parse_args ndebug input args = Inr options" "\<not> op_enable_debug options"
    and "op_trap_capture options = No_capture" "\<not> op_stop_at_infinite_loop options"
  shows "main_program ndebug input args env \<noteq> Some (Exit 0)"
proof (cases "create_emulator env options")
  case (Inl x)
  then show ?thesis using assms(1) by (auto simp: main_program_def caught_def split: exn.splits)
next
  case (Inr e)
  show ?thesis
  proof (cases "emulator_run (en_junk env) e")
    case None
    then show ?thesis using assms(1,2) Inr by (simp add: main_program_def)
  next
    case (Some y)
    then have "\<exists>x. fst y = Exception x"
      using emulator_run_ends[of "en_junk env" e "fst y" "snd y"] created_options[OF Inr] assms(3,4)
      by (auto simp: trap_captured_def)
    then show ?thesis using assms(1,2) Inr Some
      by (cases y) (auto simp: main_program_def caught_def split: exn.splits)
  qed
qed

text \<open>A program that reports success has found its options and its flash file.\<close>

lemma main_success:
  assumes "main_program ndebug input args env = Some (Exit 0)"
  shows "\<exists>options rom. parse_args ndebug input args = Inr options
    \<and> en_files env (op_flash_file_path options) = Some (length rom, rom) \<and> rom \<noteq> [] \<and> length rom \<le> 131072
    \<and> (op_enable_debug options \<longrightarrow> en_port_free env (op_debug_port options))"
proof -
  have c: "caught x \<noteq> Exit 0" for x by (cases x) (simp_all add: caught_def)
  from assms c obtain options e where o: "parse_args ndebug input args = Inr options" "create_emulator env options = Inr e"
    by (auto simp: main_program_def split: sum.splits)
  have port: "op_enable_debug options \<longrightarrow> en_port_free env (op_debug_port options)"
    using assms c o by (auto simp: main_program_def create_debugger_def split: if_splits)
  obtain rom where "en_files env (op_flash_file_path options) = Some (length rom, rom)" "rom \<noteq> []"
    "\<exists>m. platform_new rom (op_ram_fill_policy options) (en_random env) (en_uart env) = Inr m"
    using o(2) by (auto simp: create_emulator_def emulator_create_def split: option.splits if_splits sum.splits)
  then show ?thesis using o(1) port platform_new_fits by blast
qed

text \<open>Every state of the debugger in a run of the program is one of a session.\<close>

lemma main_session:
  assumes "create_emulator env options = Inr e" "create_debugger env options e = Inr d" "debugger_run d = Some (r, d')"
  shows "debug_reachable d'"
proof -
  have "emu_reachable e" using assms(1) by (auto simp: create_emulator_def intro: emu_reachable.create)
  then have "debug_reachable d" using assms(2)
    by (auto simp: create_debugger_def intro: debug_reachable.start split: if_splits)
  then show ?thesis by (rule session_reachable[OF assms(3)])
qed

end
