(* ===== verification/Description.thy ===== *)
theory Description
  imports GdbXml Platform Debugger
begin

text \<open>
  The description files of the repository, \<open>gdb-stub/gdb-xml/*.xml\<close> and \<open>main/xml/memory-map.xml\<close>, and
  what a host learns from them. The build converts a file to an array of its bytes, with or without a
  terminator. The host reads a file slice by slice, up to the terminator if there is one, and finds
  the elements with their attributes. The theorems compare what it finds with what the stub and the
  platform do.
\<close>

section \<open>The files\<close>

definition newline :: string where
  "newline = [CHR 0x0A]"

definition tab :: string where
  "tab = [CHR 0x09]"

definition xml_header :: string where
  "xml_header = ''<?xml version='' @ quote ''1.0'' @ ''?>'' @ newline"

definition doctype_header :: string where
  "doctype_header = ''<!DOCTYPE target SYSTEM '' @ quote ''gdb-target.dtd'' @ ''>'' @ newline"

definition reg_xml :: "string \<times> string \<Rightarrow> string" where
  "reg_xml reg =
     ''  <reg name='' @ quote (fst reg) @ '' bitsize='' @ quote ''32'' @ '' type='' @ quote (snd reg) @ ''/>'' @ newline"

definition cpu_registers_xml :: "(string \<times> string) list" where
  "cpu_registers_xml =
     [(''zero'', ''int''), (''ra'', ''code_ptr''), (''sp'', ''data_ptr''), (''gp'', ''data_ptr''), (''tp'', ''data_ptr''),
      (''t0'', ''int''), (''t1'', ''int''), (''t2'', ''int''), (''s0'', ''int''), (''s1'', ''int''),
      (''a0'', ''int''), (''a1'', ''int''), (''a2'', ''int''), (''a3'', ''int''), (''a4'', ''int''),
      (''a5'', ''int''), (''a6'', ''int''), (''a7'', ''int''), (''s2'', ''int''), (''s3'', ''int''),
      (''s4'', ''int''), (''s5'', ''int''), (''s6'', ''int''), (''s7'', ''int''), (''s8'', ''int''),
      (''s9'', ''int''), (''s10'', ''int''), (''s11'', ''int''), (''t3'', ''int''), (''t4'', ''int''),
      (''t5'', ''int''), (''t6'', ''int''), (''pc'', ''code_ptr'')]"

definition riscv_32bit_cpu_xml :: string where
  "riscv_32bit_cpu_xml =
     xml_header @ doctype_header @ ''<feature name='' @ quote ''org.gnu.gdb.riscv.cpu'' @ ''>'' @ newline
     @ concat (map reg_xml cpu_registers_xml) @ ''</feature>'' @ newline"

definition include_xml :: "string \<Rightarrow> string" where
  "include_xml href = ''    <xi:include href='' @ quote href @ ''/>'' @ newline"

definition target_xml :: string where
  "target_xml =
     xml_header @ doctype_header @ ''<target version='' @ quote ''1.0'' @ ''>'' @ newline
     @ ''    <architecture>riscv:rv32</architecture>'' @ newline
     @ include_xml ''riscv-32bit-cpu.xml'' @ include_xml ''riscv-32bit-csr-generated.xml''
     @ ''</target>'' @ newline"

definition region_xml :: "string \<Rightarrow> string \<Rightarrow> string \<Rightarrow> string" where
  "region_xml ty start len =
     tab @ ''<memory type='' @ quote ty @ '' start='' @ quote start @ '' length='' @ quote len @ ''/>'' @ newline"

definition memory_map_xml :: string where
  "memory_map_xml =
     xml_header @ ''<memory-map>'' @ newline
     @ tab @ ''<!-- Main RAM -->'' @ newline
     @ region_xml ''ram'' ''0x80000000'' ''0x80000000'' @ newline
     @ tab @ ''<!-- Boot ROM -->'' @ newline
     @ region_xml ''rom'' ''0x00100000'' ''0x00020000'' @ newline
     @ tab @ ''<!-- Peripherals -->'' @ newline
     @ region_xml ''rom'' ''0x00010000'' ''0x000f0000'' @ ''</memory-map>''"

text \<open>The conversion of the build: \<open>z\<close> tells whether it adds a terminator.\<close>

definition bin2c :: "bool \<Rightarrow> string \<Rightarrow> u8 list" where
  "bin2c z text = bytes_of_text text @ (if z then [0] else [])"

definition description_files :: "bool \<Rightarrow> xml_files" where
  "description_files z = \<lparr>xf_riscv_32bit_cpu = bin2c z riscv_32bit_cpu_xml, xf_target = bin2c z target_xml\<rparr>"

definition memory_map_bytes :: "bool \<Rightarrow> u8 list" where
  "memory_map_bytes z = bin2c z memory_map_xml"

section \<open>The host\<close>

text \<open>The tags of a text, from \<open><\<close> to \<open>>\<close>, and the name and the attributes of a tag.\<close>

definition tags :: "string \<Rightarrow> string list" where
  "tags s = map (takeWhile (\<lambda>c. c \<noteq> CHR ''>'')) (tl (split_parts (CHR ''<'') s))"

definition attribute_name :: "string \<Rightarrow> string" where
  "attribute_name s = rev (takeWhile (\<lambda>c. c \<noteq> CHR '' '') (tl (rev s)))"

fun attributes :: "string list \<Rightarrow> (string \<times> string) list" where
  "attributes (k # v # rest) = (attribute_name k, v) # attributes rest"
| "attributes _ = []"

definition element :: "string \<Rightarrow> string \<times> (string \<times> string) list" where
  "element tag = (takeWhile (\<lambda>c. c \<noteq> CHR '' '') tag, attributes (split_parts (CHR 0x22) tag))"

definition elements :: "string \<Rightarrow> (string \<times> (string \<times> string) list) list" where
  "elements s = map element (tags s)"

definition dec_number :: "string \<Rightarrow> nat" where
  "dec_number = foldl (\<lambda>n c. 10 * n + (of_char c - 48)) 0"

text \<open>A register without a number has the one after the register before.\<close>

fun number_registers :: "nat \<Rightarrow> (string \<times> (string \<times> string) list) list \<Rightarrow> (nat \<times> string) list" where
  "number_registers n [] = []"
| "number_registers n ((name, attrs) # es) =
     (if name = ''reg'' then
        let number = (case map_of attrs ''regnum'' of None \<Rightarrow> n | Some t \<Rightarrow> dec_number t)
        in (number, case map_of attrs ''name'' of None \<Rightarrow> [] | Some t \<Rightarrow> t) # number_registers (number + 1) es
      else number_registers n es)"

text \<open>A file, read in slices of \<open>n\<close> bytes, and its text.\<close>

definition text_of_file :: "u8 list \<Rightarrow> string" where
  "text_of_file bs = takeWhile (\<lambda>c. c \<noteq> CHR 0x00) (text_of_bytes bs)"

definition host_file :: "xml_files \<Rightarrow> u32 \<Rightarrow> string \<Rightarrow> string" where
  "host_file files n name =
     (case host_reads (\<lambda>offset. get_xml_file files name (ucast offset) (ucast n)) n 65536 0 of
        None \<Rightarrow> []
      | Some bs \<Rightarrow> text_of_file bs)"

definition included ::
  "(string \<Rightarrow> string) \<Rightarrow> string \<times> (string \<times> string) list \<Rightarrow> (string \<times> (string \<times> string) list) list"
where
  "included read e =
     (case (fst e = ''xi:include'', map_of (snd e) ''href'') of
        (True, Some href) \<Rightarrow> elements (read href)
      | _ \<Rightarrow> [e])"

definition host_registers :: "(string \<Rightarrow> string) \<Rightarrow> (nat \<times> string) list" where
  "host_registers read = number_registers 0 (concat (map (included read) (elements (read ''target.xml''))))"

text \<open>The memory map: regions with a type, and the one an address falls in.\<close>

definition memory_map_slice :: "u8 list \<Rightarrow> u32 \<Rightarrow> u32 \<Rightarrow> xml_file_slice" where
  "memory_map_slice xml offset len =
     \<lparr>xs_is_end = length xml \<le> unat (offset + len), xs_data = take (unat len) (drop (unat offset) xml)\<rparr>"

definition host_memory_map :: "u8 list \<Rightarrow> u32 \<Rightarrow> string" where
  "host_memory_map xml n =
     (case host_reads (\<lambda>offset. Some (memory_map_slice xml offset n)) n 65536 0 of
        None \<Rightarrow> []
      | Some bs \<Rightarrow> text_of_file bs)"

definition region :: "string \<times> (string \<times> string) list \<Rightarrow> (string \<times> nat \<times> nat) list" where
  "region e =
     (case (fst e = ''memory'', map_of (snd e) ''type'', map_of (snd e) ''start'', map_of (snd e) ''length'') of
        (True, Some ty, Some start, Some len) \<Rightarrow> [(ty, hex_number (drop 2 start), hex_number (drop 2 len))]
      | _ \<Rightarrow> [])"

definition regions :: "string \<Rightarrow> (string \<times> nat \<times> nat) list" where
  "regions text = concat (map region (elements text))"

definition region_of :: "string \<Rightarrow> nat \<Rightarrow> string option" where
  "region_of text a =
     map_option fst (find (\<lambda>(_, start, len). start \<le> a \<and> a < start + len) (regions text))"

section \<open>Finding the elements\<close>

definition plain :: "string \<Rightarrow> bool" where
  "plain s \<longleftrightarrow> list_all (\<lambda>c. c \<notin> {CHR 0x00, CHR 0x22, CHR ''<'', CHR ''>''}) s"

lemma split_parts_nonempty: "split_parts d s \<noteq> []"
  by (induction d s rule: split_parts.induct) (auto split: list.splits)

lemma split_parts_prefix:
  "d \<notin> set p \<Longrightarrow> split_parts d (p @ s) = (p @ hd (split_parts d s)) # tl (split_parts d s)"
  by (induction p) (auto simp: split_parts_nonempty)

lemma elements_gap: "CHR ''<'' \<notin> set gap \<Longrightarrow> elements (gap @ s) = elements s"
  by (simp add: elements_def tags_def split_parts_prefix)

lemma elements_tag:
  assumes "CHR ''<'' \<notin> set t" "CHR ''>'' \<notin> set t"
  shows "elements (CHR ''<'' # t @ CHR ''>'' # s) = element t # elements s"
proof -
  have "split_parts (CHR ''<'') (t @ CHR ''>'' # s) =
      ((t @ ''>'') @ hd (split_parts (CHR ''<'') s)) # tl (split_parts (CHR ''<'') s)"
    using split_parts_prefix[of "CHR ''<''" "t @ ''>''" s] assms by simp
  moreover have "takeWhile (\<lambda>c. c \<noteq> CHR ''>'') (t @ CHR ''>'' # u) = t" for u
    using assms(2) by (auto simp: takeWhile_append)
  ultimately show ?thesis by (simp add: elements_def tags_def)
qed

lemma elements_item:
  assumes "CHR ''<'' \<notin> set gap" "CHR ''<'' \<notin> set t" "CHR ''>'' \<notin> set t" "CHR ''<'' \<notin> set gap'"
  shows "elements (gap @ CHR ''<'' # t @ CHR ''>'' # gap' @ s) = element t # elements s"
  using assms by (simp add: elements_gap elements_tag)

lemma elements_end: "CHR ''<'' \<notin> set gap \<Longrightarrow> elements gap = []"
  by (simp add: elements_def tags_def split_parts_plain)

text \<open>The elements of the registers.\<close>

definition reg_element :: "string \<times> string \<Rightarrow> string \<times> (string \<times> string) list" where
  "reg_element reg = (''reg'', [(''name'', fst reg), (''bitsize'', ''32''), (''type'', snd reg)])"

lemma plain_chars: "plain s \<Longrightarrow> CHR 0x00 \<notin> set s \<and> CHR 0x22 \<notin> set s \<and> CHR ''<'' \<notin> set s \<and> CHR ''>'' \<notin> set s"
  by (auto simp: plain_def list_all_iff)

lemma elements_reg:
  assumes "plain (fst reg)" "plain (snd reg)"
  shows "elements (reg_xml reg @ s) = reg_element reg # elements s"
proof -
  let ?t = "''reg name='' @ quote (fst reg) @ '' bitsize='' @ quote ''32'' @ '' type='' @ quote (snd reg) @ ''/''"
  note p = plain_chars[OF assms(1)] plain_chars[OF assms(2)]
  have "elements (''  '' @ CHR ''<'' # ?t @ CHR ''>'' # newline @ s) = element ?t # elements s"
    by (rule elements_item) (use p in \<open>simp_all add: quote_def newline_def\<close>)
  moreover have "reg_xml reg @ s = ''  '' @ CHR ''<'' # ?t @ CHR ''>'' # newline @ s"
    by (simp add: reg_xml_def)
  moreover have "element ?t = reg_element reg"
    using p by (simp add: element_def reg_element_def quote_def split_parts_append attribute_name_def)
  ultimately show ?thesis by (simp only:)
qed

lemma elements_regs:
  "list_all (\<lambda>r. plain (fst r) \<and> plain (snd r)) rs \<Longrightarrow>
     elements (concat (map reg_xml rs) @ s) = map reg_element rs @ elements s"
  by (induction rs) (simp_all add: elements_reg)

text \<open>The elements of the generated file.\<close>

definition csr_element :: "csr_metadata \<Rightarrow> string \<times> (string \<times> string) list" where
  "csr_element meta =
     (''reg'',
      [(''name'', cm_name meta), (''bitsize'', ''32''), (''type'', type_to_str (cm_type meta)),
       (''regnum'', dec_of_nat (unat (cm_address meta) + 128))])"

lemma dec_of_nat_props:
  "list_all (\<lambda>c. 48 \<le> (of_char c :: nat) \<and> (of_char c :: nat) \<le> 57) (dec_of_nat n) \<and> dec_number (dec_of_nat n) = n"
proof (induction n rule: less_induct)
  case (less n)
  have step: "dec_number (s @ [c]) = 10 * dec_number s + (of_char c - 48)" for s c by (simp add: dec_number_def)
  show ?case
  proof (cases "n < 10")
    case True
    then show ?thesis by (simp add: dec_of_nat.simps[of n] dec_number_def)
  next
    case False
    then show ?thesis using less.IH[of "n div 10"] by (simp add: dec_of_nat.simps[of n] step)
  qed
qed

lemma plain_dec: "plain (dec_of_nat n)"
proof -
  have "c \<notin> {CHR 0x00, CHR 0x22, CHR ''<'', CHR ''>''}" if "48 \<le> (of_char c :: nat)" "(of_char c :: nat) \<le> 57" for c
    using that by auto
  then show ?thesis using dec_of_nat_props[of n] by (auto simp: plain_def list_all_iff)
qed

lemma plain_type: "plain (type_to_str t)"
  by (cases t) (simp_all add: plain_def)

lemma elements_csr:
  assumes "plain (cm_name meta)"
  shows "elements (to_xml meta @ s) = csr_element meta # elements s"
proof -
  let ?n = "dec_of_nat (unat (cm_address meta) + 128)"
  let ?t = "''reg name='' @ quote (cm_name meta) @ '' bitsize='' @ quote ''32'' @ '' type=''
      @ quote (type_to_str (cm_type meta)) @ '' regnum='' @ quote ?n @ ''/''"
  note p = plain_chars[OF assms] plain_chars[OF plain_type[of "cm_type meta"]] plain_chars[OF plain_dec]
  have "elements ([] @ CHR ''<'' # ?t @ CHR ''>'' # newline @ s) = element ?t # elements s"
    by (rule elements_item) (use p in \<open>simp_all add: quote_def newline_def\<close>)
  moreover have "to_xml meta @ s = [] @ CHR ''<'' # ?t @ CHR ''>'' # newline @ s"
    by (simp add: to_xml_def newline_def)
  moreover have "element ?t = csr_element meta"
    using p by (simp add: element_def csr_element_def quote_def split_parts_append attribute_name_def)
  ultimately show ?thesis by (simp only:)
qed

lemma elements_csrs:
  "list_all (\<lambda>m. plain (cm_name m)) ms \<Longrightarrow>
     elements (concat (map to_xml ms) @ s) = map csr_element ms @ elements s"
  by (induction ms) (simp_all add: elements_csr)

text \<open>The elements of the files.\<close>

lemma elements_headers:
  "elements (xml_header @ s) = (''?xml'', [(''version'', ''1.0'')]) # elements s"
  "elements (doctype_header @ s) = (''!DOCTYPE'', [(''SYSTEM'', ''gdb-target.dtd'')]) # elements s"
  using elements_item[of "[]" "''?xml version='' @ quote ''1.0'' @ ''?''" newline s]
    elements_item[of "[]" "''!DOCTYPE target SYSTEM '' @ quote ''gdb-target.dtd''" newline s]
  by (simp_all add: xml_header_def doctype_header_def quote_def newline_def element_def attribute_name_def)

lemma cpu_elements:
  "elements riscv_32bit_cpu_xml =
     [(''?xml'', [(''version'', ''1.0'')]), (''!DOCTYPE'', [(''SYSTEM'', ''gdb-target.dtd'')]),
      (''feature'', [(''name'', ''org.gnu.gdb.riscv.cpu'')])]
     @ map reg_element cpu_registers_xml @ [(''/feature'', [])]"
proof -
  let ?rest = "concat (map reg_xml cpu_registers_xml) @ ''</feature>'' @ newline"
  have "list_all (\<lambda>r. plain (fst r) \<and> plain (snd r)) cpu_registers_xml"
    by (simp add: cpu_registers_xml_def plain_def)
  note elements_regs[OF this, of "''</feature>'' @ newline"]
  moreover have "elements (''</feature>'' @ newline) = [(''/feature'', [])]"
    by (simp add: elements_def tags_def newline_def element_def)
  moreover have "elements (''<feature name='' @ quote ''org.gnu.gdb.riscv.cpu'' @ ''>'' @ newline @ ?rest)
      = (''feature'', [(''name'', ''org.gnu.gdb.riscv.cpu'')]) # elements ?rest"
    using elements_item[of "[]" "''feature name='' @ quote ''org.gnu.gdb.riscv.cpu''" newline ?rest]
    by (simp add: quote_def newline_def element_def attribute_name_def)
  ultimately show ?thesis by (simp only: riscv_32bit_cpu_xml_def elements_headers append.simps)
qed

lemma csr_elements:
  "elements gen_csr_registers =
     [(''?xml'', [(''version'', ''1.0'')]), (''!DOCTYPE'', [(''SYSTEM'', ''gdb-target.dtd'')]),
      (''feature'', [(''name'', ''org.gnu.gdb.riscv.csr'')])]
     @ map csr_element csr_metadata_by_address @ [(''/feature'', [])]"
proof -
  let ?regs = "concat (map to_xml csr_metadata_by_address) @ ''</feature>'' @ newline"
  let ?feature = "''<feature name='' @ quote ''org.gnu.gdb.riscv.csr'' @ ''>'' @ newline @ ?regs"
  let ?doctype = "''<!DOCTYPE feature SYSTEM '' @ quote ''gdb-target.dtd'' @ ''>'' @ ?feature"
  have "list_all (\<lambda>m. plain (cm_name m)) csr_metadata_by_address"
    unfolding list_all_iff set_metadata by (simp add: csr_metadata_set_def csr_metadata_defs plain_def)
  note elements_csrs[OF this, of "''</feature>'' @ newline"]
  moreover have "elements (''</feature>'' @ newline) = [(''/feature'', [])]"
    by (simp add: elements_def tags_def newline_def element_def)
  moreover have "elements ?feature = (''feature'', [(''name'', ''org.gnu.gdb.riscv.csr'')]) # elements ?regs"
    using elements_item[of "[]" "''feature name='' @ quote ''org.gnu.gdb.riscv.csr''" newline ?regs]
    by (simp add: quote_def newline_def element_def attribute_name_def)
  moreover have "elements ?doctype = (''!DOCTYPE'', [(''SYSTEM'', ''gdb-target.dtd'')]) # elements ?feature"
    using elements_item[of "[]" "''!DOCTYPE feature SYSTEM '' @ quote ''gdb-target.dtd''" "[]" ?feature]
    by (simp add: quote_def newline_def element_def attribute_name_def)
  moreover have "elements (''<?xml version='' @ quote ''1.0'' @ ''?>'' @ ?doctype)
      = (''?xml'', [(''version'', ''1.0'')]) # elements ?doctype"
    using elements_item[of "[]" "''?xml version='' @ quote ''1.0'' @ ''?''" "[]" ?doctype]
    by (simp add: quote_def newline_def element_def attribute_name_def)
  ultimately show ?thesis by (simp only: gen_csr_registers_def newline_def append.simps append_assoc)
qed

lemma target_elements:
  "elements target_xml =
     [(''?xml'', [(''version'', ''1.0'')]), (''!DOCTYPE'', [(''SYSTEM'', ''gdb-target.dtd'')]),
      (''target'', [(''version'', ''1.0'')]), (''architecture'', []), (''/architecture'', []),
      (''xi:include'', [(''href'', ''riscv-32bit-cpu.xml'')]),
      (''xi:include'', [(''href'', ''riscv-32bit-csr-generated.xml'')]), (''/target'', [])]"
  by (simp add: target_xml_def elements_headers include_xml_def)
    (simp add: elements_def tags_def quote_def newline_def element_def attribute_name_def)

lemma memory_map_regions:
  "regions memory_map_xml =
     [(''ram'', 0x80000000, 0x80000000), (''rom'', 0x00100000, 0x00020000), (''rom'', 0x00010000, 0x000f0000)]"
  by (simp add: regions_def memory_map_xml_def elements_headers region_xml_def)
    (simp add: elements_def tags_def quote_def newline_def tab_def element_def attribute_name_def region_def
      hex_number_def hex_val_def)

section \<open>What the host learns\<close>

lemma number_plain:
  "number_registers k (map reg_element rs @ es) =
     zip [k..<k + length rs] (map fst rs) @ number_registers (k + length rs) es"
  by (induction rs arbitrary: k) (simp_all add: reg_element_def upt_rec[of k for k])

lemma number_csr:
  assumes "\<And>k. number_registers k es = []"
  shows "number_registers k (map csr_element ms @ es) = map (\<lambda>m. (unat (cm_address m) + 128, cm_name m)) ms"
  using dec_of_nat_props by (induction ms arbitrary: k) (simp_all add: csr_element_def assms)

definition described_registers :: "(nat \<times> string) list" where
  "described_registers =
     zip [0..<33] (map fst cpu_registers_xml)
     @ map (\<lambda>m. (unat (cm_address m) + 128, cm_name m)) csr_metadata_by_address"

lemma host_registers_of_texts:
  assumes "read ''target.xml'' = target_xml" "read ''riscv-32bit-cpu.xml'' = riscv_32bit_cpu_xml"
    "read ''riscv-32bit-csr-generated.xml'' = gen_csr_registers"
  shows "host_registers read = described_registers"
proof -
  have n: "length cpu_registers_xml = 33" by (simp add: cpu_registers_xml_def)
  show ?thesis
    by (simp add: host_registers_def assms target_elements included_def cpu_elements csr_elements number_plain number_csr
        n described_registers_def)
qed

text \<open>The texts without a null character come back from the files.\<close>

lemma char_through_byte: "char_of (unat (of_char c :: u8)) = c"
proof -
  have "unat (of_char c :: u8) = unat (of_nat (of_char c) :: u8)" by (simp only: of_nat_of_char)
  also have "\<dots> = take_bit 8 (of_char c)" by (simp only: unsigned_of_nat) simp
  finally show ?thesis by (simp add: char_of_eq_iff del: take_bit_of_nat) (simp add: take_bit_eq_mod)
qed

lemma text_of_bytes_of_text: "text_of_bytes (bytes_of_text s) = s"
  by (induction s) (simp_all add: text_of_bytes_def bytes_of_text_def char_through_byte)

lemma text_of_file_bin2c: "CHR 0x00 \<notin> set s \<Longrightarrow> text_of_file (bin2c z s) = s"
proof -
  have "text_of_bytes (bin2c z s) = s @ (if z then [CHR 0x00] else [])"
    using text_of_bytes_of_text[of s] by (simp add: bin2c_def text_of_bytes_def char_of_def)
  moreover assume "CHR 0x00 \<notin> set s"
  then have "takeWhile (\<lambda>c. c \<noteq> CHR 0x00) s = s" by (auto simp: takeWhile_eq_all_conv)
  ultimately show ?thesis using \<open>CHR 0x00 \<notin> set s\<close> by (auto simp: text_of_file_def takeWhile_append)
qed

lemma length_bin2c: "length (bin2c z s) \<le> length s + 1"
  by (simp add: bin2c_def bytes_of_text_def)

lemma host_file_text:
  assumes "map_of (gdb_xml_files files) name = Some (bin2c z s)" "CHR 0x00 \<notin> set s" "length s < 65535"
    and "0 < n" "unat n < 2 ^ 31"
  shows "host_file files n name = s"
proof -
  have "length (bin2c z s) < 65536" using length_bin2c[of z s] assms(3) by simp
  then have "host_reads (\<lambda>a. get_xml_file files name (ucast a) (ucast n)) n 65536 0 = Some (bin2c z s)"
    using host_reads_file[OF assms(1,4) _ assms(5), of 0 65536] by simp
  then show ?thesis using text_of_file_bin2c[OF assms(2)] by (simp add: host_file_def)
qed

lemma texts_ok:
  "CHR 0x00 \<notin> set target_xml" "length target_xml = 241"
  "CHR 0x00 \<notin> set riscv_32bit_cpu_xml" "length riscv_32bit_cpu_xml = 1562"
  "CHR 0x00 \<notin> set memory_map_xml" "length memory_map_xml = 293"
  by (simp_all add: target_xml_def riscv_32bit_cpu_xml_def memory_map_xml_def xml_header_def doctype_header_def
      include_xml_def region_xml_def newline_def tab_def quote_def cpu_registers_xml_def reg_xml_def)

lemma plain_no_null: "plain s \<Longrightarrow> CHR 0x00 \<notin> set s"
  by (auto dest: plain_chars)

lemma generated_ok: "CHR 0x00 \<notin> set gen_csr_registers" "length gen_csr_registers < 65535"
proof -
  have names: "plain (cm_name m) \<and> length (cm_name m) \<le> 10" if "m \<in> set csr_metadata_by_address" for m
    using that unfolding set_metadata by (auto simp: csr_metadata_set_def csr_metadata_defs plain_def)
  have "CHR 0x00 \<notin> set (to_xml m)" if "m \<in> set csr_metadata_by_address" for m
    using names[OF that] plain_no_null[OF plain_type[of "cm_type m"]] plain_no_null[OF plain_dec]
    by (auto simp: to_xml_def quote_def dest: plain_no_null)
  then show "CHR 0x00 \<notin> set gen_csr_registers" by (auto simp: gen_csr_registers_def quote_def)
  show "length gen_csr_registers < 65535"
    by (simp add: gen_csr_registers_def quote_def csr_metadata_by_address_def csr_metadata_set_def csr_metadata_defs
        to_xml_def dec_of_nat.simps)
qed

lemma host_learns_described:
  assumes "0 < n" "unat n < 2 ^ 31"
  shows "host_registers (host_file (description_files z) n) = described_registers"
proof -
  have g: "bytes_of_text gen_csr_registers @ [0] = bin2c True gen_csr_registers" by (simp add: bin2c_def)
  show ?thesis
    using texts_ok generated_ok assms
    by (intro host_registers_of_texts host_file_text) (simp_all add: gdb_xml_files_def description_files_def g)
qed

text \<open>The numbers the description gives are those the accessor reads, and the names are those of the register file.\<close>

lemma described_gpr:
  assumes "k < 33"
  shows "map_of described_registers k = Some (map fst cpu_registers_xml ! k)"
  using assms map_of_zip_nth[of "[0..<33]" "map fst cpu_registers_xml" k]
  by (simp add: described_registers_def cpu_registers_xml_def map_add_Some_iff)

lemma described_numbers:
  "fst ` set described_registers = {0..<33} \<union> (\<lambda>m. unat (cm_address m) + 128) ` set csr_metadata_by_address"
proof -
  have "map fst (zip [0..<33] (map fst cpu_registers_xml)) = [0..<33]" by (simp add: cpu_registers_xml_def)
  then have "fst ` set (zip [0..<33] (map fst cpu_registers_xml)) = {0..<33}"
    by (metis set_map set_upt)
  then show ?thesis by (simp add: described_registers_def image_Un image_image)
qed

lemma described_csr:
  assumes "33 \<le> unat r" "r < 4224"
  shows "map_of described_registers (unat r) \<noteq> None \<longleftrightarrow> csr_number r \<noteq> None"
proof -
  have "unat r = unat a + 128 \<longleftrightarrow> 128 \<le> r \<and> a = ucast (r - 128)" for a :: u16
  proof -
    have "unat (ucast (r - 128) :: u16) = unat r - 128" if "128 \<le> r"
      using that assms(2) by (simp add: unsigned_ucast_eq take_bit_eq_mod unat_sub word_le_nat_alt word_less_nat_alt)
    then show ?thesis by (auto simp: word_le_nat_alt word_unat_eq_iff)
  qed
  then have "(\<exists>m \<in> set csr_metadata_by_address. unat r = unat (cm_address m) + 128) \<longleftrightarrow>
      128 \<le> r \<and> csr_slot_of (ucast (r - 128)) \<noteq> None"
    using metadata_complete[of "ucast (r - 128)"] by auto
  moreover have "map_of described_registers (unat r) \<noteq> None \<longleftrightarrow>
      (\<exists>m \<in> set csr_metadata_by_address. unat r = unat (cm_address m) + 128)"
    using assms(1) unfolding map_of_eq_None_iff described_numbers by auto
  ultimately show ?thesis using assms(2) by (simp add: csr_number_def)
qed

lemma described_served:
  assumes "r < 4224"
  shows "map_of described_registers (unat r) \<noteq> None \<longleftrightarrow> fst (cpu_register_read r s) \<noteq> None"
proof (cases "33 \<le> unat r")
  case True
  then show ?thesis using described_csr[OF True assms] accessor_serves[OF assms] by (simp add: word_le_nat_alt)
next
  case False
  then show ?thesis using described_gpr[of "unat r"] accessor_serves[OF assms] by (simp add: word_le_nat_alt)
qed

lemma described_name:
  fixes r :: u32
  assumes "r < 32"
  shows "map_of described_registers (unat r) = Some (get_name (bs_of (ucast r)))"
proof -
  let ?i = "bs_of (ucast r) :: 5 bitset"
  have r: "unat r < 32" "bs_nat ?i = unat r"
    using assms gpr_index(1)[OF assms] by (simp_all add: word_less_nat_alt)
  then have "map fst cpu_registers_xml ! unat r = get_name ?i"
    using nth_butlast[of "unat r" "map fst cpu_registers_xml"] by (simp add: get_name_def cpu_registers_xml_def)
  then show ?thesis using described_gpr[of "unat r"] r by simp
qed

section \<open>The memory map\<close>

lemma handle_qxfer_memory_map_slice:
  "handle_qxfer_memory_map offset len =
     and_do (read_state db_memory_map_xml) (\<lambda>xml.
       let part = memory_map_slice xml offset len
       in send_response (Qxfer_response (xs_is_end part) (xs_data part)))"
  by (simp add: handle_qxfer_memory_map_def memory_map_slice_def)

lemma host_memory_map_text:
  assumes "0 < n" "unat n < 2 ^ 31"
  shows "host_memory_map (memory_map_bytes z) n = memory_map_xml"
proof -
  let ?f = "bin2c z memory_map_xml"
  have len: "length ?f < 65536" using length_bin2c[of z memory_map_xml] texts_ok by simp
  have "Some (memory_map_slice ?f offset n) =
      Some \<lparr>xs_is_end = length ?f \<le> unat offset + unat n, xs_data = take (unat n) (drop (unat offset) ?f)\<rparr>"
    if "unat offset \<le> length ?f" for offset
  proof -
    have "unat (offset + n) = unat offset + unat n" using that len assms(2) by (simp add: unat_word_ariths)
    then show ?thesis by (simp add: memory_map_slice_def)
  qed
  from host_reads_slices[of ?f, OF this assms(1) _ assms(2), of 0 65536] len
  have "host_reads (\<lambda>offset. Some (memory_map_slice ?f offset n)) n 65536 0 = Some ?f" by simp
  then show ?thesis using text_of_file_bin2c[OF texts_ok(5)] by (simp add: host_memory_map_def memory_map_bytes_def)
qed

lemma announced_region:
  assumes "platform_inv m"
  shows "region_of memory_map_xml (unat a) =
    (case get_memory m a of
       Inr (Dev_ram, _) \<Rightarrow> Some ''ram''
     | Inr _ \<Rightarrow> Some ''rom''
     | Inl _ \<Rightarrow> if 0x00010000 \<le> a \<and> a < 0x00100000 then Some ''rom'' else None)"
  using assms
  by (auto simp: region_of_def memory_map_regions get_memory_def ram_start_def rom_start_def uart_start_def clock_start_def
      block_size_def platform_inv_def periph_size_def word_le_nat_alt word_less_nat_alt)

text \<open>The map calls the UART read-only memory, but the platform takes what is written to it.\<close>

lemma uart_announced_read_only:
  assumes "platform_inv m"
  shows "region_of memory_map_xml (unat uart_start) = Some ''rom''"
    "fst (mi_write platform_interface m uart_start v k) = Value ()"
proof -
  have d: "get_memory m uart_start = Inr (Dev_uart, 0)"
    using assms by (simp add: get_memory_def ram_start_def rom_start_def uart_start_def clock_start_def block_size_def
        platform_inv_def periph_size_def word_le_nat_alt word_less_nat_alt)
  show "region_of memory_map_xml (unat uart_start) = Some ''rom''" using announced_region[OF assms, of uart_start] d by simp
  show "fst (mi_write platform_interface m uart_start v k) = Value ()"
    using d by (simp add: platform_interface_def interconnect_def interconnect_write_def member_interface_def
        uart_interface_def uart_write_def Let_def)
qed

end
