(* ===== verification/CommandTests.thy ===== *)
theory CommandTests
  imports Command
begin

text \<open>
  The unit tests of \<open>lib/test/gdb-stub/command.cpp\<close>, on the model: each test is a proposition with its
  checks, and it holds.
\<close>

text \<open>The rewriting rules that run the parser on a literal.\<close>

lemma chunks_run:
  "chunks 2 [] = []" "chunks 2 [a] = [[a]]" "chunks 2 (a # b # s) = [a, b] # chunks 2 s"
  "chunks 8 [] = []" "chunks 8 (a # s) = (a # take 7 s) # chunks 8 (drop 7 s)"
  by (simp_all add: eval_nat_numeral)

lemmas parser_run =
  parse_def single_char_command_def param_char_command_parsers_def parse_continue_def parse_hex_def
  parse_write_registers_def parse_register_value_def parse_step_single_cycle_def parse_read_memory_def
  parse_write_memory_def parse_read_single_register_def parse_write_single_register_def
  parse_step_single_def parse_q_supported_def parse_feature_def is_feature_mark_def
  parse_qxfer_feature_read_def parse_qxfer_memorymap_read_def substr_def starts_with_def parse_qxfer_def
  parse_q_def parse_bytecode_def parse_z_def parse_Z_def and_then_def split_view_def split_once_def
  find_delim_def parse_u32_pair_def parse_bytes_def from_chars_hex_def is_xdigit_def hex_val_def
  hex_number_def Let_def chunks_run

definition positive :: "string \<Rightarrow> command \<Rightarrow> bool" where
  "positive s cmd \<longleftrightarrow> parse s = Value cmd"

definition negative :: "string \<Rightarrow> bool" where
  "negative s \<longleftrightarrow> parse s = Unexpected ()"

definition test_acknowledge :: bool where
  "test_acknowledge \<longleftrightarrow>
     positive ''+'' (Acknowledge_packet True)
     \<and> positive ''-'' (Acknowledge_packet False)
     \<and> negative ''+www''
     \<and> negative ''-bbb''"

definition test_enable_persistant :: bool where
  "test_enable_persistant \<longleftrightarrow>
     positive ''!'' Enable_persistant
     \<and> negative ''!!!''"

definition test_ask_halt_reason :: bool where
  "test_ask_halt_reason \<longleftrightarrow>
     positive ''?'' Ask_halt_reason
     \<and> negative ''?sdfas''"

definition test_read_general_register :: bool where
  "test_read_general_register \<longleftrightarrow>
     positive ''g'' Read_register
     \<and> negative ''ggg''"

definition test_continue :: bool where
  "test_continue \<longleftrightarrow>
     positive ''c12345678'' (Continue (Some 0x12345678))
     \<and> positive ''cdeadbeef'' (Continue (Some 0xdeadbeef))
     \<and> positive ''cDEADBEEF'' (Continue (Some 0xdeadbeef))
     \<and> positive ''cBEEF'' (Continue (Some 0x0000beef))
     \<and> positive ''c'' (Continue None)
     \<and> negative ''c1234w555''"

definition test_write_register :: bool where
  "test_write_register \<longleftrightarrow>
     positive ''G12345678'' (Write_register [(0, 0x12345678)])
     \<and> positive ''Gdeadbeef'' (Write_register [(0, 0xdeadbeef)])
     \<and> positive ''Gxxxxxxxx'' (Write_register [])
     \<and> positive ''G12345678xxxxxxxxdeadbeef'' (Write_register [(0, 0x12345678), (2, 0xdeadbeef)])
     \<and> negative ''G1''
     \<and> negative ''G123548w3''
     \<and> negative ''GXXXXXXXX''
     \<and> negative ''GXX1234XX''"

definition test_step_single_cycle :: bool where
  "test_step_single_cycle \<longleftrightarrow>
     positive ''i'' (Step_cycles None None)
     \<and> positive ''ideadbeef'' (Step_cycles (Some 0xdeadbeef) None)
     \<and> positive ''ideadbeef,123'' (Step_cycles (Some 0xdeadbeef) (Some 0x123))
     \<and> negative ''ixwx''
     \<and> negative ''i123,''
     \<and> negative ''i1234,xwx''
     \<and> negative ''i123,123,123''"

definition test_read_memory :: bool where
  "test_read_memory \<longleftrightarrow>
     positive ''m123,456'' (Read_memory 0x123 0x456)
     \<and> negative ''m''
     \<and> negative ''m123''
     \<and> negative ''m123,''
     \<and> negative ''mxwx,xwx''
     \<and> negative ''mxwx,12345''"

definition test_write_memory :: bool where
  "test_write_memory \<longleftrightarrow>
     positive ''M123,2:1234'' (Write_memory 0x123 [0x12, 0x34])
     \<and> positive ''MdeaDBeef,8:deadBEef12345678'' (Write_memory 0xdeadbeef [0xde, 0xad, 0xbe, 0xef, 0x12, 0x34, 0x56, 0x78])
     \<and> negative ''M''
     \<and> negative ''M:''
     \<and> negative ''M:EEFFAA''
     \<and> negative ''Mdeadbeef''
     \<and> negative ''Mdeadbeef,''
     \<and> negative ''Mdeadbeef,16''
     \<and> negative ''M,2:dead''
     \<and> negative ''Mdeadbexx,2:EFEF''
     \<and> negative ''Mdeadbeef,2:EFEF:www:qq''
     \<and> negative ''Mdeadbeef,2:EFXX''
     \<and> negative ''Mdeadbeef,3:ABcd''"

definition test_read_write_single_register :: bool where
  "test_read_write_single_register \<longleftrightarrow>
     positive ''p0'' (Read_single_register 0)
     \<and> positive ''pFFFF'' (Read_single_register 0xFFFF)
     \<and> positive ''P0=deadbeef'' (Write_single_register 0 0xdeadbeef)
     \<and> positive ''PFFFF=cafecafe'' (Write_single_register 0xFFFF 0xcafecafe)
     \<and> negative ''pXXxx''
     \<and> negative ''p10000''
     \<and> negative ''p123156186489165156465456316''
     \<and> negative ''p''
     \<and> negative ''P0=''
     \<and> negative ''P''
     \<and> negative ''P0''
     \<and> negative ''P10000=12345678''
     \<and> negative ''P0=12345sxx''
     \<and> negative ''P0=1234567''
     \<and> negative ''P0=123456789''
     \<and> negative ''P=12345678''
     \<and> negative ''Px=12345678''"

definition test_step_single :: bool where
  "test_step_single \<longleftrightarrow>
     positive ''s12345678'' (Step_single_inst (Some 0x12345678))
     \<and> positive ''sdeadbeef'' (Step_single_inst (Some 0xdeadbeef))
     \<and> positive ''sDEADBEEF'' (Step_single_inst (Some 0xdeadbeef))
     \<and> positive ''sBEEF'' (Step_single_inst (Some 0x0000beef))
     \<and> positive ''s'' (Step_single_inst None)
     \<and> negative ''s1234w555''"

definition test_q_xfer_feature_read :: bool where
  "test_q_xfer_feature_read \<longleftrightarrow>
     positive ''qXfer:features:read:target.xml:0,ffb'' (Read_feature_xml ''target.xml'' 0 0xffb)
     \<and> positive ''qXfer:features:read:riscv-xxx.xml:1333,13'' (Read_feature_xml ''riscv-xxx.xml'' 0x1333 0x13)
     \<and> negative ''qXfer:features:read:''
     \<and> negative ''qXfer:features:read:target.xml''
     \<and> negative ''qXfer:features:read:target.xml:0''
     \<and> negative ''qXfer:features:read:target.xml:0,ffq''
     \<and> negative ''qXfer:features:read:target.xml:qq,ffb''
     \<and> negative ''qXfer:features:read:target.xml:0,''
     \<and> negative ''qXfer:features:read:target.xml:,ffb''"

definition test_q_xfer_memory_map_read :: bool where
  "test_q_xfer_memory_map_read \<longleftrightarrow>
     positive ''qXfer:memory-map:read::0,ffb'' (Read_memory_map_xml 0 0xffb)
     \<and> positive ''qXfer:memory-map:read::1333,13'' (Read_memory_map_xml 0x1333 0x13)
     \<and> negative ''qXfer:memory-map:read::''
     \<and> negative ''qXfer:memory-map:read::0''
     \<and> negative ''qXfer:memory-map:read::0,ffq''
     \<and> negative ''qXfer:memory-map:read::qq,ffb''
     \<and> negative ''qXfer:memory-map:read::0,''
     \<and> negative ''qXfer:memory-map:read::,ffb''"

definition test_q_supported :: bool where
  "test_q_supported \<longleftrightarrow>
     (case parse (''qSupported:multiprocess+;swbreak+;hwbreak+;qRelocInsn+;fork-events+;vfork-''
         @ ''events+;exec-events+;vContSupported+;QThreadEvents+;QThreadOptions+;no-''
         @ ''resumed+;memory-tagging+;xmlRegisters=i386;error-message+'') of
        Value (Query_supported features) \<Rightarrow>
          list_all (\<lambda>name. map_option hf_property (map_of features name) = Some Supported)
            [''multiprocess'', ''swbreak'', ''hwbreak'', ''qRelocInsn'', ''fork-events'', ''vfork-events'', ''exec-events'',
             ''vContSupported'', ''QThreadEvents'', ''QThreadOptions'', ''no-resumed'', ''memory-tagging'', ''error-message'']
          \<and> map_option hf_property (map_of features ''xmlRegisters'') = Some Feature_Value
          \<and> Option.bind (map_of features ''xmlRegisters'') hf_value = Some ''i386''
      | _ \<Rightarrow> False)"

definition test_add_breakpoint :: "char \<Rightarrow> bool" where
  "test_add_breakpoint c \<longleftrightarrow>
     positive (''Z'' @ [c] @ '',deadbeef,2'') (Add_breakpoint (c = CHR ''1'') 0xdeadbeef 2 None)
     \<and> positive (''Z'' @ [c] @ '',deadbeef,2;X8,00112233AABBCCDD'')
         (Add_breakpoint (c = CHR ''1'') 0xdeadbeef 2 (Some [0x00, 0x11, 0x22, 0x33, 0xAA, 0xBB, 0xCC, 0xDD]))
     \<and> negative (''Z'' @ [c] @ '',deadbeef,2;X8,00112233AABBCC'')
     \<and> negative (''Z'' @ [c] @ '',deadbeef,2;X8,00112233AABBCXDD'')
     \<and> negative (''Z'' @ [c] @ '',deadbeef,2;X,00112233AABBCCDD'')
     \<and> negative (''Z'' @ [c] @ '',deadbeef,2;X8'')
     \<and> negative (''Z'' @ [c] @ '',deadbeef,2;X'')
     \<and> negative (''Z'' @ [c] @ '',deadbeef,2;X,'')"

definition test_add_watchpoint :: "char \<Rightarrow> bool" where
  "test_add_watchpoint c \<longleftrightarrow>
     positive (''Z'' @ [c] @ '',cafecafe,4'')
       (Add_watchpoint (c = CHR ''2'' \<or> c = CHR ''4'') (c = CHR ''3'' \<or> c = CHR ''4'') 0xcafecafe 4)
     \<and> positive (''Z'' @ [c] @ '',cafe,12388'')
         (Add_watchpoint (c = CHR ''2'' \<or> c = CHR ''4'') (c = CHR ''3'' \<or> c = CHR ''4'') 0xcafe 0x12388)"

definition malformed :: "char \<Rightarrow> char \<Rightarrow> bool" where
  "malformed z c \<longleftrightarrow>
     negative (z # [c] @ '',cafecafe,'') \<and> negative (z # [c] @ '',cafecafe,123xx'')
     \<and> negative (z # [c] @ '',cafeqwq,12388'') \<and> negative (z # [c] @ '',,12388'')
     \<and> negative (z # [c] @ '',,'') \<and> negative (z # [c] @ '','') \<and> negative (z # [c])"

definition unknown_kinds :: "char \<Rightarrow> bool" where
  "unknown_kinds z \<longleftrightarrow> list_all (\<lambda>c. negative (z # [c] @ '',cafe,12388'')) ''xb75''"

definition test_add_break_watch :: bool where
  "test_add_break_watch \<longleftrightarrow>
     list_all test_add_breakpoint ''01'' \<and> list_all test_add_watchpoint ''234''
     \<and> list_all (malformed (CHR ''Z'')) ''01234'' \<and> unknown_kinds (CHR ''Z'')"

definition test_remove_breakpoint :: "char \<Rightarrow> bool" where
  "test_remove_breakpoint c \<longleftrightarrow>
     positive (''z'' @ [c] @ '',deadbeef,2'') (Remove_breakpoint (c = CHR ''1'') 0xdeadbeef 2)"

definition test_remove_watchpoint :: "char \<Rightarrow> bool" where
  "test_remove_watchpoint c \<longleftrightarrow>
     positive (''z'' @ [c] @ '',cafecafe,4'')
       (Remove_watchpoint (c = CHR ''2'' \<or> c = CHR ''4'') (c = CHR ''3'' \<or> c = CHR ''4'') 0xcafecafe 4)"

definition test_remove_break_watch :: bool where
  "test_remove_break_watch \<longleftrightarrow>
     list_all test_remove_breakpoint ''01'' \<and> list_all test_remove_watchpoint ''234''
     \<and> list_all (malformed (CHR ''z'')) ''01234'' \<and> unknown_kinds (CHR ''z'')"

section \<open>The tests pass\<close>

lemma test_acknowledge_passes: test_acknowledge
  by (simp add: test_acknowledge_def positive_def negative_def parser_run)

lemma test_enable_persistant_passes: test_enable_persistant
  by (simp add: test_enable_persistant_def positive_def negative_def parser_run)

lemma test_ask_halt_reason_passes: test_ask_halt_reason
  by (simp add: test_ask_halt_reason_def positive_def negative_def parser_run)

lemma test_read_general_register_passes: test_read_general_register
  by (simp add: test_read_general_register_def positive_def negative_def parser_run)

lemma test_continue_passes: test_continue
  by (simp add: test_continue_def positive_def negative_def parser_run)

lemma test_write_register_passes: test_write_register
  by (simp add: test_write_register_def positive_def negative_def parser_run)

lemma test_step_single_cycle_passes: test_step_single_cycle
  by (simp add: test_step_single_cycle_def positive_def negative_def parser_run)

lemma test_read_memory_passes: test_read_memory
  by (simp add: test_read_memory_def positive_def negative_def parser_run)

lemma test_write_memory_passes: test_write_memory
  by (simp add: test_write_memory_def positive_def negative_def parser_run)

lemma test_read_write_single_register_passes: test_read_write_single_register
  by (simp add: test_read_write_single_register_def positive_def negative_def parser_run)

lemma test_step_single_passes: test_step_single
  by (simp add: test_step_single_def positive_def negative_def parser_run)

lemma test_q_xfer_feature_read_passes: test_q_xfer_feature_read
  by (simp add: test_q_xfer_feature_read_def positive_def negative_def parser_run)

lemma test_q_xfer_memory_map_read_passes: test_q_xfer_memory_map_read
  by (simp add: test_q_xfer_memory_map_read_def positive_def negative_def parser_run)

lemma test_q_supported_passes: test_q_supported
  by (simp add: test_q_supported_def parser_run)

lemma test_add_break_watch_passes: test_add_break_watch
proof -
  have "list_all test_add_breakpoint ''01''"
    by (simp add: test_add_breakpoint_def positive_def negative_def parser_run)
  moreover have "list_all test_add_watchpoint ''234''"
    by (simp add: test_add_watchpoint_def positive_def parser_run)
  moreover have "list_all (malformed (CHR ''Z'')) ''01234''"
    by (simp add: malformed_def negative_def parser_run)
  moreover have "unknown_kinds (CHR ''Z'')"
    by (simp add: unknown_kinds_def negative_def parser_run)
  ultimately show ?thesis by (simp add: test_add_break_watch_def)
qed

lemma test_remove_break_watch_passes: test_remove_break_watch
proof -
  have "list_all test_remove_breakpoint ''01''"
    by (simp add: test_remove_breakpoint_def positive_def negative_def parser_run)
  moreover have "list_all test_remove_watchpoint ''234''"
    by (simp add: test_remove_watchpoint_def positive_def parser_run)
  moreover have "list_all (malformed (CHR ''z'')) ''01234''"
    by (simp add: malformed_def negative_def parser_run)
  moreover have "unknown_kinds (CHR ''z'')"
    by (simp add: unknown_kinds_def negative_def parser_run)
  ultimately show ?thesis by (simp add: test_remove_break_watch_def)
qed

end
