(* ===== verification/ExpressionTests.thy ===== *)
theory ExpressionTests
  imports Expression
begin

text \<open>
  The unit tests of \<open>lib/test/gdb-stub/expression.cpp\<close>, on the model. The accesses the tests pass are
  reads of an array, or the constant 0; they keep no state.
\<close>

unbundle bit_operations_syntax

section \<open>What the tests pass and expect\<close>

definition register_array :: "u32 list \<Rightarrow> unit register_access" where
  "register_array registers index s =
     (if length registers \<le> unat index then (Unexpected (), s) else (Value (registers ! unat index), s))"

definition memory_bytes :: "u8 list \<Rightarrow> unit memory_access" where
  "memory_bytes memory addr s =
     (if length memory \<le> unat addr then (Unexpected (), s) else (Value (memory ! unat addr), s))"

definition zero_access :: "u32 \<Rightarrow> unit \<Rightarrow> ('a::len word, unit) expected \<times> unit" where
  "zero_access _ s = (Value 0, s)"

definition fails_with :: "unit memory_access \<Rightarrow> unit register_access \<Rightarrow> u8 list \<Rightarrow> execute_error \<Rightarrow> bool" where
  "fails_with access_memory access_register code e \<longleftrightarrow>
     expr_execute access_memory access_register code () = Some (Unexpected e, ())"

definition gives_top :: "unit memory_access \<Rightarrow> unit register_access \<Rightarrow> u8 list \<Rightarrow> u32 \<Rightarrow> bool" where
  "gives_top access_memory access_register code v \<longleftrightarrow>
     (case expr_execute access_memory access_register code () of
        Some (Value r, _) \<Rightarrow> er_top r = v
      | _ \<Rightarrow> False)"

section \<open>The tests\<close>

definition test_basic :: bool where
  "test_basic \<longleftrightarrow>
     expr_execute (memory_bytes (concat (map bytes_of_u32 [7, 11, 13, 17]))) (register_array [0, 2, 3, 5])
       [code_of Reg, 0x00, 0x01, code_of Reg, 0x00, 0x02, code_of Const32, 0x00, 0x00, 0x00, 3 * 4, code_of Ref32, code_of Ext, 32, code_of Mul_op, code_of Add_op, code_of End_op] ()
       = Some (Value \<lparr>er_top = 2 + 17 * 3, er_next_to_top = None\<rparr>, ())"

definition test_memory_out_of_bound :: bool where
  "test_memory_out_of_bound \<longleftrightarrow>
     fails_with (memory_bytes (concat (map bytes_of_u32 [7, 11, 13, 17]))) (register_array [0, 2, 3, 5])
       [code_of Const32, 0x00, 0x00, 0x00, 0x10, code_of Ref32, code_of End_op] Memory_access_error"

definition test_register_out_of_bound :: bool where
  "test_register_out_of_bound \<longleftrightarrow>
     fails_with (memory_bytes (concat (map bytes_of_u32 [7, 11, 13, 17]))) (register_array [0, 2, 3, 5])
       [code_of Reg, 0x00, 0x09, code_of End_op] Register_access_error"

definition test_division_by_zero :: bool where
  "test_division_by_zero \<longleftrightarrow>
     fails_with (memory_bytes (concat (map bytes_of_u32 [7, 11, 13, 17]))) (register_array [0, 2, 3, 5])
       [code_of Const32, 0x00, 0x00, 0x00, 0x0A, code_of Const32, 0x00, 0x00, 0x00, 0x00, code_of Div_unsigned, code_of End_op] Division_by_zero"

definition test_unaligned_memory_access_succeeds :: bool where
  "test_unaligned_memory_access_succeeds \<longleftrightarrow>
     gives_top (memory_bytes [1, 2, 3, 4, 5, 6, 7, 8]) (register_array [])
       [code_of Const32, 0x00, 0x00, 0x00, 0x01, code_of Ref32, code_of End_op] (2 OR push_bit 8 3 OR push_bit 16 4 OR push_bit 24 5)"

definition test_stack_underflow :: bool where
  "test_stack_underflow \<longleftrightarrow>
     fails_with zero_access zero_access
       [code_of Const32, 0x00, 0x00, 0x00, 0x01, code_of Add_op, code_of End_op] Stack_out_of_bound"

definition test_stack_underflow_pop :: bool where
  "test_stack_underflow_pop \<longleftrightarrow>
     fails_with zero_access zero_access
       [code_of Pop, code_of End_op] Stack_out_of_bound"

definition test_jump_out_of_bound :: bool where
  "test_jump_out_of_bound \<longleftrightarrow>
     fails_with zero_access zero_access
       [code_of Const32, 0x00, 0x00, 0x00, 0x00, code_of Goto, 0xFF, 0xFF, code_of End_op] Bytecode_out_of_bound"

definition test_if_goto_out_of_bound :: bool where
  "test_if_goto_out_of_bound \<longleftrightarrow>
     fails_with zero_access zero_access
       [code_of Const32, 0x00, 0x00, 0x00, 0x01, code_of If_goto, 0xFF, 0xFF, code_of End_op] Bytecode_out_of_bound"

definition test_unsupported_bytecode :: bool where
  "test_unsupported_bytecode \<longleftrightarrow>
     fails_with zero_access zero_access
       [0xFF, code_of End_op] Unsupported_bytecode"

definition test_bytecode_out_of_bound :: bool where
  "test_bytecode_out_of_bound \<longleftrightarrow>
     fails_with zero_access zero_access
       [code_of Const32, 0x00, 0x00, code_of End_op] Bytecode_out_of_bound"

definition test_pick_stack_underflow :: bool where
  "test_pick_stack_underflow \<longleftrightarrow>
     fails_with zero_access zero_access
       [code_of Pick, 0x01, code_of End_op] Stack_out_of_bound"

definition test_rot_stack_underflow :: bool where
  "test_rot_stack_underflow \<longleftrightarrow>
     fails_with zero_access zero_access
       [code_of Const32, 0x00, 0x00, 0x00, 0x01, code_of Rot, code_of End_op] Stack_out_of_bound"

definition test_const8_and_const16 :: bool where
  "test_const8_and_const16 \<longleftrightarrow>
     gives_top zero_access zero_access
       [code_of Const8, 0xAB, code_of End_op] 0xAB
     \<and> gives_top zero_access zero_access
       [code_of Const16, 0x12, 0x34, code_of End_op] 0x1234"

definition test_ext_and_zero_ext_widths :: bool where
  "test_ext_and_zero_ext_widths \<longleftrightarrow>
     gives_top zero_access zero_access
       [code_of Const8, 0xFF, code_of Ext, 8, code_of End_op] 0xFFFFFFFF
     \<and> gives_top zero_access zero_access
       [code_of Const8, 0xFF, code_of Zero_ext, 8, code_of End_op] 0x000000FF
     \<and> gives_top zero_access zero_access
       [code_of Const16, 0x80, 0x00, code_of Ext, 16, code_of End_op] 0xFFFF8000
     \<and> gives_top zero_access zero_access
       [code_of Const32, 0xFF, 0xFF, 0x80, 0x01, code_of Zero_ext, 16, code_of End_op] 0x00008001"

definition test_ref_widths :: bool where
  "test_ref_widths \<longleftrightarrow>
     gives_top (memory_bytes [0x11, 0x22, 0x33, 0x44, 0x55, 0x66, 0x77, 0x88]) (register_array [])
       [code_of Const32, 0x00, 0x00, 0x00, 0x02, code_of Ref8, code_of End_op] 0x33
     \<and> gives_top (memory_bytes [0x11, 0x22, 0x33, 0x44, 0x55, 0x66, 0x77, 0x88]) (register_array [])
       [code_of Const32, 0x00, 0x00, 0x00, 0x01, code_of Ref16, code_of End_op] 0x3322
     \<and> gives_top (memory_bytes [0x11, 0x22, 0x33, 0x44, 0x55, 0x66, 0x77, 0x88]) (register_array [])
       [code_of Const32, 0x00, 0x00, 0x00, 0x00, code_of Ref32, code_of End_op] 0x44332211"

section \<open>The tests pass\<close>

text \<open>The rewriting rules that run the machine on a literal.\<close>

lemma code_of_run:
  "code_of Reg = 0x26" "bytecode_of 0x26 = Some Reg"
  "code_of Const32 = 0x24" "bytecode_of 0x24 = Some Const32"
  "code_of Ref32 = 0x19" "bytecode_of 0x19 = Some Ref32"
  "code_of Ext = 0x16" "bytecode_of 0x16 = Some Ext"
  "code_of Mul_op = 0x04" "bytecode_of 0x04 = Some Mul_op"
  "code_of Add_op = 0x02" "bytecode_of 0x02 = Some Add_op"
  "code_of End_op = 0x27" "bytecode_of 0x27 = Some End_op"
  "code_of Div_unsigned = 0x06" "bytecode_of 0x06 = Some Div_unsigned"
  "code_of Pop = 0x29" "bytecode_of 0x29 = Some Pop"
  "code_of Goto = 0x21" "bytecode_of 0x21 = Some Goto"
  "code_of If_goto = 0x20" "bytecode_of 0x20 = Some If_goto"
  "code_of Pick = 0x32" "bytecode_of 0x32 = Some Pick"
  "code_of Rot = 0x33" "bytecode_of 0x33 = Some Rot"
  "code_of Const8 = 0x22" "bytecode_of 0x22 = Some Const8"
  "code_of Const16 = 0x23" "bytecode_of 0x23 = Some Const16"
  "code_of Zero_ext = 0x2a" "bytecode_of 0x2a = Some Zero_ext"
  "code_of Ref8 = 0x17" "bytecode_of 0x17 = Some Ref8"
  "code_of Ref16 = 0x18" "bytecode_of 0x18 = Some Ref16"
  "bytecode_of 0xFF = None"
  by (simp_all add: code_of_def bytecode_of_def bytecode_table_def)

lemma read_memory_run:
  "read_memory_bytes access_memory addr (numeral k) s =
     (case access_memory addr s of
        (Value b, s) \<Rightarrow>
          (case read_memory_bytes access_memory (addr + 1) (pred_numeral k) s of
             (Value bs, s) \<Rightarrow> (Value (b # bs), s)
           | (Unexpected u, s) \<Rightarrow> (Unexpected u, s)
           | (Throw x, s) \<Rightarrow> (Throw x, s))
      | (Unexpected u, s) \<Rightarrow> (Unexpected u, s)
      | (Throw x, s) \<Rightarrow> (Throw x, s))"
  by (simp add: numeral_eq_Suc)

lemmas machine_run =
  expr_run.simps expr_execute_def expr_step_def with_ops_def get_ops_def value_of_bytes_def control_step_def
  shuffle_step_def code_of_run divide_with_def ext_op_def zero_ext_op_def
  read_memory_run u16_of_bytes_def u32_of_bytes_def bytes_of_u32_def
  register_array_def memory_bytes_def zero_access_def fails_with_def gives_top_def

lemma test_basic_passes: test_basic
  by (simp add: test_basic_def machine_run)

lemma test_memory_out_of_bound_passes: test_memory_out_of_bound
  by (simp add: test_memory_out_of_bound_def machine_run)

lemma test_register_out_of_bound_passes: test_register_out_of_bound
  by (simp add: test_register_out_of_bound_def machine_run)

lemma test_division_by_zero_passes: test_division_by_zero
  by (simp add: test_division_by_zero_def machine_run)

lemma test_unaligned_memory_access_succeeds_passes: test_unaligned_memory_access_succeeds
  by (simp add: test_unaligned_memory_access_succeeds_def machine_run)

lemma test_stack_underflow_passes: test_stack_underflow
  by (simp add: test_stack_underflow_def machine_run)

lemma test_stack_underflow_pop_passes: test_stack_underflow_pop
  by (simp add: test_stack_underflow_pop_def machine_run)

lemma test_jump_out_of_bound_passes: test_jump_out_of_bound
  by (simp add: test_jump_out_of_bound_def machine_run)

lemma test_if_goto_out_of_bound_passes: test_if_goto_out_of_bound
  by (simp add: test_if_goto_out_of_bound_def machine_run)

lemma test_unsupported_bytecode_passes: test_unsupported_bytecode
  by (simp add: test_unsupported_bytecode_def machine_run)

lemma test_bytecode_out_of_bound_passes: test_bytecode_out_of_bound
  by (simp add: test_bytecode_out_of_bound_def machine_run)

lemma test_pick_stack_underflow_passes: test_pick_stack_underflow
  by (simp add: test_pick_stack_underflow_def machine_run)

lemma test_rot_stack_underflow_passes: test_rot_stack_underflow
  by (simp add: test_rot_stack_underflow_def machine_run)

lemma test_const8_and_const16_passes: test_const8_and_const16
  by (simp add: test_const8_and_const16_def machine_run)

lemma test_ext_and_zero_ext_widths_passes: test_ext_and_zero_ext_widths
  by (simp add: test_ext_and_zero_ext_widths_def machine_run)

lemma test_ref_widths_passes: test_ref_widths
  by (simp add: test_ref_widths_def machine_run)

end
