(* ===== verification/PacketTests.thy ===== *)
theory PacketTests
  imports Packet Response
begin

text \<open>
  The unit tests of \<open>lib/test/gdb-stub/packet.cpp\<close> and \<open>lib/test/gdb-stub/response.cpp\<close>, on the model.
  A test of the decoder starts a fresh decoder, whatever its uninitialised checksum buffer holds,
  pushes the input and pops the results it expects.
\<close>

unbundle bit_operations_syntax

section \<open>What the tests push and pop\<close>

primrec pop_packets :: "nat \<Rightarrow> packet_decoder \<Rightarrow> (decoder_error + string) list \<times> packet_decoder" where
  "pop_packets 0 d = ([], d)"
| "pop_packets (Suc n) d =
     (case pop_packet d of (packet, d) \<Rightarrow> map_prod (Cons packet) id (pop_packets n d))"

definition no_packet :: "string \<Rightarrow> char \<times> char \<Rightarrow> bool" where
  "no_packet input buf \<longleftrightarrow> \<not> new_packet_available (decoder_push input (decoder_init buf))"

definition decodes :: "string \<Rightarrow> (decoder_error + string) list \<Rightarrow> char \<times> char \<Rightarrow> bool" where
  "decodes input packets buf \<longleftrightarrow>
     fst (pop_packets (length packets) (decoder_push input (decoder_init buf))) = packets"

definition decodes_all :: "string \<Rightarrow> (decoder_error + string) list \<Rightarrow> char \<times> char \<Rightarrow> bool" where
  "decodes_all input packets buf \<longleftrightarrow>
     (case pop_packets (length packets) (decoder_push input (decoder_init buf)) of
        (results, d) \<Rightarrow> results = packets \<and> \<not> new_packet_available d)"

definition decodes_no_value :: "string \<Rightarrow> char \<times> char \<Rightarrow> bool" where
  "decodes_no_value input buf \<longleftrightarrow>
     (case pop_packet (decoder_push input (decoder_init buf)) of
        (Inl _, _) \<Rightarrow> True
      | (Inr _, _) \<Rightarrow> False)"

definition real_packet :: string where
  "real_packet =
     ''qSupported:multiprocess+;swbreak+;hwbreak+;qRelocInsn+;fork-events+;''
      @ ''vfork-events+;exec-events+;vContSupported+;QThreadEvents+;''
      @ ''QThreadOptions+;no-resumed+;memory-tagging+;error-message+''"

definition encode_repeat :: "nat \<Rightarrow> string" where
  "encode_repeat n = encode (replicate n (CHR ''0''))"

section \<open>The tests\<close>

definition test_decode_incomplete_packet :: "char \<times> char \<Rightarrow> bool" where
  "test_decode_incomplete_packet buf \<longleftrightarrow>
     no_packet [] buf
     \<and> no_packet ''$'' buf
     \<and> no_packet ''$#'' buf"

definition test_decode_acknowledge :: "char \<times> char \<Rightarrow> bool" where
  "test_decode_acknowledge buf \<longleftrightarrow>
     decodes ''+''
       [Inr ''+''] buf
     \<and> decodes ''-''
       [Inr ''-''] buf
     \<and> decodes ''+$Hello#f4''
       [Inr ''+'', Inr ''Hello''] buf"

definition test_decode_invalid_packet :: "char \<times> char \<Rightarrow> bool" where
  "test_decode_invalid_packet buf \<longleftrightarrow>
     decodes ''$#vv''
       [Inl Bad_packet] buf
     \<and> decodes ''$$''
       [Inl Bad_packet] buf
     \<and> decodes ''$##q''
       [Inl Bad_packet] buf
     \<and> decodes ''$#$''
       [Inl Bad_packet] buf"

definition test_decode_check_sum :: "char \<times> char \<Rightarrow> bool" where
  "test_decode_check_sum buf \<longleftrightarrow>
     decodes ''$#00''
       [Inr []] buf
     \<and> decodes_no_value ''$#f5'' buf
     \<and> decodes ''$Hello#f4''
       [Inr ''Hello''] buf
     \<and> decodes ''$Hello#20''
       [Inl Bad_checksum] buf"

definition test_decode_buffer_overflow :: "char \<times> char \<Rightarrow> bool" where
  "test_decode_buffer_overflow buf \<longleftrightarrow>
     decodes (''$'' @ replicate (max_buffer_size + 1) (CHR ''A'') @ ''#''
              @ hex2 (of_nat (65 * (max_buffer_size + 1))))
       [Inl Buffer_overflow] buf"

definition test_decode_multiple_packets :: "char \<times> char \<Rightarrow> bool" where
  "test_decode_multiple_packets buf \<longleftrightarrow>
     decodes_all ''$Hello#f4$World#08'' [Inr ''Hello'', Inr ''World''] buf
     \<and> decodes_all ''$Hello#f0$World#08'' [Inl Bad_checksum, Inr ''World''] buf"

definition test_decode_real_packets :: "char \<times> char \<Rightarrow> bool" where
  "test_decode_real_packets buf \<longleftrightarrow>
     decodes ''$vMustReplyEmpty#3a''
       [Inr ''vMustReplyEmpty''] buf
     \<and> decodes (''$'' @ real_packet @ ''#89'')
       [Inr real_packet] buf"

definition test_decode_acknowledgement :: "char \<times> char \<Rightarrow> bool" where
  "test_decode_acknowledgement buf \<longleftrightarrow>
     decodes ''+''
       [Inr ''+''] buf
     \<and> decodes ''-''
       [Inr ''-''] buf
     \<and> decodes ''$vMustReplyEmpty#3a-''
       [Inr ''vMustReplyEmpty'', Inr ''-''] buf
     \<and> decodes ''$vMustReplyEmpty#-''
       [Inl Bad_packet, Inr ''-''] buf"

definition test_decode_remove_escape :: "bool" where
  "test_decode_remove_escape \<longleftrightarrow>
     remove_escape ''Hello'' = Some ''Hello''
     \<and> remove_escape (CHR ''}'' # char_xor (CHR ''H'') 0x20 # ''ello'') = Some ''Hello''
     \<and> remove_escape (CHR ''}'' # char_xor (CHR ''H'') 0x20 # ''ello}'') = None
     \<and> remove_escape (CHR ''}'' # CHR ''}'' # char_xor (CHR ''H'') 0x20 # ''ello'') = None
     \<and> remove_escape [CHR ''}'', char_xor (CHR ''}'') 0x20] = Some ''}''"

definition test_encoding :: "bool" where
  "test_encoding \<longleftrightarrow>
     encode_repeat 1 = ''$0#30''
     \<and> encode_repeat 2 = ''$00#60''
     \<and> encode_repeat 3 = ''$000#90''
     \<and> encode_repeat 4 = ''$0* #7a''
     \<and> encode_repeat 5 = ''$0*!#7b''
     \<and> encode_repeat 6 = (''$0*'' @ [CHR 0x22] @ ''#7c'')
     \<and> encode_repeat 7 = (''$0*'' @ [CHR 0x22] @ ''0#ac'')
     \<and> encode_repeat 8 = (''$0*'' @ [CHR 0x22] @ ''00#dc'')
     \<and> encode_repeat 9 = ''$0*%#7f''
     \<and> encode_repeat 98 = ''$0*~#d8''
     \<and> encode_repeat 99 = ''$0*~0#08''
     \<and> encode_repeat 100 = ''$0*~00#38''
     \<and> encode_repeat 101 = ''$0*~000#68''
     \<and> encode_repeat 102 = ''$0*~0* #52''
     \<and> encode ''My favourite    number is 00001234''
       = ''$My favourite * number is 0* 1234#0e''"

definition test_response_register_content :: bool where
  "test_response_register_content \<longleftrightarrow>
     response_to_string (Register_content [Some 0, Some 0xdeadbeef, Some 0x12345678])
       = ''00000000efbeadde78563412''
     \<and> response_to_string (Register_content [None]) = ''xxxxxxxx''"

definition test_response_raw_byte_stream :: bool where
  "test_response_raw_byte_stream \<longleftrightarrow>
     response_to_string (Raw_byte_stream [0x0, 0x1, 0x2, 0x3]) = ''00010203''
     \<and> response_to_string (Raw_byte_stream []) = ''E00''"

definition test_response_error_code :: bool where
  "test_response_error_code \<longleftrightarrow>
     response_to_string (Error_code 0) = ''E00''
     \<and> response_to_string (Error_code 255) = ''Eff''"

definition test_response_error_message :: bool where
  "test_response_error_message \<longleftrightarrow>
     response_to_string (Error_message ''Test'') = ''E.Test''
     \<and> response_to_string (Error_message ''$$$'') = ''E.$$$''"

definition test_response_stop_reason :: bool where
  "test_response_stop_reason \<longleftrightarrow>
     response_to_string (stop_at_signal 0x3f) = ''T3f''
     \<and> response_to_string (stop_at_breakpoint True) = ''T05hwbreak:;''
     \<and> response_to_string (stop_at_breakpoint False) = ''T05swbreak:;''
     \<and> response_to_string (stop_at_watchpoint 0x123 True False) = ''T05watch:123;''
     \<and> response_to_string (stop_at_watchpoint 0x123 False True) = ''T05rwatch:123;''
     \<and> response_to_string (stop_at_watchpoint 0x123 True True) = ''T05awatch:123;''"

definition test_response_qxfer :: bool where
  "test_response_qxfer \<longleftrightarrow>
     response_to_string (Qxfer_response False (map of_char ''23ea'')) = ''m23ea''
     \<and> response_to_string (Qxfer_response True (map of_char ''23ea'')) = ''l23ea''
     \<and> response_to_string (Qxfer_response True []) = ''l''"

section \<open>The tests pass\<close>

text \<open>The rewriting rules that run the decoder and the encoder on a literal.\<close>

lemma char_of_run:
  "char_of (n :: nat) =
     Char (odd n) (odd (n div 2)) (odd (n div 4)) (odd (n div 8)) (odd (n div 16)) (odd (n div 32))
       (odd (n div 64)) (odd (n div 128))"
  by (simp add: char_of_def bit_iff_odd)

lemma no_full_run: "\<not> (97 :: u8) \<le> 1"
  by (simp add: word_le_nat_alt)

lemmas decoder_run =
  decoder_push_def decoder_init_def push_char_def push_result_def pop_packet_def is_control_def
  max_buffer_size_def decode_in_buffer_def get_checksum_def hex_number_def hex_val_def is_xdigit_def
  Let_def new_packet_available_def char_xor_def char_of_run no_packet_def decodes_def decodes_all_def
  decodes_no_value_def

lemmas encoder_run =
  encode_repeat_def encode_def internal_encode_def encoder_init_def encoder_push_def push_repeat_def
  is_special_def get_checksum_def hex2_def hex_char_def char_xor_def char_of_run no_full_run Let_def

text \<open>A run of a character is counted while the count fits.\<close>

lemma push_run:
  assumes "pe_last_char e = c" "c \<noteq> CHR 0x00" "unat (pe_repeat e) + n \<le> 97"
  shows "fold encoder_push (replicate n c) e = e\<lparr>pe_repeat := pe_repeat e + of_nat n\<rparr>"
  using assms(1,3)
proof (induction n arbitrary: e)
  case (Suc n)
  then have "\<not> 97 \<le> pe_repeat e" by (simp add: word_le_nat_alt)
  then have "encoder_push c e = e\<lparr>pe_repeat := pe_repeat e + 1\<rparr>"
    using Suc.prems assms(2) by (simp add: encoder_push_def)
  moreover have "unat (pe_repeat e + 1) = unat (pe_repeat e) + 1"
    using Suc.prems by (simp add: unat_plus_if_size word_size)
  ultimately show ?case using Suc by (simp add: add.assoc)
qed simp

lemma replicate_run: "replicate 1 c = [c]" "replicate 2 c = [c, c]"
  by (simp_all add: numeral_2_eq_2)

lemmas run_text_run =
  replicate_run
  internal_encode_def push_repeat_def get_checksum_def hex2_def hex_char_def char_of_run Let_def

lemma encode_runs:
  assumes "n \<le> 97"
  shows
    "encode_repeat (n + 1) =
      internal_encode [] \<lparr>pe_stream = ''0'', pe_last_char = CHR ''0'', pe_repeat = of_nat n\<rparr>"
      (is "_ = internal_encode [] (?short n)")
    "encode_repeat (n + 99) =
      internal_encode [] \<lparr>pe_stream = ''0*~0'', pe_last_char = CHR ''0'', pe_repeat = of_nat n\<rparr>"
      (is "_ = internal_encode [] (?long n)")
proof -
  have run: "fold encoder_push (replicate m (CHR ''0'')) (e\<lparr>pe_last_char := CHR ''0'', pe_repeat := 0\<rparr>) =
      e\<lparr>pe_last_char := CHR ''0'', pe_repeat := of_nat m\<rparr>" if "m \<le> 97" for m e
    using that by (subst push_run) simp_all
  have first: "fold encoder_push (replicate (m + 1) (CHR ''0'')) encoder_init = ?short m" if "m \<le> 97" for m
    using run[OF that, of "?short 0"] by (simp add: encoder_init_def encoder_push_def push_repeat_def is_special_def)
  then show "encode_repeat (n + 1) = internal_encode [] (?short n)"
    using assms by (simp add: encode_repeat_def encode_def internal_encode_def)
  have "replicate (n + 99) (CHR ''0'') = replicate (97 + 1) (CHR ''0'') @ CHR ''0'' # replicate n (CHR ''0'')"
    by (simp add: add.commute[of n] replicate_add[symmetric] flip: replicate_Suc)
  moreover have "encoder_push (CHR ''0'') (?short 97) = ?long 0"
    by (simp add: encoder_push_def push_repeat_def is_special_def char_of_run Let_def)
  ultimately have "fold encoder_push (replicate (n + 99) (CHR ''0'')) encoder_init = ?long n"
    using first[of 97] run[OF assms, of "?long 0"] by simp
  then show "encode_repeat (n + 99) = internal_encode [] (?long n)"
    by (simp add: encode_repeat_def encode_def internal_encode_def)
qed

lemma test_decode_incomplete_packet_passes: "test_decode_incomplete_packet buf"
  by (cases buf) (simp add: test_decode_incomplete_packet_def decoder_run)

lemma test_decode_acknowledge_passes: "test_decode_acknowledge buf"
  by (cases buf) (simp add: test_decode_acknowledge_def decoder_run)

lemma test_decode_invalid_packet_passes: "test_decode_invalid_packet buf"
  by (cases buf) (simp add: test_decode_invalid_packet_def decoder_run)

lemma test_decode_check_sum_passes: "test_decode_check_sum buf"
  by (cases buf) (simp add: test_decode_check_sum_def decoder_run)

lemma test_decode_buffer_overflow_passes: "test_decode_buffer_overflow buf"
proof -
  let ?d = "(decoder_init buf)\<lparr>pd_state := Receiving_body\<rparr>"
  have c: "hex2 (of_nat (65 * (max_buffer_size + 1))) = ''41''"
    by (simp add: max_buffer_size_def hex2_def hex_char_def char_of_run)
  have "push_char (CHR ''$'') (decoder_init buf) = ?d" by (simp add: decoder_init_def push_char_def)
  moreover have "fold push_char (replicate max_buffer_size (CHR ''A'')) ?d =
      ?d\<lparr>pd_in_buffer := replicate max_buffer_size (CHR ''A'')\<rparr>"
    by (subst push_body) (simp_all add: decoder_init_def)
  moreover have "replicate (max_buffer_size + 1) (CHR ''A'') = replicate max_buffer_size (CHR ''A'') @ ''A''"
    by (simp add: replicate_append_same)
  ultimately have "decoder_push (''$'' @ replicate (max_buffer_size + 1) (CHR ''A'') @ ''#'' @ ''41'') (decoder_init buf)
      = fold push_char (''A'' @ ''#'' @ ''41'') (?d\<lparr>pd_in_buffer := replicate max_buffer_size (CHR ''A'')\<rparr>)"
    by (simp add: decoder_push_def)
  also have "\<dots> = push_result (Inl Buffer_overflow) (decoder_init buf)"
    by (simp add: push_char_def push_result_def is_control_def decoder_init_def)
  finally show ?thesis
    unfolding test_decode_buffer_overflow_def c decodes_def by (simp add: pop_packet_def push_result_def decoder_init_def)
qed

lemma test_decode_multiple_packets_passes: "test_decode_multiple_packets buf"
  by (cases buf) (simp add: test_decode_multiple_packets_def decoder_run)

lemma test_decode_real_packets_passes: "test_decode_real_packets buf"
  by (cases buf) (simp add: test_decode_real_packets_def real_packet_def decoder_run)

lemma test_decode_acknowledgement_passes: "test_decode_acknowledgement buf"
  by (cases buf) (simp add: test_decode_acknowledgement_def decoder_run)

lemma test_decode_remove_escape_passes: test_decode_remove_escape
  by (simp add: test_decode_remove_escape_def decoder_run)

lemma encode_sentence:
  "encode ''My favourite    number is 00001234'' = ''$My favourite * number is 0* 1234#0e''"
  by (simp add: encoder_run)

lemma encode_repeats:
  "encode_repeat 1 = ''$0#30''"
  "encode_repeat 2 = ''$00#60''"
  "encode_repeat 3 = ''$000#90''"
  "encode_repeat 4 = ''$0* #7a''"
  "encode_repeat 5 = ''$0*!#7b''"
  "encode_repeat 6 = (''$0*'' @ [CHR 0x22] @ ''#7c'')"
  "encode_repeat 7 = (''$0*'' @ [CHR 0x22] @ ''0#ac'')"
  "encode_repeat 8 = (''$0*'' @ [CHR 0x22] @ ''00#dc'')"
  "encode_repeat 9 = ''$0*%#7f''"
  "encode_repeat 98 = ''$0*~#d8''"
  "encode_repeat 99 = ''$0*~0#08''"
  "encode_repeat 100 = ''$0*~00#38''"
  "encode_repeat 101 = ''$0*~000#68''"
  "encode_repeat 102 = ''$0*~0* #52''"
  subgoal using encode_runs(1)[of 0] by (simp add: run_text_run)
  subgoal by (subst one_add_one[symmetric], subst encode_runs(1)) (simp_all add: run_text_run)
  subgoal using encode_runs(1)[of 2] by (simp add: run_text_run)
  subgoal using encode_runs(1)[of 3] by (simp add: run_text_run)
  subgoal using encode_runs(1)[of 4] by (simp add: run_text_run)
  subgoal using encode_runs(1)[of 5] by (simp add: run_text_run)
  subgoal using encode_runs(1)[of 6] by (simp add: run_text_run)
  subgoal using encode_runs(1)[of 7] by (simp add: run_text_run)
  subgoal using encode_runs(1)[of 8] by (simp add: run_text_run)
  subgoal using encode_runs(1)[of 97] by (simp add: run_text_run)
  subgoal using encode_runs(2)[of 0] by (simp add: run_text_run)
  subgoal using encode_runs(2)[of 1] by (simp add: run_text_run)
  subgoal using encode_runs(2)[of 2] by (simp add: run_text_run)
  subgoal using encode_runs(2)[of 3] by (simp add: run_text_run)
  done

lemma test_encoding_passes: test_encoding
  unfolding test_encoding_def by (intro conjI encode_repeats encode_sentence)

lemmas response_run =
  register_content_text_def byteswap_def bytes_of_u32_def u32_of_bytes_def hex8_def hex2_def hex_char_def
  stop_at_signal_def stop_at_breakpoint_def stop_at_watchpoint_def SIGTRAP_def text_of_bytes_def
  hex_of_nat.simps char_of_run

lemma test_response_register_content_passes: test_response_register_content
  by (simp add: test_response_register_content_def response_run)

lemma test_response_raw_byte_stream_passes: test_response_raw_byte_stream
  by (simp add: test_response_raw_byte_stream_def response_run)

lemma test_response_error_code_passes: test_response_error_code
  by (simp add: test_response_error_code_def response_run)

lemma test_response_error_message_passes: test_response_error_message
  by (simp add: test_response_error_message_def response_run)

lemma test_response_stop_reason_passes: test_response_stop_reason
  by (simp add: test_response_stop_reason_def response_run)

lemma test_response_qxfer_passes: test_response_qxfer
  by (simp add: test_response_qxfer_def response_run)

end
