(* ===== verification/DeviceTests.thy ===== *)
theory DeviceTests
  imports BlockMemory
begin

text \<open>
  The unit tests of \<open>lib/test/device/block-memory.cpp\<close>, on the model. The memories the tests fill at
  random hold any words: \<open>random\<close> gives them, and the tests pass for all.
\<close>

unbundle bit_operations_syntax

section \<open>The tests\<close>

definition has_value :: "('a, mem_error) expected \<Rightarrow> bool" where
  "has_value r \<longleftrightarrow> (case r of Value _ \<Rightarrow> True | _ \<Rightarrow> False)"

definition mib16 :: u64 where
  "mib16 = 16 * 1024 * 1024"

definition test_normal_write :: "(nat \<Rightarrow> nat \<Rightarrow> page) \<Rightarrow> bool" where
  "test_normal_write random \<longleftrightarrow>
     (let mem = block_memory_new mib16 Fill_Random random;
          (w0, mem) = block_write mem 0 0x12345678 (bs_of 0b1111);
          (r0, mem) = block_read mem 0;
          (w1, mem) = block_write mem 4 0x12345678 (bs_of 0b1010);
          (w2, mem) = block_write mem 4 0xdeadbeef (bs_of 0b0101);
          (r1, mem) = block_read mem 4;
          (w3, mem) = block_write mem 4 0xFFFFFFFF (bs_of 0b0000);
          (r2, mem) = block_read mem 4;
          small_mem = block_memory_new 3 Fill_Random random;
          (s0, small_mem) = block_write small_mem 0 0x12345678 (bs_of 0b1111);
          (s1, small_mem) = block_write small_mem 0 0x12345678 (bs_of 0b0111);
          locked_mem = block_lock (block_memory_new mib16 Fill_Random random);
          (l0, locked_mem) = block_write locked_mem 0 0x12345678 (bs_of 0b1111)
      in has_value w0 \<and> r0 = Value 0x12345678
         \<and> has_value w1 \<and> has_value w2 \<and> r1 = Value 0x12ad56ef
         \<and> has_value w3 \<and> r2 = Value 0x12ad56ef
         \<and> block_size mem = 16 * 1024 * 1024
         \<and> s0 = Unexpected Out_of_range \<and> has_value s1
         \<and> l0 = Unexpected Access_fault)"

text \<open>The pages with the given numbers are read in turn and compared with the data.\<close>

primrec pages_match :: "u32 list \<Rightarrow> nat list \<Rightarrow> block_memory \<Rightarrow> bool" where
  "pages_match test_data [] mem \<longleftrightarrow> True"
| "pages_match test_data (idx # rest) mem \<longleftrightarrow>
     (case block_read_page mem (of_nat (idx * 4096)) of
        (Value page_data, mem) \<Rightarrow>
          (\<forall>i<1024. page_data i = test_data ! (1024 * idx + i)) \<and> pages_match test_data rest mem
      | _ \<Rightarrow> False)"

definition test_fill_validation :: "(nat \<Rightarrow> nat \<Rightarrow> page) \<Rightarrow> bool" where
  "test_fill_validation random \<longleftrightarrow>
     (let mem = block_memory_new mib16 Fill_Cdcdcdcd random;
          test_data = replicate (16 * 1024 * 1024 div 4) 0;
          (filled, mem) = fill_data (concat (map bytes_of_u32 test_data)) mem;
          (p0, mem) = block_read_page mem 0;
          small_mem = block_memory_new 16 Fill_Random random;
          (p1, small_mem) = block_read_page small_mem 0
      in filled = Inr True \<and> has_value p0
         \<and> pages_match test_data [0..<length test_data div 1024] mem
         \<and> \<not> has_value p1)"

definition test_out_of_bound :: "(nat \<Rightarrow> nat \<Rightarrow> page) \<Rightarrow> bool" where
  "test_out_of_bound random \<longleftrightarrow>
     (let mem = block_memory_new mib16 Fill_Random random;
          (p0, mem) = block_read_page mem 0;
          (p1, mem) = block_read_page mem (16 * 1024 * 1024 - 4096);
          (p2, mem) = block_read_page mem (16 * 1024 * 1024);
          (r0, mem) = block_read mem (16 * 1024 * 1024);
          (w0, mem) = block_write mem (16 * 1024 * 1024) 0x12345678 (bs_of 0b1111);
          (r1, mem) = block_read mem (16 * 1024 * 1024 - 4);
          (w1, mem) = block_write mem (16 * 1024 * 1024 - 4) 0x12345678 (bs_of 0b1111);
          test_data = replicate (32 * 1024 * 1024) 0;
          (f0, mem) = fill_data test_data mem;
          (f1, mem) = fill_data (take (16 * 1024 * 1024) test_data) mem
      in has_value p0 \<and> has_value p1 \<and> \<not> has_value p2
         \<and> r0 = Unexpected Out_of_range \<and> w0 = Unexpected Out_of_range
         \<and> has_value r1 \<and> has_value w1
         \<and> f0 = Inr False \<and> f1 = Inr True)"

definition test_unaligned :: "(nat \<Rightarrow> nat \<Rightarrow> page) \<Rightarrow> bool" where
  "test_unaligned random \<longleftrightarrow>
     (let mem = block_memory_new mib16 Fill_Random random;
          (r0, mem) = block_read mem 1;
          (w0, mem) = block_write mem 1 0x12345678 (bs_of 0b1111)
      in r0 = Unexpected Unaligned \<and> w0 = Unexpected Unaligned)"

section \<open>The tests pass\<close>

text \<open>The rewriting rules that run the operations at a literal address.\<close>

lemma word_parts_run:
  "ucast (u32_of_bytes b0 b1 b2 b3) = b0" "ucast (drop_bit 8 (u32_of_bytes b0 b1 b2 b3)) = b1"
  "ucast (drop_bit 16 (u32_of_bytes b0 b1 b2 b3)) = b2" "ucast (drop_bit 24 (u32_of_bytes b0 b1 b2 b3)) = b3"
  using word_byte_u32_of_bytes[of 0 b0 b1 b2 b3] word_byte_u32_of_bytes[of 1 b0 b1 b2 b3]
    word_byte_u32_of_bytes[of 2 b0 b1 b2 b3] word_byte_u32_of_bytes[of 3 b0 b1 b2 b3]
  by (simp_all add: word_byte_def)

lemmas memory_run =
  block_write_def block_read_def block_read_page_def block_memory_new_def block_size_def block_lock_def
  touch_page_def deref_page_def page_size_bytes_def mib16_def has_value_def bs_eq_int_def bs_of_def bs_mask_def
  write_bytes_def word_parts_run word_le_nat_alt word_less_nat_alt mask_eq_exp_minus_1 Let_def

lemma test_unaligned_passes: "test_unaligned random"
  by (simp add: test_unaligned_def memory_run)

lemma test_normal_write_passes: "test_normal_write random"
  by (simp add: test_normal_write_def memory_run) (simp add: u32_of_bytes_def)

text \<open>The operations keep the size and the invariant, and a fill that fits succeeds.\<close>

lemma size_kept:
  "bm_actual_size_bytes (snd (block_read bm a)) = bm_actual_size_bytes bm"
  "bm_actual_size_bytes (snd (block_read_page bm a)) = bm_actual_size_bytes bm"
  "bm_actual_size_bytes (snd (block_write bm a d k)) = bm_actual_size_bytes bm"
  by (simp_all add: block_read_def block_read_page_def block_write_def Let_def split: option.split)

lemma fill_data_fits:
  assumes "block_inv bm" "length data \<le> unat (bm_actual_size_bytes bm)"
  shows "fst (fill_data data bm) = Inr True"
  using fill_data_ok[OF assms] by (metis fst_conv)

lemma new_memory:
  "block_inv (block_memory_new mib16 mode random)"
  "unat (bm_actual_size_bytes (block_memory_new mib16 mode random)) = 16777216"
  using block_memory_new_inv[of mib16 mode random] by (simp_all add: block_memory_new_def mib16_def)

lemma test_out_of_bound_passes: "test_out_of_bound random"
proof -
  define m0 where "m0 = block_memory_new mib16 Fill_Random random"
  define m1 where "m1 = snd (block_read_page m0 0)"
  define m2 where "m2 = snd (block_read_page m1 (16 * 1024 * 1024 - 4096))"
  define m3 where "m3 = snd (block_read_page m2 (16 * 1024 * 1024))"
  define m4 where "m4 = snd (block_read m3 (16 * 1024 * 1024))"
  define m5 where "m5 = snd (block_write m4 (16 * 1024 * 1024) 0x12345678 (bs_of 0b1111))"
  define m6 where "m6 = snd (block_read m5 (16 * 1024 * 1024 - 4))"
  define m7 where "m7 = snd (block_write m6 (16 * 1024 * 1024 - 4) 0x12345678 (bs_of 0b1111))"
  note ms = m1_def m2_def m3_def m4_def m5_def m6_def m7_def
  have inv: "block_inv m7" and size: "unat (bm_actual_size_bytes m7) = 16777216"
    using new_memory[of Fill_Random random]
    by (simp_all add: ms m0_def block_read_inv block_read_page_inv block_write_inv size_kept)
  have "fill_data (replicate (32 * 1024 * 1024) 0) m7 = (Inr False, m7)"
    by (rule fill_data_too_long) (simp add: size)
  moreover have "fst (fill_data (take (16 * 1024 * 1024) (replicate (32 * 1024 * 1024) 0)) m7) = Inr True"
    by (rule fill_data_fits[OF inv]) (simp add: size)
  moreover have "has_value (fst (block_read_page m0 0))"
    "has_value (fst (block_read_page m1 (16 * 1024 * 1024 - 4096)))"
    "\<not> has_value (fst (block_read_page m2 (16 * 1024 * 1024)))"
    "fst (block_read m3 (16 * 1024 * 1024)) = Unexpected Out_of_range"
    "fst (block_write m4 (16 * 1024 * 1024) 0x12345678 (bs_of 0b1111)) = Unexpected Out_of_range"
    "has_value (fst (block_read m5 (16 * 1024 * 1024 - 4)))"
    "has_value (fst (block_write m6 (16 * 1024 * 1024 - 4) 0x12345678 (bs_of 0b1111)))"
    by (simp_all add: ms m0_def memory_run)
  ultimately show ?thesis
    unfolding test_out_of_bound_def Let_def case_prod_beta m0_def[symmetric] ms[symmetric] by simp
qed

text \<open>After a fill the words of a page are those of the data.\<close>

lemma word_offset:
  fixes r :: nat
  assumes "r mod 4 = 0" "j < 4"
  shows "(r + (4 * i + j)) div 4 = r div 4 + i" "(r + (4 * i + j)) mod 4 = j"
proof -
  obtain q where r: "r = 4 * q" using assms(1) by (metis mod_0_imp_dvd dvdE)
  then have e: "r + (4 * i + j) = j + 4 * (q + i)" by simp
  show "(r + (4 * i + j)) div 4 = r div 4 + i" "(r + (4 * i + j)) mod 4 = j"
    unfolding e using assms(2) r by (simp_all del: distrib_left_numeral)
qed

lemma page_after_fill:
  assumes "block_inv bm" "unat (bm_actual_size_bytes bm) = 16777216" "\<And>n. n < 16777216 \<Longrightarrow> block_byte bm n = 0"
    and a: "unat a = idx * 4096" "idx < 4096"
  obtains p where "block_read_page bm a = (Value p, snd (block_read_page bm a))" "\<forall>i<1024. p i = 0"
proof -
  have "unat (a AND 0xfff) = 0"
    using and_low[of "0xfff" 12 a] a(1) by (simp add: mask_eq_exp_minus_1)
  then have al: "a AND 0xfff = 0" by (simp only: unsigned_eq_0_iff)
  have up: "unat (a + 4096) = idx * 4096 + 4096" using a by (simp add: unat_word_ariths)
  have "a < bm_actual_size_bytes bm" using a assms(2) by (simp add: word_less_nat_alt)
  from page_in_range[OF assms(1) this] have pg: "unat a div 65536 < bm_page_count bm" .
  let ?p = "\<lambda>i. page_content bm (unat a div 65536) (unat a mod 65536 div 4 + i)"
  show thesis
  proof (rule that[of ?p])
    have "\<not> bm_actual_size_bytes bm < a + 4096" using up assms(2) a(2) by (simp add: word_less_nat_alt)
    then show "block_read_page bm a = (Value ?p, snd (block_read_page bm a))"
      using al by (simp add: block_read_page_def Let_def block_offsets deref_touch[OF pg])
    show "\<forall>i<1024. ?p i = 0"
    proof (intro allI impI)
      fix i :: nat assume i: "i < 1024"
      show "?p i = 0"
      proof (rule word_bytes_eqI)
        fix j :: nat assume j: "j < 4"
        let ?n = "unat a + (4 * i + j)"
        have m: "unat a mod 4096 = 0" "4 * i + j < 4096" using a(1) i j by simp_all
        have al4: "unat a mod 4 = 0" using a(1) by simp
        have "?n < 16777216" using a m(2) by simp
        moreover have "?n mod 4 = j" by (rule word_offset(2)[OF al4 j])
        moreover have "?n div 65536 = unat a div 65536" "?n mod 65536 = unat a mod 65536 + (4 * i + j)"
          by (rule page_word_split[OF m])+
        moreover have "(unat a mod 65536 + (4 * i + j)) div 4 = unat a mod 65536 div 4 + i"
          using al4 by (intro word_offset(1)[OF _ j]) (simp add: mod_mod_cancel)
        ultimately show "word_byte j (?p i) = word_byte j 0"
          using assms(3)[of ?n] by (simp add: block_byte_def word_byte_def)
      qed
    qed
  qed
qed

lemma block_byte_read_page: "block_byte (snd (block_read_page bm a)) = block_byte bm"
  by (simp add: block_read_page_def Let_def split: option.split)

lemma pages_match_zero:
  assumes "block_inv bm" "unat (bm_actual_size_bytes bm) = 16777216"
    "\<And>n. n < 16777216 \<Longrightarrow> block_byte bm n = 0" "\<forall>idx \<in> set idxs. idx < 4096"
  shows "pages_match (replicate 4194304 0) idxs bm"
  using assms
proof (induction idxs arbitrary: bm)
  case (Cons idx idxs)
  then have "idx < 4096" by simp
  then have "unat (of_nat (idx * 4096) :: u64) = idx * 4096"
    by (simp add: unat_of_nat take_bit_nat_eq_self del: of_nat_mult)
  from page_after_fill[OF Cons.prems(1-3) this \<open>idx < 4096\<close>] obtain p where
    p: "block_read_page bm (of_nat (idx * 4096)) = (Value p, snd (block_read_page bm (of_nat (idx * 4096))))"
      "\<forall>i<1024. p i = 0" by blast
  have "pages_match (replicate 4194304 0) idxs (snd (block_read_page bm (of_nat (idx * 4096))))"
    using Cons.prems by (intro Cons.IH) (simp_all add: block_read_page_inv size_kept block_byte_read_page)
  then show ?case using p(2) \<open>idx < 4096\<close> by (subst pages_match.simps, subst p(1)) simp
qed simp

lemma zero_bytes: "concat (replicate n (bytes_of_u32 0)) = replicate (4 * n) 0"
  by (induction n) (simp_all add: bytes_of_u32_def numeral_eq_Suc)

lemma test_fill_validation_passes: "test_fill_validation random"
proof -
  let ?m = "block_memory_new mib16 Fill_Cdcdcdcd random"
  let ?z = "replicate 16777216 0 :: u8 list"
  have "length ?z \<le> unat (bm_actual_size_bytes ?m)" using new_memory(2) by simp
  from fill_data_ok[OF new_memory(1) this] obtain mem where
    mem: "fill_data ?z ?m = (Inr True, mem)" "block_inv mem" "bm_actual_size_bytes mem = bm_actual_size_bytes ?m"
      "\<And>n. block_byte mem n = (if n < length ?z then ?z ! n else block_byte ?m n)" by blast
  have size: "unat (bm_actual_size_bytes mem) = 16777216" by (simp only: mem(3) new_memory(2))
  have zero: "block_byte mem n = 0" if "n < 16777216" for n using mem(4)[of n] that by simp
  from page_after_fill[OF mem(2) size zero, of 0 0] obtain p where
    p: "block_read_page mem 0 = (Value p, snd (block_read_page mem 0))" by auto
  have "pages_match (replicate 4194304 0) [0..<4096] (snd (block_read_page mem 0))"
    using mem(2) size zero
    by (intro pages_match_zero) (simp_all add: block_read_page_inv size_kept block_byte_read_page)
  moreover have "\<not> has_value (fst (block_read_page (block_memory_new 16 Fill_Random random) 0))"
    by (simp add: memory_run)
  moreover have "has_value (fst (block_read_page mem 0))" by (subst p) (simp add: has_value_def)
  ultimately show ?thesis
    by (simp add: test_fill_validation_def Let_def case_prod_beta zero_bytes mem(1))
qed

end
