(* ===== verification/Spec2Isabelle.thy ===== *)
theory Spec2Isabelle
  imports Interleaving DebugExamples BitsetText Program Description CommandTests ExpressionTests PacketTests DeviceTests
begin

text \<open>
  A model of \<open>simple-riscv-emulator\<close>, an RV32IM emulator in C++ with a GDB stub, and the theorems
  that make it correct.

  The program. \<open>lib/core\<close> is the processor: \<open>CPU_module::execute\<close> fetches an instruction through a page
  cache (\<open>Inst_fetch_module\<close>), decodes it (\<open>Inst_decode_module\<close>), runs the ALU, the branch unit, the CSR
  module and the load/store module, and writes the registers back; \<open>handle_trap\<close> enters the trap
  handler. \<open>lib/device\<close> holds the devices behind the abstract class \<open>Memory_interface\<close>: the lazily
  allocated block memory, the clock, the UART and the interconnect that dispatches on the address.
  \<open>lib/gdb-stub\<close> speaks the remote serial protocol: the framing of the packets, the commands, the
  replies, the conditions of breakpoints, the description of the target, the network. \<open>main\<close> wires the
  parts to a platform, and runs it alone (\<open>Emulator\<close>) or under the debugger (\<open>Emulator_debug\<close>), which
  serves the commands of the host and runs the platform in a second thread.

  The theories of the processor and its platform.
    \<^item> \<open>Prelude\<close>: integer types (\<open>common/type.hpp\<close>), \<open>std::expected\<close>, exceptions, lemmas on bytes.
    \<^item> \<open>Bitset\<close>: the class \<open>Bitset<Nb>\<close> (\<open>common/bitset.hpp\<close>), specified by \<open>Nb\<close>-bit words;
      \<open>BitsetText\<close>: its strings, read back.
    \<^item> \<open>Alu\<close>, \<open>RegisterFile\<close>, \<open>Inst\<close>, \<open>Trap\<close>, \<open>Csr\<close>, \<open>Decode\<close>: one theory per file of \<open>lib/core\<close>. The
      locale \<open>register_bank\<close> of \<open>RegisterFile\<close> is the contract of registers and CSRs.
    \<^item> \<open>Memory\<close>: \<open>core/memory.hpp\<close> and \<open>memory.cpp\<close>. The virtual functions are a record
      \<open>memory_interface\<close> over a device state; the contracts of a device are the locales
      \<open>memory_device\<close> and \<open>word_memory\<close>, inside which loads, stores and fetches are specified.
    \<^item> \<open>Isa\<close>: the instruction set of the RISC-V manual, and the decoder against it.
    \<^item> \<open>Cpu\<close>: \<open>core/cpu.cpp\<close>; \<open>IsaStep\<close>: the manual's abstract machine and the refinement to it.
    \<^item> \<open>BlockMemory\<close>, \<open>Peripherals\<close>: the devices, which interpret the locales.
    \<^item> \<open>Platform\<close>: the interconnect and the memory map; the platform interprets \<open>word_memory\<close>.
    \<^item> \<open>Emulator\<close>: creation, the run loop and the reachable states of the emulator.

  The theories of the debugger.
    \<^item> \<open>Hex\<close>: the digits the stub reads and writes.
    \<^item> \<open>Packet\<close>: \<open>packet.cpp\<close>. The decoder is a state machine over characters; it never loses the step,
      and the frames of the encoder are read back by the protocol's rules.
    \<^item> \<open>Command\<close>: \<open>command.cpp\<close>, every parser. \<open>gdb_syntax\<close> is the syntax of the protocol, and the parser
      inverts it.
    \<^item> \<open>Expression\<close>: \<open>expression.cpp\<close>, the stack machine of the conditions, as a step function and a
      partial function. A compiler from expressions is proved correct; forward jumps terminate.
    \<^item> \<open>Accessor\<close>, \<open>DebugMemory\<close>: registers (another \<open>register_bank\<close>) and memory as the debugger reaches
      them, for every \<open>word_memory\<close>.
    \<^item> \<open>Response\<close>, \<open>GdbXml\<close>: the replies and the description of the target, read back.
    \<^item> \<open>OrderedMap\<close>: \<open>std::map\<close> with any comparison, under the locale \<open>key_order\<close>; \<open>StopPoint\<close>: address
      ranges, which are such keys, watchpoints and breakpoints.
    \<^item> \<open>Action\<close>: actions that change a state, may throw and may not return; \<open>Network\<close>: \<open>network.cpp\<close>.
    \<^item> \<open>Debugger\<close>: \<open>emulator-debug.cpp\<close>, and that every command keeps the invariant.
    \<^item> \<open>Interleaving\<close>: the two threads of \<open>async_run\<close> against one sequential run.
    \<^item> \<open>Stepping\<close>: what a run stops for; \<open>DebugSession\<close>: the commands as the host sees them.
    \<^item> \<open>Program\<close>: the options and \<open>main\<close>.
    \<^item> \<open>Description\<close>: the text of the description files and of the memory map, and the host that reads them:
      what it learns is what the accessor and the platform do.
    \<^item> \<open>Examples\<close>, \<open>DebugExamples\<close>: concrete states, at which the properties are instantiated.
    \<^item> \<open>CommandTests\<close>, \<open>ExpressionTests\<close>, \<open>PacketTests\<close>, \<open>DeviceTests\<close>: the repository's unit tests as
      propositions on the model. It passes all of them, by rewriting.

  How the code is modelled. A struct is a record, an enumeration a datatype, an integer a word of its
  width; a member function takes the state and returns it updated. An exception that propagates and a
  step without meaning in C++ are values of \<open>exn\<close>; a call that returns \<open>std::expected\<close> returns
  \<open>expected\<close>, which also has the exception. Members without an initialiser get arbitrary values:
  \<open>junk\<close> is a parameter of \<open>execute\<close>, so a theorem holds whatever they are. Loops that need not end are
  partial functions, which give \<open>None\<close> when they do not; nothing of the program has fuel. (The host of
  \<open>GdbXml\<close>, which asks for slices of a file, has as many requests as the file has bytes; in \<open>Description\<close>,
  where no file has that many bytes, 65536.)

  What comes from outside is input of the model, and every theorem holds for all of it: the results
  of the socket calls (\<open>net_read\<close>; a read that is never answered does not return), the
  schedule of the two threads (\<open>db_schedule\<close>: how many cycles the second thread gets
  between two observations of the first), the input of the console, the random engine, the arrays
  that the build makes of the description files (\<open>Description\<close> instantiates them), and
  what the argument parser stores. The second thread and the first share only the interrupt flag and
  the future, so its cycles are atomic steps.

  Not modelled: log output (\<open>core/print.hpp\<close>), which no other state depends on, and the runner of the
  unit tests.
\<close>

unbundle bit_operations_syntax

section \<open>The processor core\<close>




text \<open>C3: in every state the emulator reaches from its creation, register \<open>x0\<close> reads 0,
  there are 32 registers, the fields of \<open>mstatus\<close> that are not implemented are 0, and the memory map
  is intact.\<close>

theorem reachable_invariant:
  assumes "emu_reachable e"
  shows "xreg (cpu_registers (em_cpu e)) 0 = 0 \<and> length (registers (cpu_registers (em_cpu e))) = 32
    \<and> mstatus_legal (csr_mstatus (cpu_csr (em_cpu e))) \<and> platform_inv (em_memory e)"
  using emu_reachable_inv[OF assms]
  by (simp add: emu_inv_def cpu_inv_def csr_inv_def register_file_inv_def xreg_def get_register_def)

theorem reachable_invariant_witness:
  "\<exists>e. emulator_create (Some (4, [0x13, 0, 0, 0])) Fill_Zero No_capture True (\<lambda>_ _ _. 0) (uart_init [] (\<lambda>_. 0)) = Inr e
     \<and> xreg (cpu_registers (em_cpu e)) 0 = 0 \<and> length (registers (cpu_registers (em_cpu e))) = 32
     \<and> mstatus_legal (csr_mstatus (cpu_csr (em_cpu e))) \<and> platform_inv (em_memory e)"
proof -
  obtain e where e: "emulator_create (Some (4, [0x13, 0, 0, 0])) Fill_Zero No_capture True (\<lambda>_ _ _. 0)
      (uart_init [] (\<lambda>_. 0)) = Inr e"
    by (rule demo_created)
  from reachable_invariant[OF emu_reachable.create[OF e]] e show ?thesis by blast
qed

text \<open>C4: a trap is precise. When \<open>execute\<close> reports a trap, the program counter, the registers,
  the CSRs and the memory contents are what they were before the instruction.\<close>

theorem trap_is_precise:
  assumes "platform_inv m" "execute platform_interface j s m = (Inr r, s', m')" "cr_trap r = Some t"
  shows "cpu_pc s' = cpu_pc s \<and> cpu_registers s' = cpu_registers s \<and> cpu_csr s' = cpu_csr s
    \<and> platform_view m' = platform_view m"
  using execute_trap_precise[OF assms(2,3)] plat.execute_trap_view[OF assms] by auto

theorem trap_is_precise_witness:
  "\<exists>r s' m'. execute platform_interface demo_junk demo_cpu (demo_memory 0) = (Inr r, s', m')
     \<and> cr_trap r = Some Illegal_instruction \<and> cpu_pc s' = cpu_pc demo_cpu
     \<and> cpu_registers s' = cpu_registers demo_cpu \<and> cpu_csr s' = cpu_csr demo_cpu
     \<and> platform_view m' = platform_view (demo_memory 0)"
proof -
  obtain r s' m' where e: "execute platform_interface demo_junk demo_cpu (demo_memory 0) = (Inr r, s', m')"
    "cr_trap r = Some Illegal_instruction" by (rule demo_illegal)
  from trap_is_precise[OF demo_inv(1) e] e show ?thesis by blast
qed

text \<open>C5: the ALU computes the manual's value of every operation but \<open>MULH\<close> and
  \<open>MULHSU\<close>, the division by zero and the signed overflow included.\<close>

theorem alu_implements_manual:
  assumes "opr \<noteq> R_MULH" "opr \<noteq> R_MULHSU"
  shows "alu_module (alu_op opr) x y = rv_op_value opr x y"
  using assms by (rule alu_spec)

theorem alu_implements_manual_witness:
  "alu_module (alu_op R_DIV) 0x80000000 0xFFFFFFFF = rv_op_value R_DIV 0x80000000 0xFFFFFFFF"
  by (rule alu_implements_manual) simp_all


text \<open>C7: a load reads back what a store of at least its size wrote, at any aligned RAM
  address, sign or zero extended.\<close>

theorem store_then_load:
  assumes "platform_inv m" "\<not> bm_write_lock (pm_ram m)" "0x80000000 \<le> a"
    and "is_aligned a sf" "is_store_funct sf" "is_aligned a lf" "is_load_funct lf" "ls_size lf \<le> ls_size sf"
  shows "fst (load_store platform_interface Ls_Store sf a x m) = Value 0
    \<and> fst (load_store platform_interface Ls_Load lf a y (snd (load_store platform_interface Ls_Store sf a x m)))
      = Value (extend_load lf (\<lambda>j. word_byte j x))"
proof -
  obtain v where v: "platform_view m (ucast (a AND 0xfffffffc)) = Some (True, v)"
    by (rule platform_view_ram_word[OF assms(1-3)])
  show ?thesis
    using plat.store_ok[OF assms(1,4,5) v] plat.store_load[OF assms(1,4-8) v] by blast
qed

theorem store_then_load_witness:
  "fst (load_store platform_interface Ls_Load Load_byte 0x80000001 0
      (snd (load_store platform_interface Ls_Store Store_byte 0x80000001 0x1FF (demo_memory 0))))
   = Value 0xFFFFFFFF"
  using store_then_load[where m = "demo_memory 0" and a = "0x80000001" and sf = Store_byte and lf = Load_byte
      and x = "0x1FF" and y = 0, OF demo_inv(1)]
  by (simp add: demo_memory_def block_memory_new_def is_store_funct_def is_load_funct_def ls_size.simps
      word_byte_def)

text \<open>C8: a store to RAM replaces the bytes it addresses, in little-endian
  order, and no other byte of the memory.\<close>

theorem store_changes_only_its_bytes:
  assumes "platform_inv m" "\<not> bm_write_lock (pm_ram m)" "0x80000000 \<le> a" "is_aligned a f" "is_store_funct f"
  shows "byte_at (platform_view (snd (load_store platform_interface Ls_Store f a x m))) b =
    (if unat a \<le> unat b \<and> unat b < unat a + ls_size f
     then Some (True, word_byte (unat b - unat a) x) else byte_at (platform_view m) b)"
proof -
  obtain v where v: "platform_view m (ucast (a AND 0xfffffffc)) = Some (True, v)"
    by (rule platform_view_ram_word[OF assms(1-3)])
  show ?thesis by (rule plat.store_bytes[OF assms(1,4,5) v])
qed

theorem store_changes_only_its_bytes_witness:
  "byte_at (platform_view (snd (load_store platform_interface Ls_Store Store_halfword 0x80000002 0xABCD (demo_memory 0))))
     0x80000003 = Some (True, 0xAB)"
  using store_changes_only_its_bytes[where m = "demo_memory 0" and a = "0x80000002" and f = Store_halfword
      and x = "0xABCD" and b = "0x80000003", OF demo_inv(1)]
  by (simp add: demo_memory_def block_memory_new_def is_store_funct_def ls_size.simps word_byte_def)

text \<open>C9: the decoder is total, and what it returns is well typed. For every word it gives the illegal
  instruction trap or a result whose destination is one of the 32 registers, whose load or store has a
  function of that kind (or none), which does not access memory and a CSR at once, and which does not
  branch when it returns from a trap.\<close>

theorem decode_is_typed:
  "case inst_decode rf w pc of
     Inl t \<Rightarrow> t = Illegal_instruction
   | Inr d \<Rightarrow> bs_nat (dr_dest_register d) < 32 \<and> decode_ok d"
  using inst_decode_ok[of rf w pc] inst_decode_trap[of rf w pc]
  by (auto simp: decode_ok_def bs_nat_5 split: sum.split)

text \<open>C10: the ROM is read-only for the program. A word that the memory map has as read-only keeps
  its value in every state that the emulator reaches, whatever the program does.\<close>

theorem rom_never_changes:
  assumes "emu_inv e" "emu_step\<^sup>*\<^sup>* e e'" "platform_view (em_memory e) a = Some (False, v)"
  shows "platform_view (em_memory e') a = Some (False, v)"
  using steps_readonly[OF assms(2,1,3)] by blast

theorem rom_never_changes_witness:
  "\<exists>e. emu_step (demo_emulator 0) e \<and> platform_view (em_memory e) 0x00100000 = Some (False, 0)"
proof -
  obtain r e where e: "tick_one_cycle demo_junk (demo_emulator 0) = (Inr r, e)" by (rule demo_cycle)
  then have s: "emu_step (demo_emulator 0) e" by (auto simp: emu_step_iff)
  then have "emu_step\<^sup>*\<^sup>* (demo_emulator 0) e" by (rule r_into_rtranclp)
  from rom_never_changes[OF demo_emulator_inv this demo_rom_word] s show ?thesis by blast
qed

text \<open>C11: while the cache of the fetch module agrees with the memory, a fetch returns the word of the
  memory at the program counter, from the cache or not, changes no memory, and leaves the cache in
  agreement.\<close>

theorem fetch_reads_memory:
  assumes "platform_inv m" "cache_coherent (platform_view m) c"
    and "inst_fetch platform_interface pc (c, m) = (Value v, c', m')"
  shows "pc AND 0x3 = 0 \<and> (\<exists>p. platform_view m (ucast pc) = Some (p, v))
    \<and> platform_view m' = platform_view m \<and> cache_coherent (platform_view m') c'"
  using plat.fetch_value[OF assms(1,2)] plat.fetch_coherent[OF assms] assms(3) by fastforce

theorem fetch_reads_memory_witness:
  "\<exists>c' m' p. inst_fetch platform_interface 0x00100000 (fetch_cache_init, demo_memory 0x13) = (Value 0x13, c', m')
     \<and> platform_view (demo_memory 0x13) (ucast (0x00100000 :: u32)) = Some (p, 0x13)"
proof -
  have f: "fst (inst_fetch platform_interface 0x00100000 (fetch_cache_init, demo_memory 0x13)) = Value 0x13"
    using demo_fetch by (simp add: demo_cpu_def cpu_init_def)
  then obtain c' m' where "inst_fetch platform_interface 0x00100000 (fetch_cache_init, demo_memory 0x13) = (Value 0x13, c', m')"
    by (metis prod.collapse)
  from fetch_reads_memory[OF demo_inv(1) cache_init_coherent this] this show ?thesis by blast
qed

text \<open>C12: \<open>FENCE.I\<close> does not do what it is for. It only advances the program counter; the fetch cache
  stays, and every later fetch from a cached page returns the cached word, whatever the memory holds.\<close>

theorem fence_i_is_ignored:
  assumes "inst_fetch platform_interface (cpu_pc s) (cpu_inst_fetch s, m) = (Value (rv_encode FENCE_I), c, n)"
    and "\<not> timer_interrupt_pending (cpu_csr s)"
  shows "\<exists>r. execute platform_interface j s m = (Inr r, s\<lparr>cpu_inst_fetch := c, cpu_pc := cpu_pc s + 4\<rparr>, n)
    \<and> cr_trap r = None
    \<and> (\<forall>pc m'. pc AND 0x3 = 0 \<and> cache_hit c pc \<longrightarrow>
         inst_fetch platform_interface pc (c, m') = (Value (ce_data (c (cache_idx pc)) (word_index pc)), c, m'))"
proof -
  from execute_fence_i[OF assms, of j] obtain r where
    "execute platform_interface j s m = (Inr r, s\<lparr>cpu_inst_fetch := c, cpu_pc := cpu_pc s + 4\<rparr>, n)" "cr_trap r = None" by blast
  then show ?thesis by (intro exI[of _ r]) (simp add: fetch_hit)
qed

theorem fence_i_is_ignored_witness:
  "\<exists>r c n. execute platform_interface demo_junk demo_cpu (demo_memory (rv_encode FENCE_I)) =
      (Inr r, demo_cpu\<lparr>cpu_inst_fetch := c, cpu_pc := cpu_pc demo_cpu + 4\<rparr>, n) \<and> cr_trap r = None"
proof -
  obtain c n where "inst_fetch platform_interface (cpu_pc demo_cpu) (cpu_inst_fetch demo_cpu, demo_memory (rv_encode FENCE_I))
      = (Value (rv_encode FENCE_I), c, n)"
    using demo_fetch[of "rv_encode FENCE_I"] by (metis prod.collapse)
  from fence_i_is_ignored[OF this demo_no_interrupt, of demo_junk] show ?thesis by blast
qed



text \<open>C14: a pending and enabled timer interrupt is not missed. The cycle takes it, unless its
  instruction cannot be fetched, is illegal or is an \<open>ECALL\<close>; then it takes that trap, and in every case
  interrupts are disabled after it.\<close>

theorem timer_interrupt_taken:
  assumes "timer_interrupt_pending (cpu_csr (em_cpu e))" "tick_one_cycle j e = (Inr r, e')"
  shows "(cr_trap r = Some Machine_timer_interrupt \<or> cr_trap r = Some Env_call_from_M_mode
      \<or> cr_trap r = Some Illegal_instruction
      \<or> (\<exists>t. fst (inst_fetch platform_interface (cpu_pc (em_cpu e)) (cpu_inst_fetch (em_cpu e), em_memory e)) = Unexpected t
          \<and> cr_trap r = Some t))
    \<and> \<not> ms_mie (csr_mstatus (cpu_csr (em_cpu e'))) \<and> csr_mepc (cpu_csr (em_cpu e')) = cpu_pc (em_cpu e)"
proof -
  obtain t where "cr_trap r = Some t" using tick_interrupt[OF assms] by blast
  from tick_trap[OF assms(2) this] tick_interrupt[OF assms] show ?thesis by blast
qed

theorem timer_interrupt_taken_witness:
  "\<exists>r e. tick_one_cycle demo_junk (demo_waiting (rv_encode (OPI ADDI 1 0 5))) = (Inr r, e)
     \<and> cr_trap r = Some Machine_timer_interrupt \<and> \<not> ms_mie (csr_mstatus (cpu_csr (em_cpu e)))"
proof -
  obtain r e where e: "tick_one_cycle demo_junk (demo_waiting (rv_encode (OPI ADDI 1 0 5))) = (Inr r, e)"
    "cr_trap r = Some Machine_timer_interrupt" by (rule demo_interrupt)
  have "timer_interrupt_pending (cpu_csr (em_cpu (demo_waiting (rv_encode (OPI ADDI 1 0 5)))))"
    by (rule demo_waiting_pending)
  from timer_interrupt_taken[OF this e(1)] e show ?thesis by blast
qed

text \<open>C15: the detector of infinite loops is sound. A cycle it reports ends at the
  instruction it began with.\<close>

theorem loop_detector_sound:
  assumes "tick_one_cycle j e = (Inr r, e')" "infinite_loop e' r"
  shows "cpu_pc (em_cpu e') = cpu_pc (em_cpu e)"
  using assms by (rule infinite_loop_sound)

theorem loop_detector_sound_witness:
  "\<exists>r e. tick_one_cycle demo_junk (demo_emulator (rv_encode (JAL 0 0))\<lparr>em_stop_at_infinite_loop := True\<rparr>) = (Inr r, e)
     \<and> infinite_loop e r \<and> cpu_pc (em_cpu e) = 0x00100000"
proof -
  obtain r e where e: "tick_one_cycle demo_junk (demo_emulator (rv_encode (JAL 0 0))\<lparr>em_stop_at_infinite_loop := True\<rparr>) = (Inr r, e)"
    "infinite_loop e r" by (rule demo_loop)
  from loop_detector_sound[OF e] e show ?thesis by (auto simp: demo_emulator_def demo_cpu_def cpu_init_def)
qed

text \<open>C16: creation succeeds exactly when the flash file can be read, is not empty and fits in the 128 KiB of
  ROM; it then starts at the first address of the ROM.\<close>

theorem emulator_creation:
  "(\<exists>e. emulator_create flash policy capture stop_loop random u = Inr e) \<longleftrightarrow>
     (\<exists>rom. flash = Some (length rom, rom) \<and> rom \<noteq> [] \<and> length rom \<le> 131072)"
  using platform_new_fits[of "snd (the flash)" policy random u]
  by (cases flash) (auto simp: emulator_create_def split: sum.splits if_splits)

section \<open>The debugger\<close>

text \<open>C17: in every state of every session, for every host, network and schedule of the threads, the
  emulator satisfies its invariant, the buffer of the packet decoder is within its bound, the
  breakpoints are stored once each under their address, and every watchpoint is not empty and watches
  something.\<close>

theorem debugger_invariant:
  assumes "debug_reachable d"
  shows "emu_inv (db_emulator d) \<and> length (pd_in_buffer (nw_decoder (db_network d))) \<le> max_buffer_size
    \<and> distinct (map fst (db_hw_breakpoints d)) \<and> (\<forall>(a, bp) \<in> set (db_hw_breakpoints d). hb_address bp = a)
    \<and> (\<forall>(r, w) \<in> set (db_watchpoints d). wp_addr_range w = r \<and> ar_size r \<noteq> 0 \<and> (wp_watch_write w \<or> wp_watch_read w))"
proof -
  have inv: "debugger_inv d" by (rule debug_reachable_inv[OF assms])
  have "distinct (map fst (db_hw_breakpoints d))"
    by (rule breakpoints_distinct[OF inv])
  with inv show ?thesis by (simp add: debugger_inv_def net_inv_def decoder_inv_def)
qed

theorem debugger_invariant_witness:
  "\<exists>d. (\<exists>r d0. run_turn d0 = Some (r, d) \<and> debug_reachable d0) \<and> emu_inv (db_emulator d)
     \<and> length (pd_in_buffer (nw_decoder (db_network d))) \<le> max_buffer_size"
proof -
  obtain r d0 d where d: "run_turn d0 = Some (r, d)" "debug_reachable d0" by (rule demo_session)
  from debugger_invariant[OF debug_reachable.turn[OF d(2,1)]] d show ?thesis by blast
qed

text \<open>C18: the threads of \<open>async_run\<close> do not disturb each other. However their steps interleave, the
  emulator ends as after one sequential call of the function of the second thread, in which the reads
  of the interrupt flag give false up to some point and true from there on.\<close>

theorem two_threads_are_one_run:
  assumes "async_run limit d = Some (Inr (), d')"
  shows "\<exists>interrupt q e. mono interrupt \<and> run_func limit interrupt d = Some (q, e) \<and> db_emulator e = db_emulator d'"
  using async_loop_sequential[OF assms[unfolded async_run_def]]
  by (auto simp: runs_to_def outcome_def flag_sequence_def)

theorem two_threads_are_one_run_witness:
  "\<exists>d interrupt q e. async_run (Some 1) (demo_debugger 0 [Read_some ''+'' False]) = Some (Inr (), d) \<and> mono interrupt
     \<and> run_func (Some 1) interrupt (demo_debugger 0 [Read_some ''+'' False]) = Some (q, e) \<and> db_emulator e = db_emulator d"
proof -
  obtain d where d: "async_run (Some 1) (demo_debugger 0 [Read_some ''+'' False]) = Some (Inr (), d)" by (rule demo_async)
  from two_threads_are_one_run[OF d] d show ?thesis by blast
qed

text \<open>C19: an interrupt is answered. Once the flag is raised and the second thread gets a cycle that
  returns, the reply goes out, before anything else is read from the host: the stop the cycle ran
  into, or \<open>SIGINT\<close>.\<close>

theorem interrupt_is_answered:
  assumes "0 < db_schedule d 0" "run_cycle d = Some (Inr stop, e)" "limit \<noteq> Some 0"
  shows "\<exists>f. async_loop (Running limit) True d =
      send_response (case stop of None \<Rightarrow> stop_at_signal SIGINT | Some r \<Rightarrow> r) f
    \<and> db_emulator f = db_emulator e \<and> db_network f = db_network d"
  by (rule interrupt_replies[OF assms])

theorem interrupt_is_answered_witness:
  "\<exists>f. async_loop (Running None) True (demo_debugger 0 []) = send_response (stop_at_signal SIGINT) f
     \<and> db_network f = demo_network []"
proof -
  obtain e where e: "run_cycle (demo_debugger 0 []) = Some (Inr None, (demo_debugger 0 [])\<lparr>db_emulator := e\<rparr>)"
    by (rule demo_run_cycle)
  have "0 < db_schedule (demo_debugger 0 []) 0" "None \<noteq> Some (0 :: nat)" by simp_all
  from interrupt_is_answered[OF this(1) e this(2)] show ?thesis by auto
qed



text \<open>C21: a run that reports a breakpoint has stopped at an address where one is set.\<close>

theorem stops_only_at_breakpoints:
  assumes "debugger_inv d" "run_until_trap interrupt d = Some (Inr (stop_at_breakpoint True), d')"
  shows "\<exists>bp. (cpu_pc (db_cpu d'), bp) \<in> set (db_hw_breakpoints d)"
  using assms by (rule run_until_trap_breakpoint)

theorem stops_only_at_breakpoints_witness:
  "\<exists>d'. run_until_trap (\<lambda>_. False) (demo_at_breakpoint None) = Some (Inr (stop_at_breakpoint True), d')
     \<and> (\<exists>bp. (cpu_pc (db_cpu d'), bp) \<in> set (db_hw_breakpoints (demo_at_breakpoint None)))"
proof -
  obtain d where d: "run_cycle (demo_at_breakpoint None) = Some (Inr (Some (stop_at_breakpoint True)), d)"
    by (rule demo_breakpoint_cycle)
  then have "run_until_trap (\<lambda>_. False) (demo_at_breakpoint None) = Some (Inr (stop_at_breakpoint True), d)"
    by (subst run_until_trap.simps) simp
  from stops_only_at_breakpoints[OF demo_breakpoint_inv this] this show ?thesis by blast
qed

text \<open>C22: no cycle passes an unconditional breakpoint: one that ends at its address stops there.\<close>

theorem breakpoints_are_not_passed:
  assumes "debugger_inv d" "run_cycle d = Some (Inr stop, d')" "(cpu_pc (db_cpu d'), bp) \<in> set (db_hw_breakpoints d)"
    and "hb_cond bp = None"
  shows "stop = Some (stop_at_breakpoint True)"
  using assms by (rule breakpoint_complete)

theorem breakpoints_are_not_passed_witness:
  "\<exists>stop d. run_cycle (demo_at_breakpoint None) = Some (Inr stop, d) \<and> stop = Some (stop_at_breakpoint True)"
proof -
  obtain d where d: "run_cycle (demo_at_breakpoint None) = Some (Inr (Some (stop_at_breakpoint True)), d)"
    "cpu_pc (db_cpu d) = 0" by (rule demo_breakpoint_cycle)
  have m: "(cpu_pc (db_cpu d), \<lparr>hb_address = 0, hb_cond = None\<rparr>) \<in> set (db_hw_breakpoints (demo_at_breakpoint None))"
    by (simp add: d(2) demo_at_breakpoint_def breakpoint_from_def)
  from breakpoints_are_not_passed[OF demo_breakpoint_inv d(1) m] d(1) show ?thesis by auto
qed





text \<open>C25: a load or store with a reserved function code traps on the processor, but the debugger
  asks for the size of its access to look for watchpoints, and that throws: the cycle ends the session.\<close>

theorem reserved_access_ends_session:
  assumes "tick_one_cycle (db_junk d 0) (db_emulator d) = (Inr r, e)" "\<not> sized_request r" "db_hw_breakpoints d = []"
  shows "run_until_trap interrupt d =
    Some (Inl (Logic_error ''Invalid funct''), d\<lparr>db_emulator := e, db_junk := \<lambda>n. db_junk d (Suc n)\<rparr>)"
  using run_cycle_unsized[OF assms] by (subst run_until_trap.simps) simp

theorem reserved_access_ends_session_witness:
  "\<exists>e. run_until_trap (\<lambda>_. False) (demo_debugger 0x00003003 []) =
     Some (Inl (Logic_error ''Invalid funct''), (demo_debugger 0x00003003 [])\<lparr>db_emulator := e, db_junk := \<lambda>_. demo_junk\<rparr>)"
proof -
  obtain r e where e: "tick_one_cycle demo_junk (demo_emulator 0x00003003) = (Inr r, e)" "\<not> sized_request r"
    by (rule demo_reserved_load)
  have "tick_one_cycle (db_junk (demo_debugger 0x00003003 []) 0) (db_emulator (demo_debugger 0x00003003 [])) = (Inr r, e)"
    using e by simp
  from reserved_access_ends_session[OF this e(2), of "\<lambda>_. False"] show ?thesis by auto
qed

text \<open>C26: when the host asks for memory at an aligned address, however its packet is cut into
  pieces, it gets exactly the bytes there, and nothing that the program can observe has changed.\<close>

theorem host_reads_the_memory:
  assumes "debugger_inv d" "ready d" "delivers (''m'' @ s @ '','' @ t) mid (reads_of d)" "confirms rest mid"
    and "hex_num s a" "hex_num t n"
    and "unat a mod 4 = 0" "0 < n" "\<forall>j < unat n. byte_at (platform_view (db_memory d)) (a + of_nat j) \<noteq> None"
  shows "\<exists>d' reply. run_turn d = Some (Inr True, d') \<and> written_by d' = written_by d @ [buffer ''+'', reply]
    \<and> rsp_receive reply =
        Some (hex_bytes (map (\<lambda>j. snd (the (byte_at (platform_view (db_memory d)) (a + of_nat j)))) [0..<unat n]))
    \<and> db_cpu d' = db_cpu d \<and> platform_view (db_memory d') = platform_view (db_memory d)"
  using assms by (rule host_reads_memory)

theorem host_reads_the_memory_witness:
  "\<exists>d reply. run_turn (demo_debugger 0x13 [Read_some (frame_of ''m100000,2'') False, Read_some ''+'' False]) = Some (Inr True, d)
     \<and> written_by d = [buffer ''+'', reply] \<and> rsp_receive reply = Some ''1300''"
proof -
  let ?d = "demo_debugger 0x13 [Read_some (frame_of ''m100000,2'') False, Read_some ''+'' False]"
  have v: "byte_at (platform_view (demo_memory 0x13)) 0x00100000 = Some (False, 0x13)"
    "byte_at (platform_view (demo_memory 0x13)) 0x00100001 = Some (False, 0)"
    by (simp_all add: byte_at_def platform_view_def block_view_def demo_memory_def ram_start_def rom_start_def
        block_memory_new_def page_content_def word_byte_def)
  have h: "hex_num ''100000'' 0x00100000" "hex_num ''2'' 2"
    by (simp_all add: hex_num_def is_xdigit_def hex_number_def hex_val_def)
  have del: "delivers (''m'' @ ''100000'' @ '','' @ ''2'') [Read_some ''+'' False] (reads_of ?d)"
    using delivers_frame[of "''m100000,2''"] by (simp add: escape_def is_special_def max_buffer_size_def)
  have "\<forall>j < unat (2 :: u32). byte_at (platform_view (db_memory ?d)) (0x00100000 + of_nat j) \<noteq> None"
    using v by (auto simp: less_2_cases_iff)
  from host_reads_the_memory[OF demo_debugger_inv demo_ready del confirms_plus h _ _ this]
  obtain d' reply where "run_turn ?d = Some (Inr True, d')" "written_by d' = [] @ [buffer ''+'', reply]"
    "rsp_receive reply = Some (hex_bytes (map (\<lambda>j. snd (the (byte_at (platform_view (demo_memory 0x13)) (0x00100000 + of_nat j))))
       [0..<unat (2 :: u32)]))"
    by auto
  moreover have "[0..<unat (2 :: u32)] = [0, 1]" by (simp add: upt_rec)
  moreover have "hex_bytes [0x13, 0] = ''1300''" by code_simp
  ultimately show ?thesis using v by auto
qed



text \<open>C28: a memory write of the host stores its first byte only. The bytes are written
  one by one to their own addresses, and the memory refuses an address that is not that of a word: with
  more than one byte the reply is an error, and the first byte has been written.\<close>

theorem memory_write_stops_after_first_byte:
  assumes "debugger_inv d" "ready d" "delivers (''M'' @ s @ '','' @ t @ '':'' @ hex_bytes (b # bs)) mid (reads_of d)"
    and "confirms rest mid" "hex_num s a" "hex_num t n" "length (b # bs) = unat n" "length (b # bs) < 2 ^ 31"
    and "unat a mod 4 = 0" "platform_view (db_memory d) (ucast a) = Some (True, w)"
  shows "\<exists>d'. run_turn d = Some (Inr True, d')
    \<and> written_by d' = written_by d @ [buffer ''+'', encode (if bs = [] then ''OK'' else ''E00'')]
    \<and> db_cpu d' = db_cpu d \<and> (\<forall>c. byte_at (platform_view (db_memory d')) c =
         (if c = a then Some (True, b) else byte_at (platform_view (db_memory d)) c))"
  using assms by (rule host_writes_memory)

theorem memory_write_stops_after_first_byte_witness:
  "\<exists>d. run_turn (demo_debugger 0 [Read_some (frame_of ''M80000000,2:1122'') False, Read_some ''+'' False]) = Some (Inr True, d)
     \<and> written_by d = [buffer ''+'', encode ''E00''] \<and> byte_at (platform_view (db_memory d)) 0x80000000 = Some (True, 0x11)
     \<and> byte_at (platform_view (db_memory d)) 0x80000001 = Some (True, 0)"
proof -
  let ?d = "demo_debugger 0 [Read_some (frame_of ''M80000000,2:1122'') False, Read_some ''+'' False]"
  have v: "platform_view (demo_memory 0) (ucast (0x80000000 :: u32)) = Some (True, 0)"
    "byte_at (platform_view (demo_memory 0)) 0x80000001 = Some (True, 0)"
    by (simp_all add: byte_at_def platform_view_def block_view_def demo_memory_def ram_start_def rom_start_def
        block_memory_new_def page_content_def word_byte_def new_page_def fill_page_def)
  have h: "hex_num ''80000000'' 0x80000000" "hex_num ''2'' 2"
    by (simp_all add: hex_num_def is_xdigit_def hex_number_def hex_val_def)
  have b: "hex_bytes [0x11, 0x22] = ''1122''" by code_simp
  have del: "delivers (''M'' @ ''80000000'' @ '','' @ ''2'' @ '':'' @ hex_bytes [0x11, 0x22]) [Read_some ''+'' False] (reads_of ?d)"
    unfolding b using delivers_frame[of "''M80000000,2:1122''"] by (simp add: escape_def is_special_def max_buffer_size_def)
  have vd: "platform_view (db_memory ?d) (ucast (0x80000000 :: u32)) = Some (True, 0)" using v(1) by simp
  from memory_write_stops_after_first_byte[OF demo_debugger_inv demo_ready del confirms_plus h _ _ _ vd]
  obtain d' where "run_turn ?d = Some (Inr True, d')" "written_by d' = [] @ [buffer ''+'', encode ''E00'']"
    "\<forall>c. byte_at (platform_view (db_memory d')) c =
       (if c = 0x80000000 then Some (True, 0x11) else byte_at (platform_view (demo_memory 0)) c)"
    by auto
  then show ?thesis using v(2) by auto
qed

text \<open>C29: a command that the parser does not know is confirmed and gets the empty reply, and the
  session goes on with the state as it was.\<close>

theorem unknown_command_is_refused:
  assumes "ready d" "delivers s mid (reads_of d)" "confirms rest mid" "parse s = Unexpected ()"
  shows "\<exists>n. run_turn d = Some (Inr True, put_network n d) \<and> ready (put_network n d) \<and> nw_reads n = rest
    \<and> nw_written n = written_by d @ [buffer ''+'', ''$#00'']"
  using assms by (rule turn_unsupported)

theorem unknown_command_is_refused_witness:
  "\<exists>n. run_turn (demo_debugger 0 [Read_some (frame_of ''vMustReplyEmpty'') False, Read_some ''+'' False]) =
      Some (Inr True, put_network n (demo_debugger 0 [Read_some (frame_of ''vMustReplyEmpty'') False, Read_some ''+'' False]))
    \<and> nw_written n = [buffer ''+'', ''$#00'']"
proof -
  let ?d = "demo_debugger 0 [Read_some (frame_of ''vMustReplyEmpty'') False, Read_some ''+'' False]"
  have del: "delivers ''vMustReplyEmpty'' [Read_some ''+'' False] (reads_of ?d)"
    using delivers_frame[of "''vMustReplyEmpty''"] by (simp add: escape_def is_special_def max_buffer_size_def)
  have "parse ''vMustReplyEmpty'' = Unexpected ()" by code_simp
  from unknown_command_is_refused[OF demo_ready del confirms_plus this] show ?thesis by auto
qed

text \<open>C30: a command that is parsed but has no handler, as \<open>!\<close> for the extended mode, closes
  the connection and ends the session.\<close>

theorem unhandled_command_ends_session:
  assumes "ready d" "delivers s rest (reads_of d)" "parse s = Value cmd" "cmd = Enable_persistant \<or> cmd = Interrupt_packet"
  shows "\<exists>n. debugger_run d = Some (Inr (), put_network n d) \<and> \<not> nw_connected n"
proof -
  obtain n where n: "run_turn d = Some (Inr False, put_network n d)" "\<not> nw_connected n"
    using turn_unhandled[OF assms] by blast
  then show ?thesis by (intro exI[of _ n]) (subst debugger_run.simps, simp)
qed

theorem unhandled_command_ends_session_witness:
  "\<exists>d. debugger_run (demo_debugger 0 [Read_some (frame_of ''!'') False]) = Some (Inr (), d) \<and> \<not> nw_connected (db_network d)"
proof -
  let ?d = "demo_debugger 0 [Read_some (frame_of ''!'') False]"
  have del: "delivers ''!'' [] (reads_of ?d)"
    using delivers_frame[of "''!''"] by (simp add: escape_def is_special_def max_buffer_size_def)
  have "parse ''!'' = Value Enable_persistant" by code_simp
  from unhandled_command_ends_session[OF demo_ready del this] show ?thesis by auto
qed

section \<open>The protocol\<close>



text \<open>C32: the packet decoder never stays out of step. In whatever state noise has left it, the next frame
  of the host is decoded to its text; what was being received is reported as one bad packet, and what
  was queued before stays.\<close>

theorem decoder_recovers:
  assumes "decoder_inv d" "length (escape s) \<le> max_buffer_size"
  shows "pd_out_queue (decoder_push (frame_of s) d) =
      pd_out_queue d @ (if pd_state d = Waiting_dollar then [] else [Inl Bad_packet]) @ [Inr s]
    \<and> pd_state (decoder_push (frame_of s) d) = Waiting_dollar \<and> decoder_inv (decoder_push (frame_of s) d)"
  using decoder_resynchronises[OF assms] decoder_push_inv[OF assms(1)] by blast

theorem decoder_recovers_witness:
  "pd_out_queue (decoder_push (frame_of ''g'') (decoder_push ''$m12'' (decoder_init (CHR 0x00, CHR 0x00)))) = [Inl Bad_packet, Inr ''g'']"
proof -
  have "decoder_inv (decoder_push ''$m12'' (decoder_init (CHR 0x00, CHR 0x00)))"
    by (intro decoder_push_inv decoder_init_inv)
  moreover have "pd_out_queue (decoder_push ''$m12'' (decoder_init (CHR 0x00, CHR 0x00))) = []"
    "pd_state (decoder_push ''$m12'' (decoder_init (CHR 0x00, CHR 0x00))) = Receiving_body"
    by (simp_all add: decoder_push_def push_char_def decoder_init_def is_control_def max_buffer_size_def)
  moreover have "length (escape ''g'') \<le> max_buffer_size" by (simp add: escape_def is_special_def max_buffer_size_def)
  ultimately show ?thesis using decoder_recovers by simp
qed

text \<open>C33: what the encoder makes of a reply, with its run-length coding, escapes and checksum, is read
  back by the protocol's rules as the reply, unless it has a NUL or two equal special characters in a
  row.\<close>

theorem replies_are_received:
  assumes "no_special_run s" "CHR 0x00 \<notin> set s"
  shows "rsp_receive (encode s) = Some s"
  using assms by (rule encode_received)

theorem replies_are_received_witness: "rsp_receive (encode ''00000000xxxxxxxx*1'') = Some ''00000000xxxxxxxx*1''"
  by (rule replies_are_received) (simp_all add: is_special_def)

text \<open>Two equal special characters in a row are not received: the second one goes out without
  its escape, so that the frame ends early and the protocol's rules refuse it.\<close>

theorem special_runs_are_lost:
  "encode ''##'' = ''$}'' @ [CHR 0x03] @ ''##a3'' \<and> rsp_receive (encode ''##'') = None"
proof -
  have e: "encode ''##'' = ''$}'' @ [CHR 0x03] @ ''##a3''" using encode_special_run by simp
  show ?thesis unfolding e by (simp add: rsp_receive_def Let_def)
qed

text \<open>C34: a reply of \<open>n\<close> characters goes out in at most \<open>2 n + 4\<close> characters.\<close>

theorem reply_size: "length (encode s) \<le> 2 * length s + 4"
  by (rule encode_length)

text \<open>C35: sending a reply ends. Whatever the host answers, five failures or time-outs are enough for the
  call to return, and it has written the frame of the reply and nothing else, at most five times.\<close>

theorem sending_ends:
  assumes "5 \<le> ending_reads (nw_reads n)"
  shows "\<exists>x n'. net_send r n = Some (x, n')
    \<and> (\<exists>j \<le> 5. nw_written n' = nw_written n @ replicate j (encode (response_to_string r)))"
  using send_ends[OF assms, of r] send_writes[of r n] by blast

theorem sending_ends_witness:
  "\<exists>x n. net_send OK (demo_network (Read_some ''-'' False # replicate 5 (Read_some [] True))) = Some (x, n)
     \<and> (\<exists>j \<le> 5. nw_written n = replicate j (encode ''OK''))"
proof -
  have "5 \<le> ending_reads (nw_reads (demo_network (Read_some ''-'' False # replicate 5 (Read_some [] True))))"
    by (simp add: ending_reads_def)
  from sending_ends[OF this, of OK] show ?thesis by simp
qed



text \<open>C37: a condition whose jumps all go forward returns, on every memory and registers and from
  every stack.\<close>

theorem forward_conditions_return:
  assumes "jumps_forward code"
  shows "\<exists>r. expr_run mem reg code pc st s = Some r"
  using assms by (rule forward_terminates)

theorem forward_conditions_return_witness:
  "\<exists>r. expr_run (\<lambda>_ s. (Value 0, s)) (\<lambda>r s. (Value (ucast r), s)) [0x21, 0, 3, 0x27] 0 [] (0 :: nat) = Some r"
proof (rule forward_conditions_return)
  show "jumps_forward [0x21, 0, 3, 0x27]" by code_simp
qed

text \<open>The host that asks for slices of a description file until one is marked as the last gets
  exactly the bytes of the file, with as many requests as the file has bytes.\<close>

theorem the_host_reads_every_file:
  assumes "map_of (gdb_xml_files files) name = Some content" "0 < n" "length content < 2 ^ 31" "unat n < 2 ^ 31"
  shows "host_reads (\<lambda>offset. get_xml_file files name (ucast offset) (ucast n)) n (length content + 1) 0 = Some content"
  using host_reads_file[OF assms, of 0 "length content + 1"] by simp

theorem the_host_reads_every_file_witness:
  "host_reads (\<lambda>offset. get_xml_file \<lparr>xf_riscv_32bit_cpu = [], xf_target = [1, 2, 3, 4, 5]\<rparr> ''target.xml'' (ucast offset) (ucast (2 :: u32)))
     2 (length [1, 2, 3, 4, 5 :: u8] + 1) 0 = Some [1, 2, 3, 4, 5]"
  by (rule the_host_reads_every_file) (simp_all add: gdb_xml_files_def)

text \<open>C38: the host learns exactly the registers that the stub serves. It reads \<open>target.xml\<close>
  and the files it includes in slices of any size, and numbers the registers it finds in them; below 4224, where the numbers
  of the CSRs end, the accessor reads a number if and only if the description has it. The names of the first 32
  are those of the register file, and number 32 is the program counter.\<close>

theorem host_learns_the_registers:
  fixes n r :: u32
  assumes "0 < n" "unat n < 2 ^ 31" "r < 4224"
  shows "let regs = map_of (host_registers (host_file (description_files z) n))
    in (regs (unat r) \<noteq> None \<longleftrightarrow> fst (cpu_register_read r s) \<noteq> None)
       \<and> (r < 32 \<longrightarrow> regs (unat r) = Some (get_name (bs_of (ucast r))))
       \<and> regs 32 = Some ''pc''"
proof -
  have "map_of described_registers 32 = Some ''pc''"
    using described_gpr[of 32] by (simp add: cpu_registers_xml_def)
  then show ?thesis
    using described_served[OF assms(3)] described_name[of r]
    by (simp only: Let_def host_learns_described[OF assms(1,2)] simp_thms) blast
qed

theorem host_learns_the_registers_witness:
  "map_of (host_registers (host_file (description_files True) 0x200)) 8 = Some ''s0''
   \<and> map_of (host_registers (host_file (description_files True) 0x200)) 32 = Some ''pc''"
proof -
  have "get_name (bs_of (ucast (8 :: u32))) = ''s0''"
    by (simp add: get_name_def bs_of_def bs_nat_def bs_mask_eq mask_eq_exp_minus_1)
  then show ?thesis using host_learns_the_registers[of "0x200" 8 True demo_cpu] by (simp add: Let_def)
qed

text \<open>C39: the memory map that the host reads fits the platform. An address is announced as RAM if and only
  if the RAM serves it; an address of the ROM, the UART or the clock is announced as ROM, although the UART takes
  writes; and what no device serves is announced only inside the window of the peripherals.\<close>

theorem memory_map_is_announced:
  assumes "platform_inv m" "0 < n" "unat n < 2 ^ 31"
  shows "region_of (host_memory_map (memory_map_bytes z) n) (unat a) =
    (case get_memory m a of
       Inr (Dev_ram, _) \<Rightarrow> Some ''ram''
     | Inr _ \<Rightarrow> Some ''rom''
     | Inl _ \<Rightarrow> if 0x00010000 \<le> a \<and> a < 0x00100000 then Some ''rom'' else None)"
  using announced_region[OF assms(1)] host_memory_map_text[OF assms(2,3)] by simp

theorem memory_map_is_announced_witness:
  "region_of (host_memory_map (memory_map_bytes True) 0x200) (unat uart_start) = Some ''rom''
   \<and> fst (mi_write platform_interface (demo_memory 0) uart_start 0x41 (bs_of 1)) = Value ()"
proof -
  have "get_memory (demo_memory 0) uart_start = Inr (Dev_uart, 0)"
    by (simp add: get_memory_def demo_memory_def ram_start_def rom_start_def uart_start_def clock_start_def block_size_def
        block_memory_new_def periph_size_def word_le_nat_alt word_less_nat_alt)
  with memory_map_is_announced[OF demo_inv(1), of "0x200" True uart_start 0] uart_announced_read_only(2)[OF demo_inv(1)]
  show ?thesis by simp
qed

text \<open>C40: what the stub sends for \<open>g\<close> is not what it reads for \<open>G\<close>: a host that writes back the
  registers it has read gives every register the value with its bytes in the opposite order.\<close>

theorem registers_come_back_swapped:
  assumes "vs \<noteq> []"
  shows "parse (''G'' @ response_to_string (Register_content vs)) =
    Value (Write_register (register_entries (map (map_option byteswap) vs)))"
  using assms by (rule register_content_reads_back)

theorem registers_come_back_swapped_witness:
  "parse (''G'' @ response_to_string (Register_content [None, Some 0x00100000])) =
     Value (Write_register [(1, 0x00001000)])"
proof -
  have "register_entries (map (map_option byteswap) [None, Some 0x00100000]) = [(1, 0x00001000)]" by code_simp
  with registers_come_back_swapped[of "[None, Some 0x00100000]"] show ?thesis by simp
qed

end
